(* ===== verification/Prelude.thy ===== *)
theory Prelude
  imports Main "HOL-Library.Word" "HOL-Library.Multiset"
begin

text \<open>
  Shared vocabulary of the development: the machine integer types of the runtime, the
  three-way comparison result of Rust's \<open>Ord::cmp\<close>, and the generic lemmas on lists with
  strictly ascending keys, on \<open>map_of\<close> views of such lists, and on unsigned words that the
  component theories use.

  Integers are kept at their width. The runtime is built with the release profile of
  \<^verbatim>\<open>Cargo.toml\<close>, which does not switch overflow checks on, so \<open>+\<close> and \<open>-\<close> on \<open>u32\<close> and
  \<open>u128\<close> wrap around; this is exactly \<open>+\<close> and \<open>-\<close> on \<open>32 word\<close> and \<open>128 word\<close>.
\<close>

type_synonym u8 = "8 word"
type_synonym u16 = "16 word"
type_synonym u32 = "32 word"
type_synonym u64 = "64 word"
type_synonym u128 = "128 word"

declare Let_def [simp]

datatype ordering = Less | Equal | Greater

named_theorems keyed_simps \<open>rewrite rules for lists with strictly ascending keys\<close>
named_theorems running \<open>definitions to unfold when the model is run on a concrete storage\<close>

subsection \<open>Lists with strictly ascending keys\<close>

abbreviation ascending :: "('t \<Rightarrow> 'k::linorder) \<Rightarrow> 't list \<Rightarrow> bool" where
  "ascending key xs \<equiv> sorted_wrt (<) (map key xs)"

lemma ascending_distinct: "ascending key xs \<Longrightarrow> distinct (map key xs)"
  using strict_sorted_iff by blast

lemma ascending_filter: "ascending key xs \<Longrightarrow> ascending key (filter P xs)"
  by (induction xs) auto

lemma ascending_nth_less:
  "ascending key xs \<Longrightarrow> i < j \<Longrightarrow> j < length xs \<Longrightarrow> key (xs ! i) < key (xs ! j)"
  by (simp add: sorted_wrt_iff_nth_less)

lemma ascending_nth_le:
  "ascending key xs \<Longrightarrow> i \<le> j \<Longrightarrow> j < length xs \<Longrightarrow> key (xs ! i) \<le> key (xs ! j)"
  by (metis ascending_nth_less le_neq_implies_less less_imp_le order_refl)

lemma ascending_take: "ascending key xs \<Longrightarrow> ascending key (take n xs)"
  by (simp flip: take_map)

lemma ascending_drop: "ascending key xs \<Longrightarrow> ascending key (drop n xs)"
  by (simp flip: drop_map)

lemma ascending_append:
  "ascending key (xs @ ys) \<longleftrightarrow>
     ascending key xs \<and> ascending key ys \<and> (\<forall>x\<in>set xs. \<forall>y\<in>set ys. key x < key y)"
  by (auto simp: sorted_wrt_append)

subsection \<open>Reading a list with keys as a finite map\<close>

definition view :: "('t \<Rightarrow> 'k) \<Rightarrow> ('t \<Rightarrow> 'v) \<Rightarrow> 't list \<Rightarrow> ('k \<rightharpoonup> 'v)" where
  "view key val xs = map_of (map (\<lambda>t. (key t, val t)) xs)"

lemma view_Nil [simp]: "view key val [] = Map.empty"
  by (simp add: view_def)

lemma view_Cons [simp]: "view key val (t # ts) = (view key val ts)(key t \<mapsto> val t)"
  by (simp add: view_def)

lemma view_append: "view key val (xs @ ys) = view key val ys ++ view key val xs"
  by (simp add: view_def)

lemma dom_view: "dom (view key val xs) = key ` set xs"
  by (simp add: view_def dom_map_of_conv_image_fst image_image)

lemma view_None_iff: "view key val xs k = None \<longleftrightarrow> k \<notin> key ` set xs"
  by (induction xs) auto

lemma view_SomeD: "view key val xs k = Some v \<Longrightarrow> \<exists>t\<in>set xs. key t = k \<and> val t = v"
  by (induction xs) (auto split: if_splits)

lemma view_SomeI:
  "distinct (map key xs) \<Longrightarrow> t \<in> set xs \<Longrightarrow> view key val xs (key t) = Some (val t)"
  by (induction xs) (auto simp: image_iff)

lemma view_filter_neq:
  "view key val (filter (\<lambda>t. key t \<noteq> k) xs) = (view key val xs)(k := None)"
  by (induction xs) (auto simp: fun_eq_iff)

lemma view_filter_id:
  "view key val xs k = None \<Longrightarrow> filter (\<lambda>t. key t \<noteq> k) xs = xs"
  by (induction xs) (auto split: if_splits)

subsection \<open>Sums of word-valued amounts\<close>

lemma sum_list_filter_neq:
  fixes val :: "'t \<Rightarrow> 'n::len word"
  assumes "distinct (map key xs)" and "view key val xs k = Some v"
  shows "sum_list (map val (filter (\<lambda>t. key t \<noteq> k) xs)) = sum_list (map val xs) - v"
  using assms
proof (induction xs)
  case Nil
  then show ?case by simp
next
  case (Cons t ts)
  show ?case
  proof (cases "key t = k")
    case True
    with Cons.prems have "k \<notin> key ` set ts" and v: "v = val t" by auto
    then have "filter (\<lambda>t. key t \<noteq> k) ts = ts" by (auto simp: filter_id_conv)
    with True v show ?thesis by simp
  next
    case False
    with Cons show ?thesis by simp
  qed
qed

lemma sum_nat_filter_neq:
  fixes val :: "'t \<Rightarrow> nat"
  assumes "distinct (map key xs)" and "view key val xs k = Some v"
  shows "sum_list (map val (filter (\<lambda>t. key t \<noteq> k) xs)) + v = sum_list (map val xs)"
  using assms
proof (induction xs)
  case Nil
  then show ?case by simp
next
  case (Cons t ts)
  show ?case
  proof (cases "key t = k")
    case True
    with Cons.prems have "k \<notin> key ` set ts" and v: "v = val t" by auto
    then have "filter (\<lambda>t. key t \<noteq> k) ts = ts" by (auto simp: filter_id_conv)
    with True v show ?thesis by simp
  next
    case False
    with Cons show ?thesis by simp
  qed
qed

lemma view_le_sum_nat:
  fixes val :: "'t \<Rightarrow> nat"
  shows "view key val xs k = Some v \<Longrightarrow> v \<le> sum_list (map val xs)"
  by (induction xs) (auto split: if_splits)

lemma view_comp: "view key (f \<circ> val) xs k = map_option f (view key val xs k)"
  by (induction xs) auto

lemma of_nat_sum_list_unat:
  "(of_nat (sum_list (map (unat \<circ> val) xs)) :: 'n::len word) = sum_list (map val xs)"
  by (induction xs) auto

lemma unat_sum_list_exact:
  fixes val :: "'t \<Rightarrow> 'n::len word"
  assumes "sum_list (map (unat \<circ> val) xs) < 2 ^ LENGTH('n)"
  shows "unat (sum_list (map val xs)) = sum_list (map (unat \<circ> val) xs)"
  by (metis assms of_nat_inverse of_nat_sum_list_unat)

lemma unat_plus_exact:
  fixes a b :: "'n::len word"
  shows "unat a + unat b < 2 ^ LENGTH('n) \<Longrightarrow> unat (a + b) = unat a + unat b"
  using unat_add_lem by blast

lemma unat_minus_exact:
  fixes a b :: "'n::len word"
  shows "b \<le> a \<Longrightarrow> unat (a - b) = unat a - unat b"
  by (rule unat_sub)

subsection \<open>Reading a fallible result\<close>

lemma sum_case_Inl_eq [simp]:
  "(case r of Inl e \<Rightarrow> Inl e | Inr x \<Rightarrow> f x) = Inr y \<longleftrightarrow> (\<exists>x. r = Inr x \<and> f x = Inr y)"
  by (cases r) auto

end
