(* ===== verification/Ordered_Set.thy ===== *)
theory Ordered_Set
  imports Prelude
begin

text \<open>
  \<^verbatim>\<open>src/pallets/stake/src/set.rs\<close>: the vector-backed \<open>OrderedSet\<close> that every collection of the
  stake pallet is built on, with the slice operations of the Rust standard library that it
  calls (\<open>binary_search\<close>, stable \<open>sort\<close>, \<open>dedup\<close>).

  Rust's \<open>T: Ord\<close> is the argument \<open>cmp\<close> of each operation. The locale \<open>keyed_order\<close> is the
  contract of such an instance, an order that is decided by a key of the element; inside it
  the operations are proved to implement a finite set on vectors whose keys ascend strictly.
  It is interpreted on the two instances the pallet uses: account ids, and \<open>Bond\<close>, which is
  ordered by its owner only.
\<close>

section \<open>Slice operations\<close>

function bsearch_loop :: "('t \<Rightarrow> ordering) \<Rightarrow> 't list \<Rightarrow> nat \<Rightarrow> nat \<Rightarrow> nat" where
  "bsearch_loop f s n base =
     (if 1 < n
      then let half = n div 2; mid = base + half
           in bsearch_loop f s (n - half) (if f (s ! mid) = Greater then base else mid)
      else base)"
  by pat_completeness auto
termination
  by (relation "measure (\<lambda>(f, s, n, base). n)") auto

definition binary_search_by :: "('t \<Rightarrow> ordering) \<Rightarrow> 't list \<Rightarrow> nat + nat" where
  "binary_search_by f s =
     (if s = [] then Inl 0
      else let base = bsearch_loop f s (length s) 0; c = f (s ! base)
           in if c = Equal then Inr base
              else Inl (base + (if c = Less then 1 else 0)))"

definition binary_search :: "('t \<Rightarrow> 't \<Rightarrow> ordering) \<Rightarrow> 't list \<Rightarrow> 't \<Rightarrow> nat + nat" where
  "binary_search cmp s x = binary_search_by (\<lambda>p. cmp p x) s"

fun insert_sorted :: "('t \<Rightarrow> 't \<Rightarrow> ordering) \<Rightarrow> 't \<Rightarrow> 't list \<Rightarrow> 't list" where
  "insert_sorted cmp x [] = [x]"
| "insert_sorted cmp x (y # ys) =
     (if cmp x y = Greater then y # insert_sorted cmp x ys else x # y # ys)"

fun sort_vec :: "('t \<Rightarrow> 't \<Rightarrow> ordering) \<Rightarrow> 't list \<Rightarrow> 't list" where
  "sort_vec cmp [] = []"
| "sort_vec cmp (x # xs) = insert_sorted cmp x (sort_vec cmp xs)"

fun dedup :: "('t \<Rightarrow> 't \<Rightarrow> ordering) \<Rightarrow> 't list \<Rightarrow> 't list" where
  "dedup cmp [] = []"
| "dedup cmp [x] = [x]"
| "dedup cmp (x # y # ys) =
     (if cmp x y = Equal then dedup cmp (x # ys) else x # dedup cmp (y # ys))"

section \<open>The operations of \<open>OrderedSet\<close>\<close>

definition new_set :: "'t list" where
  "new_set = []"

definition from_sorted_set :: "'t list \<Rightarrow> 't list" where
  "from_sorted_set v = v"

definition from_vec :: "('t \<Rightarrow> 't \<Rightarrow> ordering) \<Rightarrow> 't list \<Rightarrow> 't list" where
  "from_vec cmp v = from_sorted_set (dedup cmp (sort_vec cmp v))"

definition set_insert :: "('t \<Rightarrow> 't \<Rightarrow> ordering) \<Rightarrow> 't \<Rightarrow> 't list \<Rightarrow> bool \<times> 't list" where
  "set_insert cmp value s =
     (case binary_search cmp s value of
        Inr _ \<Rightarrow> (False, s)
      | Inl loc \<Rightarrow> (True, take loc s @ value # drop loc s))"

definition set_remove :: "('t \<Rightarrow> 't \<Rightarrow> ordering) \<Rightarrow> 't \<Rightarrow> 't list \<Rightarrow> bool \<times> 't list" where
  "set_remove cmp value s =
     (case binary_search cmp s value of
        Inr loc \<Rightarrow> (True, take loc s @ drop (Suc loc) s)
      | Inl _ \<Rightarrow> (False, s))"

definition set_contains :: "('t \<Rightarrow> 't \<Rightarrow> ordering) \<Rightarrow> 't \<Rightarrow> 't list \<Rightarrow> bool" where
  "set_contains cmp value s = (case binary_search cmp s value of Inr _ \<Rightarrow> True | Inl _ \<Rightarrow> False)"

definition set_clear :: "'t list \<Rightarrow> 't list" where
  "set_clear s = []"

definition ord_cmp :: "'k::linorder \<Rightarrow> 'k \<Rightarrow> ordering" where
  "ord_cmp a b = (if a < b then Less else if a = b then Equal else Greater)"

declare bsearch_loop.simps [simp del]

section \<open>Orders decided by a key\<close>

locale keyed_order =
  fixes cmp :: "'t \<Rightarrow> 't \<Rightarrow> ordering"
    and key :: "'t \<Rightarrow> 'k::linorder"
  assumes cmp_key: "cmp x y = ord_cmp (key x) (key y)"
begin

lemma cmp_Greater [simp]: "cmp x y = Greater \<longleftrightarrow> key y < key x"
  by (auto simp: cmp_key ord_cmp_def)

lemma cmp_Less [simp]: "cmp x y = Less \<longleftrightarrow> key x < key y"
  by (auto simp: cmp_key ord_cmp_def)

lemma cmp_Equal [simp]: "cmp x y = Equal \<longleftrightarrow> key x = key y"
  by (auto simp: cmp_key ord_cmp_def)

text \<open>The bisection keeps the searched key inside the window \<open>[base, base + n)\<close>.\<close>

lemma bsearch_loop_window:
  assumes "ascending key s" and "0 < n" and "base + n \<le> length s"
    and "base = 0 \<or> key (s ! base) \<le> key x"
    and "base + n = length s \<or> key x < key (s ! (base + n))"
  shows "let b = bsearch_loop (\<lambda>p. cmp p x) s n base
         in b < length s \<and> (b = 0 \<or> key (s ! b) \<le> key x)
            \<and> (Suc b = length s \<or> key x < key (s ! Suc b))"
  using assms
proof (induction n arbitrary: base rule: less_induct)
  case (less n)
  show ?case
  proof (cases "1 < n")
    case False
    with less.prems have "n = 1" by simp
    with less.prems show ?thesis by (simp add: bsearch_loop.simps[of _ s "Suc 0" base])
  next
    case True
    define half where "half = n div 2"
    define mid where "mid = base + half"
    define base' where "base' = (if key x < key (s ! mid) then base else mid)"
    have half: "0 < half" "half < n" "half \<le> n - half"
      using True by (auto simp: half_def)
    have step: "bsearch_loop (\<lambda>p. cmp p x) s n base
        = bsearch_loop (\<lambda>p. cmp p x) s (n - half) base'"
      using True by (simp add: bsearch_loop.simps[of _ s n base] half_def mid_def base'_def)
    have right: "base' + (n - half) = length s \<or> key x < key (s ! (base' + (n - half)))"
    proof (cases "key x < key (s ! mid)")
      case lt: True
      have "mid \<le> base + (n - half)" "base + (n - half) < length s"
        using half less.prems by (auto simp: mid_def)
      then have "key (s ! mid) \<le> key (s ! (base + (n - half)))"
        using less.prems by (blast intro: ascending_nth_le)
      with lt have "key x < key (s ! (base + (n - half)))" by (rule less_le_trans)
      with lt show ?thesis by (simp add: base'_def)
    next
      case ge: False
      with half less.prems show ?thesis by (simp add: base'_def mid_def)
    qed
    have left: "base' = 0 \<or> key (s ! base') \<le> key x"
      using less.prems by (auto simp: base'_def)
    have "base' + (n - half) \<le> length s"
      using half less.prems by (auto simp: base'_def mid_def)
    moreover have "n - half < n" "0 < n - half" using half by auto
    ultimately show ?thesis
      unfolding step using less.IH[of "n - half" base'] less.prems(1) left right by blast
  qed
qed

lemma binary_search_Ok:
  "binary_search cmp s x = Inr i \<Longrightarrow> ascending key s \<Longrightarrow> i < length s \<and> key (s ! i) = key x"
  using bsearch_loop_window[of s "length s" 0 x]
  by (auto simp: binary_search_def binary_search_by_def split: if_splits)

lemma binary_search_Err:
  assumes "binary_search cmp s x = Inl i" and asc: "ascending key s"
  shows "i \<le> length s" "\<And>j. j < i \<Longrightarrow> key (s ! j) < key x"
    "\<And>j. i \<le> j \<Longrightarrow> j < length s \<Longrightarrow> key x < key (s ! j)"
proof -
  define b where "b = bsearch_loop (\<lambda>p. cmp p x) s (length s) 0"
  have w: "s \<noteq> [] \<Longrightarrow> b < length s \<and> (b = 0 \<or> key (s ! b) \<le> key x)
      \<and> (Suc b = length s \<or> key x < key (s ! Suc b))"
    using bsearch_loop_window[of s "length s" 0 x] asc by (simp add: b_def)
  have i: "s = [] \<and> i = 0 \<or> s \<noteq> [] \<and> key (s ! b) < key x \<and> i = Suc b
      \<or> s \<noteq> [] \<and> key x < key (s ! b) \<and> i = b"
    using assms(1) by (auto simp: binary_search_def binary_search_by_def b_def split: if_splits)
  show "i \<le> length s" using i w by auto
  show "key (s ! j) < key x" if "j < i" for j
    using i w that ascending_nth_le[OF asc, of j b] by auto
  show "key x < key (s ! j)" if "i \<le> j" "j < length s" for j
    using i w that ascending_nth_le[OF asc, of b j] ascending_nth_le[OF asc, of "Suc b" j]
    by fastforce
qed

lemma binary_search_iff:
  assumes "ascending key s"
  shows "(\<exists>i. binary_search cmp s x = Inr i) \<longleftrightarrow> key x \<in> key ` set s"
proof (cases "binary_search cmp s x")
  case (Inl i)
  have "key x \<noteq> key (s ! j)" if "j < length s" for j
    using binary_search_Err(2,3)[OF Inl assms, of j] that
    by (metis less_irrefl not_le)
  then have "key x \<notin> key ` set s" by (metis image_iff in_set_conv_nth)
  with Inl show ?thesis by simp
next
  case (Inr i)
  with binary_search_Ok[OF Inr assms] show ?thesis by (metis image_eqI nth_mem)
qed

lemma set_contains_iff [keyed_simps]:
  "ascending key s \<Longrightarrow> set_contains cmp x s \<longleftrightarrow> key x \<in> key ` set s"
  using binary_search_iff[of s x]
  by (auto simp: set_contains_def split: sum.splits)

lemma split_at_Err:
  assumes "binary_search cmp s x = Inl i" and "ascending key s"
  shows "\<forall>y\<in>set (take i s). key y < key x" "\<forall>y\<in>set (drop i s). key x < key y"
proof -
  note err = binary_search_Err[OF assms]
  show "\<forall>y\<in>set (take i s). key y < key x"
    using err(1,2) by (auto simp: in_set_conv_nth)
  show "\<forall>y\<in>set (drop i s). key x < key y"
    using err(1,3) by (auto simp: in_set_conv_nth)
qed

lemma set_insert_present:
  "ascending key s \<Longrightarrow> key x \<in> key ` set s \<Longrightarrow> set_insert cmp x s = (False, s)"
  using binary_search_iff[of s x] by (auto simp: set_insert_def)

lemma set_insert_absent:
  assumes asc: "ascending key s" and "key x \<notin> key ` set s"
  obtains ys zs where "s = ys @ zs" "set_insert cmp x s = (True, ys @ x # zs)"
    "ascending key (ys @ x # zs)"
proof -
  obtain i where i: "binary_search cmp s x = Inl i"
    using assms binary_search_iff[OF asc, of x] by (cases "binary_search cmp s x") auto
  have "ascending key (take i s @ drop i s)" using asc by simp
  then have "ascending key (take i s @ x # drop i s)"
    using split_at_Err[OF i asc] ascending_append[of key "take i s" "drop i s"]
    by (fastforce simp: sorted_wrt_append)
  with i that[of "take i s" "drop i s"] show ?thesis
    by (simp add: set_insert_def)
qed

lemma set_remove_absent:
  "ascending key s \<Longrightarrow> key x \<notin> key ` set s \<Longrightarrow> set_remove cmp x s = (False, s)"
  using binary_search_iff[of s x] by (auto simp: set_remove_def split: sum.splits)

lemma set_remove_present:
  assumes asc: "ascending key s" and "key x \<in> key ` set s"
  shows "set_remove cmp x s = (True, filter (\<lambda>t. key t \<noteq> key x) s)"
proof -
  obtain i where i: "binary_search cmp s x = Inr i"
    using assms binary_search_iff[OF asc, of x] by auto
  from binary_search_Ok[OF i asc] have il: "i < length s" and ik: "key (s ! i) = key x" by auto
  have s: "s = take i s @ s ! i # drop (Suc i) s" using il by (simp add: id_take_nth_drop)
  have "ascending key (take i s @ s ! i # drop (Suc i) s)" using asc s by simp
  then have "\<forall>y\<in>set (take i s). key y \<noteq> key x" "\<forall>y\<in>set (drop (Suc i) s). key y \<noteq> key x"
    using ik by (auto simp: sorted_wrt_append)
  then have "filter (\<lambda>t. key t \<noteq> key x) (take i s @ s ! i # drop (Suc i) s)
      = take i s @ drop (Suc i) s"
    using ik by (simp add: filter_id_conv)
  with s i show ?thesis by (simp add: set_remove_def)
qed

lemma set_remove_eq:
  assumes "ascending key s"
  shows "set_remove cmp x s = (key x \<in> key ` set s, filter (\<lambda>t. key t \<noteq> key x) s)"
proof (cases "key x \<in> key ` set s")
  case True
  with set_remove_present[OF assms True] show ?thesis by simp
next
  case False
  then have "filter (\<lambda>t. key t \<noteq> key x) s = s" by (auto simp: filter_id_conv image_iff)
  with False set_remove_absent[OF assms False] show ?thesis by simp
qed

text \<open>What a client sees of the operations: the vector as a finite map from keys.\<close>

lemma set_insert_fst [keyed_simps]:
  "ascending key s \<Longrightarrow> fst (set_insert cmp x s) \<longleftrightarrow> view key val s (key x) = None"
  using set_insert_present[of s x] set_insert_absent[of s x]
  by (metis fst_conv view_None_iff)

lemma view_set_insert [keyed_simps]:
  assumes "ascending key s" "view key val s (key x) = None"
  shows "view key val (snd (set_insert cmp x s)) = (view key val s)(key x \<mapsto> val x)"
proof -
  have "key x \<notin> key ` set s" using assms(2) by (simp add: view_None_iff)
  from set_insert_absent[OF assms(1) this] obtain ys zs where
    s: "s = ys @ zs" and i: "set_insert cmp x s = (True, ys @ x # zs)" by metis
  have "key x \<notin> dom (view key val ys)"
    using assms(2) s by (auto simp: view_None_iff dom_view)
  then show ?thesis using s i by (auto simp: view_append map_add_def fun_eq_iff split: option.splits)
qed

lemma ascending_set_insert:
  "ascending key s \<Longrightarrow> ascending key (snd (set_insert cmp x s))"
  using set_insert_present[of s x] set_insert_absent[of s x]
  by (metis snd_conv)

lemma mset_set_insert [keyed_simps]:
  assumes "ascending key s" "view key val s (key x) = None"
  shows "mset (snd (set_insert cmp x s)) = add_mset x (mset s)"
proof -
  have "key x \<notin> key ` set s" using assms(2) by (simp add: view_None_iff)
  from set_insert_absent[OF assms(1) this] show ?thesis by (metis mset.simps(2) mset_append snd_conv union_mset_add_mset_right)
qed

lemma set_remove_fst [keyed_simps]:
  "ascending key s \<Longrightarrow> fst (set_remove cmp x s) \<longleftrightarrow> view key val s (key x) \<noteq> None"
  by (simp add: set_remove_eq view_None_iff)

lemma view_set_remove [keyed_simps]:
  "ascending key s \<Longrightarrow> view key val (snd (set_remove cmp x s)) = (view key val s)(key x := None)"
  by (simp add: set_remove_eq view_filter_neq)

lemma ascending_set_remove:
  "ascending key s \<Longrightarrow> ascending key (snd (set_remove cmp x s))"
  by (simp add: set_remove_eq ascending_filter)

lemma mset_insert_sorted: "mset (insert_sorted cmp x ys) = add_mset x (mset ys)"
  by (induction ys) auto

lemma mset_sort_vec: "mset (sort_vec cmp xs) = mset xs"
  by (induction xs) (auto simp: mset_insert_sorted)

lemma sorted_insert_sorted:
  "sorted (map key ys) \<Longrightarrow> sorted (map key (insert_sorted cmp x ys))"
proof (induction ys)
  case (Cons y ys)
  have "set (insert_sorted cmp x ys) = insert x (set ys)"
    using mset_insert_sorted[of x ys] by (metis set_mset_add_mset_insert set_mset_mset)
  with Cons show ?case by auto
qed simp

lemma sorted_sort_vec: "sorted (map key (sort_vec cmp xs))"
  by (induction xs) (auto simp: sorted_insert_sorted)

lemma dedup_rule:
  assumes "P []" "\<And>x. P [x]"
    "\<And>x y ys. (key x = key y \<Longrightarrow> P (x # ys)) \<Longrightarrow> (key x \<noteq> key y \<Longrightarrow> P (y # ys)) \<Longrightarrow> P (x # y # ys)"
  shows "P xs"
  using dedup.induct[of "\<lambda>c xs. c = cmp \<longrightarrow> P xs" cmp xs] assms by auto

lemma dedup_keys: "key ` set (dedup cmp xs) = key ` set xs"
  by (induction xs rule: dedup_rule) auto

lemma ascending_dedup: "sorted (map key xs) \<Longrightarrow> ascending key (dedup cmp xs)"
proof (induction xs rule: dedup_rule)
  case (3 x y ys)
  show ?case
  proof (cases "key x = key y")
    case False
    have "\<forall>k\<in>key ` set (dedup cmp (y # ys)). key x < k"
      unfolding dedup_keys using 3(3) False by (auto intro: le_neq_trans less_le_trans)
    with False 3 show ?thesis by auto
  qed (use 3 in auto)
qed auto

lemma sort_vec_ascending: "ascending key xs \<Longrightarrow> sort_vec cmp xs = xs"
proof (induction xs)
  case (Cons x xs)
  then show ?case by (cases xs) auto
qed simp

lemma dedup_ascending: "ascending key xs \<Longrightarrow> dedup cmp xs = xs"
  by (induction xs rule: dedup_rule) auto

lemma from_vec_ascending [keyed_simps]: "ascending key xs \<Longrightarrow> from_vec cmp xs = xs"
  by (simp add: from_vec_def from_sorted_set_def sort_vec_ascending dedup_ascending)

lemma ascending_from_vec: "ascending key (from_vec cmp xs)"
  by (simp add: from_vec_def from_sorted_set_def ascending_dedup sorted_sort_vec)

end

interpretation account_order: keyed_order ord_cmp "\<lambda>a. a"
  by unfold_locales simp

end
