(* ===== verification/Substrate.thy ===== *)
theory Substrate
  imports Prelude
begin

text \<open>
  The parts of Substrate that the pallets call and that are not in this repository, as
  parameters: \<open>Perbill\<close> arithmetic (\<open>sp_runtime\<close>) and the \<open>Currency\<close> and \<open>ReservableCurrency\<close>
  traits (\<open>frame_support\<close>, implemented by \<open>pallet_balances\<close>). A record holds the functions a
  pallet calls; the definitions after it state the documented behaviour that proofs rely on,
  each under a name of its own, so that a theorem shows which part of it is used.
\<close>

type_synonym balance = u128
type_synonym round_index = u32
type_synonym reward_point = u32

text \<open>A \<open>Perbill\<close> is represented by what \<open>deconstruct\<close> returns, its parts per billion.\<close>

type_synonym perbill = u32

record perbill_ops =
  from_parts :: "u32 \<Rightarrow> perbill"
  from_rational_u32 :: "u32 \<Rightarrow> u32 \<Rightarrow> perbill"
  from_rational_u128 :: "u128 \<Rightarrow> u128 \<Rightarrow> perbill"
  perbill_mul :: "perbill \<Rightarrow> balance \<Rightarrow> balance"

abbreviation billion :: nat where
  "billion \<equiv> 1000000000"

text \<open>\<open>from_parts\<close> keeps every number of parts up to one billion.\<close>

definition from_parts_law :: "perbill_ops \<Rightarrow> bool" where
  "from_parts_law P \<longleftrightarrow> (\<forall>p. unat p \<le> billion \<longrightarrow> from_parts P p = p)"

text \<open>\<open>from_rational_approximation\<close> is at most one and always rounds down.\<close>

definition from_rational_law :: "perbill_ops \<Rightarrow> bool" where
  "from_rational_law P \<longleftrightarrow>
     (\<forall>p q. unat (from_rational_u32 P p q) \<le> billion
         \<and> unat (from_rational_u32 P p q) * unat q \<le> billion * unat p) \<and>
     (\<forall>p q. unat (from_rational_u128 P p q) \<le> billion
         \<and> unat (from_rational_u128 P p q) * unat q \<le> billion * unat p)"

text \<open>The product of a \<open>Perbill\<close> and a balance is rounded to the nearest whole number.\<close>

definition perbill_mul_law :: "perbill_ops \<Rightarrow> bool" where
  "perbill_mul_law P \<longleftrightarrow>
     (\<forall>p x. unat p \<le> billion \<longrightarrow>
        2 * billion * unat (perbill_mul P p x) \<le> 2 * (unat p * unat x) + billion \<and>
        2 * (unat p * unat x) \<le> 2 * billion * unat (perbill_mul P p x) + billion)"

datatype dispatch_error =
    ModuleError string \<comment> \<open>the name of a variant of the error enum of a pallet\<close>
  | OtherError string

text \<open>
  The balances ledger is a value of the type \<open>'c\<close>. A call that fails returns the error and
  leaves the ledger as it was; \<open>deposit_into_existing\<close> returns the ledger after its imbalance
  is dropped, with the size of the imbalance.
\<close>

record ('c, 'a) currency =
  free_balance :: "'c \<Rightarrow> 'a \<Rightarrow> balance"
  reserved_balance :: "'c \<Rightarrow> 'a \<Rightarrow> balance"
  total_issuance :: "'c \<Rightarrow> balance"
  minimum_balance :: balance
  reserve :: "'c \<Rightarrow> 'a \<Rightarrow> balance \<Rightarrow> dispatch_error + 'c"
  unreserve :: "'c \<Rightarrow> 'a \<Rightarrow> balance \<Rightarrow> 'c"
  deposit_into_existing :: "'c \<Rightarrow> 'a \<Rightarrow> balance \<Rightarrow> dispatch_error + 'c \<times> balance"

text \<open>\<open>reserve\<close> moves the amount from the free to the reserved balance of the account.\<close>

definition reserve_law :: "('c, 'a) currency \<Rightarrow> bool" where
  "reserve_law C \<longleftrightarrow>
     (\<forall>c a v c'. reserve C c a v = Inr c' \<longrightarrow>
        unat (reserved_balance C c' a) = unat (reserved_balance C c a) + unat v \<and>
        (\<forall>b. b \<noteq> a \<longrightarrow> reserved_balance C c' b = reserved_balance C c b))"

text \<open>\<open>unreserve\<close> moves as much of the amount as is reserved back to the free balance.\<close>

definition unreserve_law :: "('c, 'a) currency \<Rightarrow> bool" where
  "unreserve_law C \<longleftrightarrow>
     (\<forall>c a v. unat (reserved_balance C (unreserve C c a v) a)
          = unat (reserved_balance C c a) - unat v \<and>
        (\<forall>b. b \<noteq> a \<longrightarrow> reserved_balance C (unreserve C c a v) b = reserved_balance C c b))"

text \<open>\<open>deposit_into_existing\<close> creates the value in the free balance of the account.\<close>

definition deposit_law :: "('c, 'a) currency \<Rightarrow> bool" where
  "deposit_law C \<longleftrightarrow>
     (\<forall>c a v c' i. deposit_into_existing C c a v = Inr (c', i) \<longrightarrow>
        i = v \<and> (\<forall>b. reserved_balance C c' b = reserved_balance C c b))"

definition currency_laws :: "('c, 'a) currency \<Rightarrow> bool" where
  "currency_laws C \<longleftrightarrow> reserve_law C \<and> unreserve_law C \<and> deposit_law C"

lemma currency_lawsD:
  assumes "currency_laws C"
  shows "reserve_law C" "unreserve_law C" "deposit_law C"
  using assms by (auto simp: currency_laws_def)

lemma perbill_mul_upper:
  "perbill_mul_law P \<Longrightarrow> unat p \<le> billion \<Longrightarrow>
     2 * billion * unat (perbill_mul P p x) \<le> 2 * (unat p * unat x) + billion"
  by (simp add: perbill_mul_law_def)

end
