(* ===== verification/Stake_Types.thy ===== *)
theory Stake_Types
  imports Ordered_Set Substrate
begin

text \<open>
  The data types of \<^verbatim>\<open>src/pallets/stake/src/lib.rs\<close> (lines 72 to 419) with their methods:
  \<open>Bond\<close> and its order by owner, \<open>ValidatorStatus\<close>, \<open>Validator\<close>, \<open>ValidatorSnapshot\<close> and
  \<open>Nominator\<close>. A method that takes \<open>&mut self\<close> returns the new value, paired with its result
  where it has one. The lemmas describe every method by its effect on the finite map from
  accounts to amounts (\<open>amounts\<close>) and on the sum of the amounts.
\<close>

section \<open>Bonds\<close>

record ('a, 'b) bond =
  owner :: 'a
  amount :: 'b

definition from_owner :: "'a \<Rightarrow> ('a, 'b::zero) bond" where
  "from_owner a = \<lparr>owner = a, amount = 0\<rparr>"

definition bond_cmp :: "('a::linorder, 'b) bond \<Rightarrow> ('a, 'b) bond \<Rightarrow> ordering" where
  "bond_cmp x y = ord_cmp (owner x) (owner y)"

definition bond_eq :: "('a::linorder, 'b) bond \<Rightarrow> ('a, 'b) bond \<Rightarrow> bool" where
  "bond_eq x y \<longleftrightarrow> owner x = owner y"

abbreviation amounts :: "('a, 'b) bond list \<Rightarrow> ('a \<rightharpoonup> 'b)" where
  "amounts \<equiv> view owner amount"

abbreviation sum_amounts :: "('a, balance) bond list \<Rightarrow> balance" where
  "sum_amounts xs \<equiv> sum_list (map amount xs)"

section \<open>Validators\<close>

datatype ValidatorStatus = Active | Idle | Leaving round_index

record 'a ValidatorSnapshot =
  s_fee :: perbill
  s_bond :: balance
  s_nominators :: "('a, balance) bond list"
  s_total :: balance

record 'a Validator =
  v_id :: 'a
  v_fee :: perbill
  v_bond :: balance
  v_nominators :: "('a, balance) bond list"
  v_total :: balance
  v_state :: ValidatorStatus

definition snapshot_default :: "'a ValidatorSnapshot" where
  "snapshot_default = \<lparr>s_fee = 0, s_bond = 0, s_nominators = [], s_total = 0\<rparr>"

definition new_validator :: "'a \<Rightarrow> perbill \<Rightarrow> balance \<Rightarrow> 'a Validator" where
  "new_validator a fee bond =
     \<lparr>v_id = a, v_fee = fee, v_bond = bond, v_nominators = new_set, v_total = bond, v_state = Active\<rparr>"

definition is_active :: "'a Validator \<Rightarrow> bool" where
  "is_active v \<longleftrightarrow> v_state v = Active"

definition is_leaving :: "'a Validator \<Rightarrow> bool" where
  "is_leaving v \<longleftrightarrow> (case v_state v of Leaving _ \<Rightarrow> True | _ \<Rightarrow> False)"

definition bond_more :: "'a Validator \<Rightarrow> balance \<Rightarrow> 'a Validator" where
  "bond_more v extra = v\<lparr>v_bond := v_bond v + extra, v_total := v_total v + extra\<rparr>"

definition bond_less :: "'a Validator \<Rightarrow> balance \<Rightarrow> (balance \<times> 'a Validator) option" where
  "bond_less v fewer =
     (if fewer < v_bond v
      then Some (v_bond v - fewer, v\<lparr>v_bond := v_bond v - fewer, v_total := v_total v - fewer\<rparr>)
      else None)"

definition rm_nominator :: "'a::linorder Validator \<Rightarrow> 'a \<Rightarrow> balance \<times> 'a Validator" where
  "rm_nominator v nominator =
     (let total = foldl (\<lambda>t x. if owner x = nominator then t - amount x else t)
                    (v_total v) (v_nominators v);
          nominators = filter (\<lambda>x. owner x \<noteq> nominator) (v_nominators v)
      in (total, v\<lparr>v_nominators := from_vec bond_cmp nominators, v_total := total\<rparr>))"

definition add_nominator :: "'a::linorder Validator \<Rightarrow> 'a \<Rightarrow> balance \<Rightarrow> balance \<times> 'a Validator" where
  "add_nominator v a amt =
     (let nominators = snd (set_insert bond_cmp \<lparr>owner = a, amount = amt\<rparr> (v_nominators v));
          total = v_total v + amt
      in (total, v\<lparr>v_nominators := nominators, v_total := total\<rparr>))"

definition update_nominator :: "'a::linorder Validator \<Rightarrow> 'a \<Rightarrow> balance \<Rightarrow> balance \<times> 'a Validator" where
  "update_nominator v nominator amt =
     (let difference = foldl (\<lambda>d x. if owner x = nominator then amt - amount x else d)
                         0 (v_nominators v);
          nominators = map (\<lambda>x. if owner x = nominator then \<lparr>owner = owner x, amount = amt\<rparr> else x)
                         (v_nominators v);
          total = v_total v + difference
      in (total, v\<lparr>v_nominators := from_vec bond_cmp nominators, v_total := total\<rparr>))"

text \<open>A loop over \<open>&mut\<close> elements that updates the first match and returns.\<close>

fun update_first :: "('t \<Rightarrow> bool) \<Rightarrow> ('t \<Rightarrow> 't) \<Rightarrow> 't list \<Rightarrow> 't list" where
  "update_first P f [] = []"
| "update_first P f (x # xs) = (if P x then f x # xs else x # update_first P f xs)"

definition inc_nominator :: "'a Validator \<Rightarrow> 'a \<Rightarrow> balance \<Rightarrow> 'a Validator" where
  "inc_nominator v nominator extra =
     (case find (\<lambda>x. owner x = nominator) (v_nominators v) of
        None \<Rightarrow> v
      | Some _ \<Rightarrow> v\<lparr>v_nominators := update_first (\<lambda>x. owner x = nominator)
                       (\<lambda>x. x\<lparr>amount := amount x + extra\<rparr>) (v_nominators v),
                     v_total := v_total v + extra\<rparr>)"

definition dec_nominator :: "'a Validator \<Rightarrow> 'a \<Rightarrow> balance \<Rightarrow> 'a Validator" where
  "dec_nominator v nominator fewer =
     (case find (\<lambda>x. owner x = nominator) (v_nominators v) of
        None \<Rightarrow> v
      | Some _ \<Rightarrow> v\<lparr>v_nominators := update_first (\<lambda>x. owner x = nominator)
                       (\<lambda>x. x\<lparr>amount := amount x - fewer\<rparr>) (v_nominators v),
                     v_total := v_total v - fewer\<rparr>)"

definition set_offline :: "'a Validator \<Rightarrow> 'a Validator" where
  "set_offline v = v\<lparr>v_state := Idle\<rparr>"

definition set_online :: "'a Validator \<Rightarrow> 'a Validator" where
  "set_online v = v\<lparr>v_state := Active\<rparr>"

definition set_leaving :: "'a Validator \<Rightarrow> round_index \<Rightarrow> 'a Validator" where
  "set_leaving v round = v\<lparr>v_state := Leaving round\<rparr>"

definition to_snapshot :: "'a Validator \<Rightarrow> 'a ValidatorSnapshot" where
  "to_snapshot v =
     \<lparr>s_fee = v_fee v, s_bond = v_bond v, s_nominators = v_nominators v, s_total = v_total v\<rparr>"

section \<open>Nominators\<close>

record 'a Nominator =
  n_nominations :: "('a, balance) bond list"
  n_total :: balance

definition new_nominator :: "'a::linorder \<Rightarrow> balance \<Rightarrow> 'a Nominator" where
  "new_nominator validator nomination =
     \<lparr>n_nominations = from_vec bond_cmp [\<lparr>owner = validator, amount = nomination\<rparr>],
      n_total = nomination\<rparr>"

definition add_nomination :: "'a::linorder Nominator \<Rightarrow> ('a, balance) bond \<Rightarrow> bool \<times> 'a Nominator" where
  "add_nomination n b =
     (case set_insert bond_cmp b (n_nominations n) of
        (True, noms) \<Rightarrow> (True, n\<lparr>n_nominations := noms, n_total := n_total n + amount b\<rparr>)
      | (False, noms) \<Rightarrow> (False, n))"

text \<open>The amount that a \<open>filter_map\<close> pass records for the bond it drops.\<close>

definition dropped_amount :: "'a \<Rightarrow> ('a, 'b) bond list \<Rightarrow> 'b option" where
  "dropped_amount a xs = foldl (\<lambda>r x. if owner x = a then Some (amount x) else r) None xs"

definition rm_nomination :: "'a::linorder Nominator \<Rightarrow> 'a \<Rightarrow> (balance \<times> 'a Nominator) option" where
  "rm_nomination n validator =
     (case dropped_amount validator (n_nominations n) of
        Some bal \<Rightarrow>
          (let nominations = filter (\<lambda>x. owner x \<noteq> validator) (n_nominations n);
               total = n_total n - bal
           in Some (total, n\<lparr>n_nominations := from_vec bond_cmp nominations, n_total := total\<rparr>))
      | None \<Rightarrow> None)"

definition swap_nomination ::
  "'a::linorder Nominator \<Rightarrow> 'a \<Rightarrow> 'a \<Rightarrow> ((balance \<times> balance) \<times> 'a Nominator) option" where
  "swap_nomination n old new =
     (case dropped_amount old (n_nominations n) of
        Some swapped_amt \<Rightarrow>
          (let nominations = filter (\<lambda>x. owner x \<noteq> old) (n_nominations n);
               nominations2 = filter (\<lambda>x. owner x \<noteq> new) (n_nominations n)
           in (case dropped_amount new (n_nominations n) of
                 Some old_amt \<Rightarrow>
                   (let new_amt = old_amt + swapped_amt
                    in Some ((swapped_amt, new_amt),
                         n\<lparr>n_nominations := snd (set_insert bond_cmp \<lparr>owner = new, amount = new_amt\<rparr>
                              (from_vec bond_cmp nominations2))\<rparr>))
               | None \<Rightarrow>
                   Some ((swapped_amt, swapped_amt),
                         n\<lparr>n_nominations := snd (set_insert bond_cmp \<lparr>owner = new, amount = swapped_amt\<rparr>
                              (from_vec bond_cmp nominations))\<rparr>)))
      | None \<Rightarrow> None)"

definition inc_nomination :: "'a Nominator \<Rightarrow> 'a \<Rightarrow> balance \<Rightarrow> (balance \<times> 'a Nominator) option" where
  "inc_nomination n validator extra =
     (case find (\<lambda>x. owner x = validator) (n_nominations n) of
        Some x \<Rightarrow> Some (amount x + extra,
          n\<lparr>n_nominations := update_first (\<lambda>x. owner x = validator)
               (\<lambda>x. x\<lparr>amount := amount x + extra\<rparr>) (n_nominations n),
             n_total := n_total n + extra\<rparr>)
      | None \<Rightarrow> None)"

definition dec_nomination ::
  "'a Nominator \<Rightarrow> 'a \<Rightarrow> balance \<Rightarrow> (balance \<times> 'a Nominator) option option" where
  "dec_nomination n validator fewer =
     (case find (\<lambda>x. owner x = validator) (n_nominations n) of
        Some x \<Rightarrow>
          (if fewer < amount x
           then Some (Some (amount x - fewer,
                  n\<lparr>n_nominations := update_first (\<lambda>x. owner x = validator)
                       (\<lambda>x. x\<lparr>amount := amount x - fewer\<rparr>) (n_nominations n),
                     n_total := n_total n - fewer\<rparr>))
           else Some None)
      | None \<Rightarrow> None)"

section \<open>Bonds are ordered by their owner\<close>

interpretation bond_order: keyed_order bond_cmp owner
  by unfold_locales (simp add: bond_cmp_def)

text \<open>\<open>PartialOrd\<close> of bonds: a preorder, as bonds of the same owner are equivalent whatever their amounts are.\<close>

instantiation bond_ext :: (linorder, type, type) preorder
begin

definition less_eq_bond_ext :: "('a, 'b, 'c) bond_ext \<Rightarrow> ('a, 'b, 'c) bond_ext \<Rightarrow> bool" where
  "x \<le> y \<longleftrightarrow> owner x \<le> owner y"

definition less_bond_ext :: "('a, 'b, 'c) bond_ext \<Rightarrow> ('a, 'b, 'c) bond_ext \<Rightarrow> bool" where
  "x < y \<longleftrightarrow> owner x < owner y"

instance
  by standard (auto simp: less_eq_bond_ext_def less_bond_ext_def)

end

text \<open>\<open>cmp\<close>, \<open>partial_cmp\<close> and \<open>eq\<close> of bonds agree, and an ordered set of bonds is a strictly sorted list in this
  order.\<close>

lemma bond_cmp_order:
  fixes x y :: "('a::linorder, 'b) bond"
  shows "bond_cmp x y = Less \<longleftrightarrow> x < y" "bond_cmp x y = Greater \<longleftrightarrow> y < x" "bond_cmp x y = Equal \<longleftrightarrow> bond_eq x y"
    "bond_eq x y \<longleftrightarrow> x \<le> y \<and> y \<le> x"
  by (auto simp: bond_cmp_def ord_cmp_def bond_eq_def less_bond_ext_def less_eq_bond_ext_def)

lemma ascending_bonds:
  fixes xs :: "('a::linorder, 'b) bond list"
  shows "ascending owner xs \<longleftrightarrow> sorted_wrt (<) xs"
  unfolding sorted_wrt_map by (rule arg_cong[where f = "\<lambda>R. sorted_wrt R xs"]) (simp add: less_bond_ext_def fun_eq_iff)

section \<open>The effect of the methods on the map of amounts\<close>

abbreviation nat_sum :: "('a, balance) bond list \<Rightarrow> nat" where
  "nat_sum xs \<equiv> sum_list (map (unat \<circ> amount) xs)"

lemma find_owner:
  "find (\<lambda>x. owner x = a) xs = None \<longleftrightarrow> amounts xs a = None"
  "find (\<lambda>x. owner x = a) xs = Some x \<Longrightarrow> amounts xs a = Some (amount x)"
  by (induction xs) (auto split: if_splits)

lemma find_owner_Some:
  "amounts xs a = Some v \<Longrightarrow> \<exists>x. find (\<lambda>x. owner x = a) xs = Some x \<and> amount x = v"
  by (induction xs) auto

lemma map_owner_update_first [simp]:
  "map owner (update_first P (\<lambda>x. x\<lparr>amount := f x\<rparr>) xs) = map owner xs"
  by (induction xs) auto

lemma amounts_update_first:
  "amounts xs a = Some v \<Longrightarrow>
     amounts (update_first (\<lambda>x. owner x = a) (\<lambda>x. x\<lparr>amount := f (amount x)\<rparr>) xs)
       = (amounts xs)(a \<mapsto> f v)"
  by (induction xs) (auto simp: fun_eq_iff)

lemma sum_update_first:
  "amounts xs a = Some v \<Longrightarrow>
     sum_amounts (update_first (\<lambda>x. owner x = a) (\<lambda>x. x\<lparr>amount := f (amount x)\<rparr>) xs)
       = sum_amounts xs + f v - v"
  by (induction xs) (auto split: if_splits)

lemma nat_sum_update_first:
  "amounts xs a = Some v \<Longrightarrow>
     nat_sum (update_first (\<lambda>x. owner x = a) (\<lambda>x. x\<lparr>amount := f (amount x)\<rparr>) xs) + unat v
       = nat_sum xs + unat (f v)"
  by (induction xs) (auto split: if_splits)

lemma foldl_keep:
  "a \<notin> owner ` set xs \<Longrightarrow> foldl (\<lambda>r x. if owner x = a then g r x else r) r xs = r"
  by (induction xs) auto

lemma foldl_matching:
  "distinct (map owner xs) \<Longrightarrow>
     foldl (\<lambda>r x. if owner x = a then g r (amount x) else r) r xs
       = (case amounts xs a of None \<Rightarrow> r | Some v \<Rightarrow> g r v)"
proof (induction xs arbitrary: r)
  case (Cons x xs)
  then show ?case
    by (cases "owner x = a") (auto simp: foldl_keep)
qed simp

lemma dropped_amount_eq:
  "ascending owner xs \<Longrightarrow> dropped_amount a xs = amounts xs a"
  using foldl_matching[of xs a "\<lambda>_ v. Some v" None]
  by (simp add: dropped_amount_def ascending_distinct split: option.splits)

lemma amounts_filter:
  "amounts (filter (\<lambda>x. owner x \<noteq> a) xs) = (amounts xs)(a := None)"
  by (rule view_filter_neq)

lemma from_vec_filter:
  "ascending owner xs \<Longrightarrow>
     from_vec bond_cmp (filter (\<lambda>x. owner x \<noteq> a) xs) = filter (\<lambda>x. owner x \<noteq> a) xs"
  by (simp add: bond_order.from_vec_ascending ascending_filter)

lemma sum_amounts_filter:
  "ascending owner xs \<Longrightarrow> amounts xs a = Some v \<Longrightarrow>
     sum_amounts (filter (\<lambda>x. owner x \<noteq> a) xs) = sum_amounts xs - v"
  by (simp add: sum_list_filter_neq ascending_distinct)

lemma nat_sum_filter:
  "ascending owner xs \<Longrightarrow> amounts xs a = Some v \<Longrightarrow>
     nat_sum (filter (\<lambda>x. owner x \<noteq> a) xs) + unat v = nat_sum xs"
  using sum_nat_filter_neq[of owner xs "unat \<circ> amount" a "unat v"]
  by (simp add: ascending_distinct view_comp)

lemma amount_le_nat_sum: "amounts xs a = Some v \<Longrightarrow> unat v \<le> nat_sum xs"
  using view_le_sum_nat[of owner "unat \<circ> amount" xs a "unat v"] by (simp add: view_comp)

subsection \<open>Insertion of a fresh bond\<close>

lemma insert_bond:
  fixes v :: 'b
  assumes "ascending owner xs" "amounts xs a = None"
  defines "ys \<equiv> snd (set_insert bond_cmp \<lparr>owner = a, amount = v\<rparr> xs)"
  shows "ascending owner ys" "amounts ys = (amounts xs)(a \<mapsto> v)"
    "fst (set_insert bond_cmp \<lparr>owner = a, amount = v\<rparr> xs)"
    "length ys = Suc (length xs)"
    "mset ys = add_mset \<lparr>owner = a, amount = v\<rparr> (mset xs)"
proof -
  let ?b = "\<lparr>owner = a, amount = v\<rparr> :: ('a, 'b) bond"
  have none: "amounts xs (owner ?b) = None" using assms(2) by simp
  show "ascending owner ys" unfolding ys_def by (rule bond_order.ascending_set_insert[OF assms(1)])
  show "amounts ys = (amounts xs)(a \<mapsto> v)"
    unfolding ys_def using bond_order.view_set_insert[OF assms(1) none] by simp
  show "fst (set_insert bond_cmp ?b xs)"
    using bond_order.set_insert_fst[OF assms(1), of ?b amount] none by simp
  show m: "mset ys = add_mset ?b (mset xs)"
    unfolding ys_def by (rule bond_order.mset_set_insert[OF assms(1) none])
  from arg_cong[OF m, of size] show "length ys = Suc (length xs)" by simp
qed

lemma sum_list_mset_add:
  "mset ys = add_mset b (mset xs) \<Longrightarrow> sum_list (map f ys) = sum_list (map f xs) + (f b :: 'n::comm_monoid_add)"
  by (metis image_mset_add_mset mset_map sum_mset.add_mset sum_mset_sum_list add.commute)

lemma insert_bond_sum:
  fixes v :: balance
  assumes "ascending owner xs" "amounts xs a = None"
  defines "ys \<equiv> snd (set_insert bond_cmp \<lparr>owner = a, amount = v\<rparr> xs)"
  shows "sum_amounts ys = sum_amounts xs + v" "nat_sum ys = nat_sum xs + unat v"
  using insert_bond(5)[OF assms(1,2), of v]
  by (simp_all add: ys_def sum_list_mset_add)

lemma insert_bond_dup:
  assumes "ascending owner xs" "amounts xs (owner b) = Some v"
  shows "set_insert bond_cmp b xs = (False, xs)"
  using assms by (metis bond_order.set_insert_present option.distinct(1) view_None_iff)

lemma set_insert_cases:
  assumes "ascending owner xs"
  obtains (present) v where "amounts xs (owner b) = Some v" "set_insert bond_cmp b xs = (False, xs)"
  | (absent) "amounts xs (owner b) = None" "fst (set_insert bond_cmp b xs)"
proof (cases "amounts xs (owner b)")
  case None
  then show ?thesis using absent bond_order.set_insert_fst[OF assms, of b amount] by simp
next
  case (Some v)
  then show ?thesis using present insert_bond_dup[OF assms] by blast
qed

lemma remove_bond:
  assumes "ascending owner xs"
  shows "snd (set_remove bond_cmp (from_owner a) xs) = filter (\<lambda>x. owner x \<noteq> a) xs"
    "fst (set_remove bond_cmp (from_owner a) xs) \<longleftrightarrow> amounts xs a \<noteq> None"
  using bond_order.set_remove_eq[OF assms, of "from_owner a"]
  by (simp_all add: from_owner_def view_None_iff)

section \<open>Well-formed validators and nominators\<close>

definition valid_validator :: "'a::linorder Validator \<Rightarrow> bool" where
  "valid_validator v \<longleftrightarrow>
     ascending owner (v_nominators v) \<and> v_total v = v_bond v + sum_amounts (v_nominators v)"

definition valid_nominator :: "'a::linorder Nominator \<Rightarrow> bool" where
  "valid_nominator n \<longleftrightarrow>
     ascending owner (n_nominations n) \<and> n_total n = sum_amounts (n_nominations n)"

lemma valid_validatorD:
  assumes "valid_validator v"
  shows "ascending owner (v_nominators v)" "v_total v = v_bond v + sum_amounts (v_nominators v)"
  using assms by (auto simp: valid_validator_def)

lemma valid_nominatorD:
  assumes "valid_nominator n"
  shows "ascending owner (n_nominations n)" "n_total n = sum_amounts (n_nominations n)"
  using assms by (auto simp: valid_nominator_def)

lemma valid_new_validator: "valid_validator (new_validator a fee b)"
  by (simp add: valid_validator_def new_validator_def new_set_def)

lemma new_nominator_eq:
  "new_nominator c b = \<lparr>n_nominations = [\<lparr>owner = c, amount = b\<rparr>], n_total = b\<rparr>"
  by (simp add: new_nominator_def bond_order.from_vec_ascending)

lemma valid_new_nominator: "valid_nominator (new_nominator c b)"
  by (simp add: valid_nominator_def new_nominator_eq)

lemma valid_status_update [simp]: "valid_validator (v\<lparr>v_state := st\<rparr>) = valid_validator v"
  by (simp add: valid_validator_def)

lemma valid_bond_more: "valid_validator v \<Longrightarrow> valid_validator (bond_more v x)"
  by (simp add: valid_validator_def bond_more_def)

lemma bond_less_Some:
  assumes "bond_less v x = Some (after, v')"
  shows "x < v_bond v" "after = v_bond v - x"
    "v' = v\<lparr>v_bond := v_bond v - x, v_total := v_total v - x\<rparr>"
  using assms by (auto simp: bond_less_def split: if_splits)

lemma valid_bond_less:
  "valid_validator v \<Longrightarrow> bond_less v x = Some (after, v') \<Longrightarrow> valid_validator v'"
  using bond_less_Some[of v x after v'] by (auto simp: valid_validator_def)

lemma rm_nominator_eq:
  assumes "valid_validator v" "amounts (v_nominators v) a = Some x"
  shows "rm_nominator v a = (v_total v - x,
           v\<lparr>v_nominators := filter (\<lambda>b. owner b \<noteq> a) (v_nominators v), v_total := v_total v - x\<rparr>)"
  using assms foldl_matching[of "v_nominators v" a "\<lambda>t x. t - x" "v_total v"]
  by (simp add: rm_nominator_def valid_validator_def from_vec_filter ascending_distinct)

lemma valid_filter_nominators:
  assumes "valid_validator v" "amounts (v_nominators v) a = Some x"
  shows "valid_validator
    (v\<lparr>v_nominators := filter (\<lambda>b. owner b \<noteq> a) (v_nominators v), v_total := v_total v - x\<rparr>)"
  using assms by (simp add: valid_validator_def ascending_filter sum_amounts_filter)

lemma add_nominator_eq:
  "add_nominator v a x = (v_total v + x,
     v\<lparr>v_nominators := snd (set_insert bond_cmp \<lparr>owner = a, amount = x\<rparr> (v_nominators v)),
       v_total := v_total v + x\<rparr>)"
  by (simp add: add_nominator_def)

lemma valid_insert_nominator:
  assumes "valid_validator v" "amounts (v_nominators v) a = None"
  shows "valid_validator
    (v\<lparr>v_nominators := snd (set_insert bond_cmp \<lparr>owner = a, amount = x\<rparr> (v_nominators v)),
       v_total := v_total v + x\<rparr>)"
  using assms insert_bond(1)[of "v_nominators v" a x] insert_bond_sum(1)[of "v_nominators v" a x]
  by (simp add: valid_validator_def)

lemma inc_nominator_eq:
  assumes "amounts (v_nominators v) a = Some x"
  shows "inc_nominator v a y = v\<lparr>v_nominators := update_first (\<lambda>b. owner b = a)
             (\<lambda>b. b\<lparr>amount := amount b + y\<rparr>) (v_nominators v), v_total := v_total v + y\<rparr>"
  using find_owner_Some[OF assms] by (auto simp: inc_nominator_def)

lemma dec_nominator_eq:
  assumes "amounts (v_nominators v) a = Some x"
  shows "dec_nominator v a y = v\<lparr>v_nominators := update_first (\<lambda>b. owner b = a)
             (\<lambda>b. b\<lparr>amount := amount b - y\<rparr>) (v_nominators v), v_total := v_total v - y\<rparr>"
  using find_owner_Some[OF assms] by (auto simp: dec_nominator_def)

lemma valid_inc_nominator:
  assumes "valid_validator v" "amounts (v_nominators v) a = Some x"
  shows "valid_validator (inc_nominator v a y)"
  using assms sum_update_first[OF assms(2), of "\<lambda>z. z + y"]
  by (simp add: inc_nominator_eq[OF assms(2)] valid_validator_def)

lemma valid_dec_nominator:
  assumes "valid_validator v" "amounts (v_nominators v) a = Some x"
  shows "valid_validator (dec_nominator v a y)"
  using assms sum_update_first[OF assms(2), of "\<lambda>z. z - y"]
  by (simp add: dec_nominator_eq[OF assms(2)] valid_validator_def)

lemma add_nomination_eq:
  assumes "valid_nominator n" "amounts (n_nominations n) (owner b) = None"
  shows "add_nomination n b = (True,
    n\<lparr>n_nominations := snd (set_insert bond_cmp b (n_nominations n)), n_total := n_total n + amount b\<rparr>)"
  using bond_order.set_insert_fst[OF valid_nominatorD(1)[OF assms(1)], of b amount] assms(2)
  by (auto simp: add_nomination_def split: prod.splits bool.splits)

lemma add_nomination_dup:
  assumes "valid_nominator n" "amounts (n_nominations n) (owner b) = Some v"
  shows "add_nomination n b = (False, n)"
  using insert_bond_dup[OF valid_nominatorD(1)[OF assms(1)] assms(2)]
  by (simp add: add_nomination_def)

lemma valid_add_nomination:
  assumes "valid_nominator n" "amounts (n_nominations n) c = None"
  shows "valid_nominator (n\<lparr>n_nominations := snd (set_insert bond_cmp \<lparr>owner = c, amount = x\<rparr>
           (n_nominations n)), n_total := n_total n + x\<rparr>)"
  using assms insert_bond(1)[of "n_nominations n" c x] insert_bond_sum(1)[of "n_nominations n" c x]
  by (simp add: valid_nominator_def)

lemma rm_nomination_eq:
  assumes "valid_nominator n"
  shows "rm_nomination n c = (case amounts (n_nominations n) c of None \<Rightarrow> None
     | Some x \<Rightarrow> Some (n_total n - x,
         n\<lparr>n_nominations := filter (\<lambda>b. owner b \<noteq> c) (n_nominations n), n_total := n_total n - x\<rparr>))"
  using assms
  by (simp add: rm_nomination_def valid_nominator_def dropped_amount_eq from_vec_filter split: option.split)

lemma valid_filter_nominations:
  assumes "valid_nominator n" "amounts (n_nominations n) c = Some x"
  shows "valid_nominator
    (n\<lparr>n_nominations := filter (\<lambda>b. owner b \<noteq> c) (n_nominations n), n_total := n_total n - x\<rparr>)"
  using assms by (simp add: valid_nominator_def ascending_filter sum_amounts_filter)

lemma inc_nomination_eq:
  "inc_nomination n c y = (case amounts (n_nominations n) c of None \<Rightarrow> None
     | Some x \<Rightarrow> Some (x + y, n\<lparr>n_nominations := update_first (\<lambda>b. owner b = c)
             (\<lambda>b. b\<lparr>amount := amount b + y\<rparr>) (n_nominations n), n_total := n_total n + y\<rparr>))"
  using find_owner(1)[of c "n_nominations n"] find_owner_Some[of "n_nominations n" c]
  by (fastforce simp: inc_nomination_def split: option.split)

lemma dec_nomination_eq:
  "dec_nomination n c y = (case amounts (n_nominations n) c of None \<Rightarrow> None
     | Some x \<Rightarrow> Some (if y < x then Some (x - y, n\<lparr>n_nominations := update_first (\<lambda>b. owner b = c)
             (\<lambda>b. b\<lparr>amount := amount b - y\<rparr>) (n_nominations n), n_total := n_total n - y\<rparr>) else None))"
  using find_owner(1)[of c "n_nominations n"] find_owner_Some[of "n_nominations n" c]
  by (fastforce simp: dec_nomination_def split: option.split)

lemma valid_update_nominations:
  assumes "valid_nominator n" "amounts (n_nominations n) c = Some x"
  shows "valid_nominator (n\<lparr>n_nominations := update_first (\<lambda>b. owner b = c)
             (\<lambda>b. b\<lparr>amount := f (amount b)\<rparr>) (n_nominations n), n_total := n_total n + f x - x\<rparr>)"
  using assms sum_update_first[OF assms(2), of f]
  by (simp add: valid_nominator_def)

lemma swap_nomination_fresh:
  assumes n: "valid_nominator n" and "amounts (n_nominations n) new = None" and "old \<noteq> new"
    and "amounts (n_nominations n) old = Some x"
  defines "ys \<equiv> snd (set_insert bond_cmp \<lparr>owner = new, amount = x\<rparr>
                      (filter (\<lambda>b. owner b \<noteq> old) (n_nominations n)))"
  shows "swap_nomination n old new = Some ((x, x), n\<lparr>n_nominations := ys\<rparr>)"
    "valid_nominator (n\<lparr>n_nominations := ys\<rparr>)"
    "amounts ys = (amounts (n_nominations n))(old := None, new \<mapsto> x)"
    "nat_sum ys = nat_sum (n_nominations n)"
proof -
  let ?f = "filter (\<lambda>b. owner b \<noteq> old) (n_nominations n)"
  note asc = valid_nominatorD(1)[OF n]
  have f: "ascending owner ?f" "amounts ?f new = None"
    using assms by (auto simp: ascending_filter amounts_filter asc)
  show "swap_nomination n old new = Some ((x, x), n\<lparr>n_nominations := ys\<rparr>)"
    using assms by (simp add: swap_nomination_def dropped_amount_eq asc from_vec_filter ys_def)
  show "valid_nominator (n\<lparr>n_nominations := ys\<rparr>)"
    using insert_bond(1)[OF f, of x] insert_bond_sum(1)[OF f, of x] valid_nominatorD[OF n] assms(4)
    by (simp add: valid_nominator_def ys_def sum_amounts_filter)
  show "amounts ys = (amounts (n_nominations n))(old := None, new \<mapsto> x)"
    using insert_bond(2)[OF f, of x] by (simp add: ys_def amounts_filter)
  show "nat_sum ys = nat_sum (n_nominations n)"
    using insert_bond_sum(2)[OF f, of x] nat_sum_filter[OF asc assms(4)] by (simp add: ys_def)
qed

end
