(* ===== verification/Inflation.thy ===== *)
theory Inflation
  imports Substrate
begin

text \<open>
  \<^verbatim>\<open>src/pallets/stake/src/inflation.rs\<close>: the range of inflation rates and of staking
  expectations, the conversion of an annual range of rates to a range per round, and the range
  of the round issuance. Rust's integer division panics when the divisor is zero, so the
  conversion is partial: \<open>None\<close> is the panic.
\<close>

definition SECONDS_PER_YEAR :: u32 where "SECONDS_PER_YEAR = 31557600"

definition SECONDS_PER_BLOCK :: u32 where "SECONDS_PER_BLOCK = 6"

definition BLOCKS_PER_YEAR :: u32 where "BLOCKS_PER_YEAR = SECONDS_PER_YEAR div SECONDS_PER_BLOCK"

definition checked_div :: "'n::len word \<Rightarrow> 'n word \<Rightarrow> 'n word option" where
  "checked_div a b = (if b = 0 then None else Some (a div b))"

definition rounds_per_year :: "u32 \<Rightarrow> u32 option" where
  "rounds_per_year blocks_per_round = checked_div BLOCKS_PER_YEAR blocks_per_round"

record 'b Range =
  r_min :: 'b
  r_ideal :: 'b
  r_max :: 'b

definition is_valid :: "'b::linorder Range \<Rightarrow> bool" where
  "is_valid r \<longleftrightarrow> r_ideal r \<le> r_max r \<and> r_min r \<le> r_ideal r"

definition range_from :: "'b \<Rightarrow> 'b Range" where
  "range_from x = \<lparr>r_min = x, r_ideal = x, r_max = x\<rparr>"

definition annual_to_round :: "perbill_ops \<Rightarrow> u32 \<Rightarrow> perbill Range \<Rightarrow> perbill Range option" where
  "annual_to_round P blocks_per_round annual =
     (case rounds_per_year blocks_per_round of
        None \<Rightarrow> None
      | Some periods \<Rightarrow>
          (if periods = 0 then None
           else Some \<lparr>r_min = from_parts P (r_min annual div periods),
                      r_ideal = from_parts P (r_ideal annual div periods),
                      r_max = from_parts P (r_max annual div periods)\<rparr>))"

definition round_issuance_range :: "perbill_ops \<Rightarrow> balance \<Rightarrow> perbill Range \<Rightarrow> balance Range" where
  "round_issuance_range P circulating round =
     \<lparr>r_min = perbill_mul P (r_min round) circulating,
      r_ideal = perbill_mul P (r_ideal round) circulating,
      r_max = perbill_mul P (r_max round) circulating\<rparr>"

record InflationInfo =
  expect :: "balance Range"
  round_rates :: "perbill Range"

definition new_inflation_info ::
  "perbill_ops \<Rightarrow> u32 \<Rightarrow> perbill Range \<Rightarrow> balance Range \<Rightarrow> InflationInfo option" where
  "new_inflation_info P blocks_per_round annual e =
     map_option (\<lambda>r. \<lparr>expect = e, round_rates = r\<rparr>) (annual_to_round P blocks_per_round annual)"

definition set_annual_rate ::
  "perbill_ops \<Rightarrow> u32 \<Rightarrow> InflationInfo \<Rightarrow> perbill Range \<Rightarrow> InflationInfo option" where
  "set_annual_rate P blocks_per_round config new =
     map_option (\<lambda>r. config\<lparr>round_rates := r\<rparr>) (annual_to_round P blocks_per_round new)"

definition set_expectations :: "InflationInfo \<Rightarrow> balance Range \<Rightarrow> InflationInfo" where
  "set_expectations config e = config\<lparr>expect := e\<rparr>"

section \<open>Lemmas\<close>

lemma word_div_mono: "a \<le> b \<Longrightarrow> a div c \<le> b div (c :: 'n::len word)"
  by (simp add: word_le_nat_alt unat_div div_le_mono)

lemma annual_to_round_Some:
  assumes "annual_to_round P n annual = Some r"
  obtains periods where "rounds_per_year n = Some periods" "periods \<noteq> 0"
    "r = \<lparr>r_min = from_parts P (r_min annual div periods),
          r_ideal = from_parts P (r_ideal annual div periods),
          r_max = from_parts P (r_max annual div periods)\<rparr>"
  using assms by (auto simp: annual_to_round_def split: option.splits if_splits)

lemma from_parts_div:
  "from_parts_law P \<Longrightarrow> unat a \<le> billion \<Longrightarrow> from_parts P (a div p) = a div p"
  unfolding from_parts_law_def
  by (rule allE, assumption, erule mp) (simp add: unat_div order_trans[OF div_le_dividend])

lemma blocks_per_year: "BLOCKS_PER_YEAR = 5259600"
  by (simp add: BLOCKS_PER_YEAR_def SECONDS_PER_YEAR_def SECONDS_PER_BLOCK_def)

end
