(* ===== verification/Stake_Pallet.thy ===== *)
theory Stake_Pallet
  imports Stake_Types Inflation
begin

text \<open>
  The stake pallet, \<^verbatim>\<open>src/pallets/stake/src/lib.rs\<close> (lines 426 to 1213): its configuration
  trait, storage, events and errors, every dispatchable call, the genesis build, and the hooks
  that the block execution calls.

  A call takes the storage and returns its \<open>DispatchResult\<close> with the storage afterwards. A
  call of this Substrate version is not transactional: what it wrote before it returned an
  error stays written, which is why the storage is returned on the error branches too. \<open>None\<close>
  is a panic.
\<close>

section \<open>Configuration\<close>

datatype StakeError =
    NominatorDNE | CandidateDNE | NominatorExists | CandidateExists | FeeOverMax
  | ValBondBelowMin | NomBondBelowMin | NominationBelowMin | AlreadyOffline | AlreadyActive
  | AlreadyLeaving | TooManyNominators | CannotActivateIfLeaving | ExceedMaxValidatorsPerNom
  | AlreadyNominatedValidator | NominationDNE | Underflow | CannotSwitchToSameNomination
  | InvalidSchedule

datatype DispatchError = Stake StakeError | Foreign dispatch_error

text \<open>
  The associated types and constants of \<open>trait Config\<close>. The first group stands for code
  outside the repository: the origin checks of \<open>frame_system\<close>, the currency, \<open>Perbill\<close>, the
  order in which a storage map is iterated (ascending storage keys, \<open>blake2_128_concat\<close> of the
  account), and the order that \<open>sort_unstable_by\<close> gives to equal amounts.
\<close>

record ('o, 'c, 'a) config =
  ensure_signed :: "'o \<Rightarrow> dispatch_error + 'a"
  SetMonetaryPolicyOrigin :: "'o \<Rightarrow> dispatch_error + unit"
  signed_origin :: "'a \<Rightarrow> 'o"
  Currency :: "('c, 'a) currency"
  PerbillOps :: perbill_ops
  storage_key :: "'a \<Rightarrow> nat"
  sort_unstable_by_amount :: "('a, balance) bond list \<Rightarrow> ('a, balance) bond list"
  BlocksPerRound :: u32
  BondDuration :: round_index
  MaxValidators :: u32
  MaxNominatorsPerValidator :: u32
  MaxValidatorsPerNominator :: u32
  MaxFee :: perbill
  MinValidatorStk :: balance
  MinNomination :: balance
  MinNominatorStk :: balance

section \<open>Events and storage\<close>

datatype 'a Event =
    NewRound u32 round_index u32 balance
  | JoinedValidatorCandidates 'a balance balance
  | ValidatorChosen round_index 'a balance
  | ValidatorBondedMore 'a balance balance
  | ValidatorBondedLess 'a balance balance
  | ValidatorWentOffline round_index 'a
  | ValidatorBackOnline round_index 'a
  | ValidatorScheduledExit round_index 'a round_index
  | ValidatorLeft 'a balance balance
  | NominationIncreased 'a 'a balance balance
  | NominationDecreased 'a 'a balance balance
  | NominationSwapped 'a balance 'a 'a
  | NominatorJoined 'a balance
  | NominatorLeft 'a balance
  | ValidatorNominated 'a balance 'a balance
  | NominatorLeftValidator 'a 'a balance balance
  | Rewarded 'a balance
  | RoundInflationSet perbill perbill perbill
  | StakeExpectationsSet balance balance balance

record ('c, 'a) storage =
  Round :: round_index
  Nominators :: "'a \<rightharpoonup> 'a Nominator"
  Candidates :: "'a \<rightharpoonup> 'a Validator"
  Validators :: "'a list"
  Total :: balance
  CandidatePool :: "('a, balance) bond list"
  ExitQueue :: "('a, round_index) bond list"
  AtStake :: "round_index \<times> 'a \<rightharpoonup> 'a ValidatorSnapshot"
  Staked :: "round_index \<Rightarrow> balance"
  InflationConfig :: InflationInfo
  Points :: "round_index \<Rightarrow> reward_point"
  AwardedPts :: "round_index \<Rightarrow> ('a \<times> reward_point) list"
  Ledger :: 'c
  Events :: "'a Event list"

type_synonym ('c, 'a) dispatch = "(DispatchError + unit) \<times> ('c, 'a) storage"

definition deposit_event :: "'a Event \<Rightarrow> ('c, 'a) storage \<Rightarrow> ('c, 'a) storage" where
  "deposit_event e s = s\<lparr>Events := Events s @ [e]\<rparr>"

definition put_candidate :: "'a \<Rightarrow> 'a Validator \<Rightarrow> ('c, 'a) storage \<Rightarrow> ('c, 'a) storage" where
  "put_candidate a v s = s\<lparr>Candidates := (Candidates s)(a \<mapsto> v)\<rparr>"

definition put_nominator :: "'a \<Rightarrow> 'a Nominator \<Rightarrow> ('c, 'a) storage \<Rightarrow> ('c, 'a) storage" where
  "put_nominator a n s = s\<lparr>Nominators := (Nominators s)(a \<mapsto> n)\<rparr>"

abbreviation err :: "StakeError \<Rightarrow> ('c, 'a) storage \<Rightarrow> ('c, 'a) dispatch" where
  "err e s \<equiv> (Inl (Stake e), s)"

abbreviation ok :: "('c, 'a) storage \<Rightarrow> ('c, 'a) dispatch" where
  "ok s \<equiv> (Inr (), s)"

section \<open>Helpers of the module\<close>

definition is_nominator :: "('c, 'a) storage \<Rightarrow> 'a \<Rightarrow> bool" where
  "is_nominator s acc \<longleftrightarrow> Nominators s acc \<noteq> None"

definition is_candidate :: "('c, 'a) storage \<Rightarrow> 'a \<Rightarrow> bool" where
  "is_candidate s acc \<longleftrightarrow> Candidates s acc \<noteq> None"

definition is_validator :: "('c, 'a::linorder) storage \<Rightarrow> 'a \<Rightarrow> bool" where
  "is_validator s acc \<longleftrightarrow>
     (case binary_search ord_cmp (Validators s) acc of Inr _ \<Rightarrow> True | Inl _ \<Rightarrow> False)"

definition update_active :: "'a::linorder \<Rightarrow> balance \<Rightarrow> ('c, 'a) storage \<Rightarrow> ('c, 'a) storage" where
  "update_active candidate new_total s =
     (let candidates = snd (set_remove bond_cmp (from_owner candidate) (CandidatePool s))
      in s\<lparr>CandidatePool := snd (set_insert bond_cmp \<lparr>owner = candidate, amount = new_total\<rparr> candidates)\<rparr>)"

definition update_if_active :: "'a::linorder \<Rightarrow> 'a Validator \<Rightarrow> balance \<Rightarrow> ('c, 'a) storage \<Rightarrow> ('c, 'a) storage" where
  "update_if_active candidate v new_total s = (if is_active v then update_active candidate new_total s else s)"

definition compute_issuance :: "('o, 'c, 'a) config \<Rightarrow> ('c, 'a) storage \<Rightarrow> balance \<Rightarrow> balance" where
  "compute_issuance T s staked =
     (let config = InflationConfig s;
          round_issuance = round_issuance_range (PerbillOps T)
                             (total_issuance (Currency T) (Ledger s)) (round_rates config)
      in if staked < r_min (expect config) then r_min round_issuance
         else if r_max (expect config) < staked then r_max round_issuance
         else r_ideal round_issuance)"

definition nominator_joins_validator ::
  "('o, 'c, 'a::linorder) config \<Rightarrow> 'a \<Rightarrow> balance \<Rightarrow> 'a \<Rightarrow> ('c, 'a) storage \<Rightarrow> ('c, 'a) dispatch" where
  "nominator_joins_validator T nominator amt validator s =
     (case Candidates s validator of
        None \<Rightarrow> err CandidateDNE s
      | Some state \<Rightarrow>
          (case set_insert bond_cmp \<lparr>owner = nominator, amount = amt\<rparr> (v_nominators state) of
             (False, _) \<Rightarrow> err NominatorExists s
           | (True, noms) \<Rightarrow>
               if \<not> (of_nat (length noms) :: u32) \<le> MaxNominatorsPerValidator T
               then err TooManyNominators s
               else (case reserve (Currency T) (Ledger s) nominator amt of
                       Inl e \<Rightarrow> (Inl (Foreign e), s)
                     | Inr c \<Rightarrow>
                         (let new_total = v_total state + amt;
                              s1 = update_if_active validator state new_total (s\<lparr>Ledger := c\<rparr>);
                              s2 = s1\<lparr>Total := Total s1 + amt\<rparr>;
                              s3 = put_candidate validator
                                     (state\<lparr>v_nominators := noms, v_total := new_total\<rparr>) s2
                          in ok (deposit_event
                               (ValidatorNominated nominator amt validator new_total) s3)))))"

definition nominator_leaves_validator ::
  "('o, 'c, 'a::linorder) config \<Rightarrow> 'a \<Rightarrow> 'a \<Rightarrow> ('c, 'a) storage \<Rightarrow> ('c, 'a) dispatch" where
  "nominator_leaves_validator T nominator validator s =
     (case Candidates s validator of
        None \<Rightarrow> err CandidateDNE s
      | Some state \<Rightarrow>
          (let noms = filter (\<lambda>nom. owner nom \<noteq> nominator) (v_nominators state);
               nominators = from_vec bond_cmp noms
           in case dropped_amount nominator (v_nominators state) of
                None \<Rightarrow> err NominatorDNE s
              | Some nominator_stake \<Rightarrow>
                  (let c = unreserve (Currency T) (Ledger s) nominator nominator_stake;
                       new_total = v_total state - nominator_stake;
                       state' = state\<lparr>v_nominators := nominators, v_total := new_total\<rparr>;
                       s1 = update_if_active validator state' new_total (s\<lparr>Ledger := c\<rparr>);
                       s2 = s1\<lparr>Total := Total s1 - nominator_stake\<rparr>;
                       s3 = put_candidate validator state' s2
                   in ok (deposit_event
                        (NominatorLeftValidator nominator validator nominator_stake new_total) s3))))"

definition nominator_revokes_validator ::
  "('o, 'c, 'a::linorder) config \<Rightarrow> 'a \<Rightarrow> 'a \<Rightarrow> ('c, 'a) storage \<Rightarrow> ('c, 'a) dispatch" where
  "nominator_revokes_validator T acc validator s =
     (case Nominators s acc of
        None \<Rightarrow> err NominatorDNE s
      | Some nominator \<Rightarrow>
          (case rm_nomination nominator validator of
             None \<Rightarrow> err NominationDNE s
           | Some (remaining, nominator') \<Rightarrow>
               if \<not> MinNominatorStk T \<le> remaining then err NomBondBelowMin s
               else (case nominator_leaves_validator T acc validator s of
                       (Inl e, s') \<Rightarrow> (Inl e, s')
                     | (Inr _, s') \<Rightarrow> ok (put_nominator acc nominator' s'))))"

section \<open>Dispatchable calls\<close>

definition set_staking_expectations ::
  "('o, 'c, 'a) config \<Rightarrow> 'o \<Rightarrow> balance Range \<Rightarrow> ('c, 'a) storage \<Rightarrow> ('c, 'a) dispatch" where
  "set_staking_expectations T origin expectations s =
     (case SetMonetaryPolicyOrigin T origin of
        Inl e \<Rightarrow> (Inl (Foreign e), s)
      | Inr _ \<Rightarrow>
          if \<not> is_valid expectations then err InvalidSchedule s
          else (let config = set_expectations (InflationConfig s) expectations;
                    e = expect config;
                    s1 = deposit_event (StakeExpectationsSet (r_min e) (r_ideal e) (r_max e)) s
                in ok (s1\<lparr>InflationConfig := config\<rparr>)))"

definition set_inflation ::
  "('o, 'c, 'a) config \<Rightarrow> 'o \<Rightarrow> perbill Range \<Rightarrow> ('c, 'a) storage \<Rightarrow> ('c, 'a) dispatch option" where
  "set_inflation T origin schedule s =
     (case SetMonetaryPolicyOrigin T origin of
        Inl e \<Rightarrow> Some (Inl (Foreign e), s)
      | Inr _ \<Rightarrow>
          if \<not> is_valid schedule then Some (err InvalidSchedule s)
          else (case set_annual_rate (PerbillOps T) (BlocksPerRound T) (InflationConfig s) schedule of
                  None \<Rightarrow> None
                | Some config \<Rightarrow>
                    (let r = round_rates config;
                         s1 = deposit_event (RoundInflationSet (r_min r) (r_ideal r) (r_max r)) s
                     in Some (ok (s1\<lparr>InflationConfig := config\<rparr>)))))"

definition join_candidates ::
  "('o, 'c, 'a::linorder) config \<Rightarrow> 'o \<Rightarrow> perbill \<Rightarrow> balance \<Rightarrow> ('c, 'a) storage \<Rightarrow> ('c, 'a) dispatch" where
  "join_candidates T origin fee bond s =
     (case ensure_signed T origin of
        Inl e \<Rightarrow> (Inl (Foreign e), s)
      | Inr acc \<Rightarrow>
          if is_candidate s acc then err CandidateExists s
          else if is_nominator s acc then err NominatorExists s
          else if \<not> fee \<le> MaxFee T then err FeeOverMax s
          else if \<not> MinValidatorStk T \<le> bond then err ValBondBelowMin s
          else (case set_insert bond_cmp \<lparr>owner = acc, amount = bond\<rparr> (CandidatePool s) of
                  (False, _) \<Rightarrow> err CandidateExists s
                | (True, candidates) \<Rightarrow>
                    (case reserve (Currency T) (Ledger s) acc bond of
                       Inl e \<Rightarrow> (Inl (Foreign e), s)
                     | Inr c \<Rightarrow>
                         (let candidate = new_validator acc fee bond;
                              new_total = Total s + bond;
                              s1 = s\<lparr>Ledger := c, Total := new_total\<rparr>;
                              s2 = put_candidate acc candidate s1;
                              s3 = s2\<lparr>CandidatePool := candidates\<rparr>
                          in ok (deposit_event (JoinedValidatorCandidates acc bond new_total) s3)))))"

definition leave_candidates ::
  "('o, 'c, 'a::linorder) config \<Rightarrow> 'o \<Rightarrow> ('c, 'a) storage \<Rightarrow> ('c, 'a) dispatch" where
  "leave_candidates T origin s =
     (case ensure_signed T origin of
        Inl e \<Rightarrow> (Inl (Foreign e), s)
      | Inr validator \<Rightarrow>
          (case Candidates s validator of
             None \<Rightarrow> err CandidateDNE s
           | Some state \<Rightarrow>
               if is_leaving state then err AlreadyLeaving s
               else (let now = Round s; when = now + BondDuration T
                     in case set_insert bond_cmp \<lparr>owner = validator, amount = when\<rparr> (ExitQueue s) of
                          (False, _) \<Rightarrow> err AlreadyLeaving s
                        | (True, exits) \<Rightarrow>
                            (let state' = set_leaving state when;
                                 s1 = (case set_remove bond_cmp (from_owner validator) (CandidatePool s) of
                                         (True, candidates) \<Rightarrow> s\<lparr>CandidatePool := candidates\<rparr>
                                       | (False, _) \<Rightarrow> s);
                                 s2 = put_candidate validator state' (s1\<lparr>ExitQueue := exits\<rparr>)
                             in ok (deposit_event (ValidatorScheduledExit now validator when) s2)))))"

definition go_offline ::
  "('o, 'c, 'a::linorder) config \<Rightarrow> 'o \<Rightarrow> ('c, 'a) storage \<Rightarrow> ('c, 'a) dispatch" where
  "go_offline T origin s =
     (case ensure_signed T origin of
        Inl e \<Rightarrow> (Inl (Foreign e), s)
      | Inr validator \<Rightarrow>
          (case Candidates s validator of
             None \<Rightarrow> err CandidateDNE s
           | Some state \<Rightarrow>
               if \<not> is_active state then err AlreadyOffline s
               else (let state' = set_offline state;
                         s1 = (case set_remove bond_cmp (from_owner validator) (CandidatePool s) of
                                 (True, candidates) \<Rightarrow> s\<lparr>CandidatePool := candidates\<rparr>
                               | (False, _) \<Rightarrow> s);
                         s2 = put_candidate validator state' s1
                     in ok (deposit_event (ValidatorWentOffline (Round s) validator) s2))))"

definition go_online ::
  "('o, 'c, 'a::linorder) config \<Rightarrow> 'o \<Rightarrow> ('c, 'a) storage \<Rightarrow> ('c, 'a) dispatch" where
  "go_online T origin s =
     (case ensure_signed T origin of
        Inl e \<Rightarrow> (Inl (Foreign e), s)
      | Inr validator \<Rightarrow>
          (case Candidates s validator of
             None \<Rightarrow> err CandidateDNE s
           | Some state \<Rightarrow>
               if is_active state then err AlreadyActive s
               else if is_leaving state then err CannotActivateIfLeaving s
               else (let state' = set_online state
                     in case set_insert bond_cmp \<lparr>owner = validator, amount = v_total state'\<rparr>
                               (CandidatePool s) of
                          (False, _) \<Rightarrow> err AlreadyActive s
                        | (True, candidates) \<Rightarrow>
                            (let s1 = put_candidate validator state' (s\<lparr>CandidatePool := candidates\<rparr>)
                             in ok (deposit_event (ValidatorBackOnline (Round s) validator) s1)))))"

definition candidate_bond_more ::
  "('o, 'c, 'a::linorder) config \<Rightarrow> 'o \<Rightarrow> balance \<Rightarrow> ('c, 'a) storage \<Rightarrow> ('c, 'a) dispatch" where
  "candidate_bond_more T origin extra s =
     (case ensure_signed T origin of
        Inl e \<Rightarrow> (Inl (Foreign e), s)
      | Inr validator \<Rightarrow>
          (case Candidates s validator of
             None \<Rightarrow> err CandidateDNE s
           | Some state \<Rightarrow>
               if is_leaving state then err CannotActivateIfLeaving s
               else (case reserve (Currency T) (Ledger s) validator extra of
                       Inl e \<Rightarrow> (Inl (Foreign e), s)
                     | Inr c \<Rightarrow>
                         (let before = v_bond state;
                              state' = bond_more state extra;
                              after = v_bond state';
                              s1 = update_if_active validator state' (v_total state') (s\<lparr>Ledger := c\<rparr>);
                              s2 = put_candidate validator state' s1
                          in ok (deposit_event (ValidatorBondedMore validator before after) s2)))))"

definition candidate_bond_less ::
  "('o, 'c, 'a::linorder) config \<Rightarrow> 'o \<Rightarrow> balance \<Rightarrow> ('c, 'a) storage \<Rightarrow> ('c, 'a) dispatch" where
  "candidate_bond_less T origin fewer s =
     (case ensure_signed T origin of
        Inl e \<Rightarrow> (Inl (Foreign e), s)
      | Inr validator \<Rightarrow>
          (case Candidates s validator of
             None \<Rightarrow> err CandidateDNE s
           | Some state \<Rightarrow>
               if is_leaving state then err CannotActivateIfLeaving s
               else (case bond_less state fewer of
                       None \<Rightarrow> err Underflow s
                     | Some (after, state') \<Rightarrow>
                         if \<not> MinValidatorStk T \<le> after then err ValBondBelowMin s
                         else (let before = v_bond state;
                                   c = unreserve (Currency T) (Ledger s) validator fewer;
                                   s1 = update_if_active validator state' (v_total state') (s\<lparr>Ledger := c\<rparr>);
                                   s2 = put_candidate validator state' s1
                               in ok (deposit_event (ValidatorBondedLess validator before after) s2)))))"

definition join_nominators ::
  "('o, 'c, 'a::linorder) config \<Rightarrow> 'o \<Rightarrow> 'a \<Rightarrow> balance \<Rightarrow> ('c, 'a) storage \<Rightarrow> ('c, 'a) dispatch" where
  "join_nominators T origin validator amt s =
     (case ensure_signed T origin of
        Inl e \<Rightarrow> (Inl (Foreign e), s)
      | Inr acc \<Rightarrow>
          if \<not> MinNominatorStk T \<le> amt then err NomBondBelowMin s
          else if is_nominator s acc then err NominatorExists s
          else if is_candidate s acc then err CandidateExists s
          else (case nominator_joins_validator T acc amt validator s of
                  (Inl e, s') \<Rightarrow> (Inl e, s')
                | (Inr _, s') \<Rightarrow>
                    ok (deposit_event (NominatorJoined acc amt)
                          (put_nominator acc (new_nominator validator amt) s'))))"

fun leave_each ::
  "('o, 'c, 'a::linorder) config \<Rightarrow> 'a \<Rightarrow> ('a, balance) bond list \<Rightarrow> ('c, 'a) storage \<Rightarrow> ('c, 'a) dispatch" where
  "leave_each T acc [] s = ok s"
| "leave_each T acc (b # bs) s =
     (case nominator_leaves_validator T acc (owner b) s of
        (Inl e, s') \<Rightarrow> (Inl e, s')
      | (Inr _, s') \<Rightarrow> leave_each T acc bs s')"

definition leave_nominators ::
  "('o, 'c, 'a::linorder) config \<Rightarrow> 'o \<Rightarrow> ('c, 'a) storage \<Rightarrow> ('c, 'a) dispatch" where
  "leave_nominators T origin s =
     (case ensure_signed T origin of
        Inl e \<Rightarrow> (Inl (Foreign e), s)
      | Inr acc \<Rightarrow>
          (case Nominators s acc of
             None \<Rightarrow> err NominatorDNE s
           | Some nominator \<Rightarrow>
               (case leave_each T acc (n_nominations nominator) s of
                  (Inl e, s') \<Rightarrow> (Inl e, s')
                | (Inr _, s') \<Rightarrow>
                    ok (deposit_event (NominatorLeft acc (n_total nominator))
                          (s'\<lparr>Nominators := (Nominators s')(acc := None)\<rparr>)))))"

definition nominate_new ::
  "('o, 'c, 'a::linorder) config \<Rightarrow> 'o \<Rightarrow> 'a \<Rightarrow> balance \<Rightarrow> ('c, 'a) storage \<Rightarrow> ('c, 'a) dispatch" where
  "nominate_new T origin validator amt s =
     (case ensure_signed T origin of
        Inl e \<Rightarrow> (Inl (Foreign e), s)
      | Inr acc \<Rightarrow>
          if \<not> MinNomination T \<le> amt then err NominationBelowMin s
          else (case Nominators s acc of
             None \<Rightarrow> err NominatorDNE s
           | Some nominator \<Rightarrow>
               if \<not> (of_nat (length (n_nominations nominator)) :: u32) < MaxValidatorsPerNominator T
               then err ExceedMaxValidatorsPerNom s
               else (case Candidates s validator of
                  None \<Rightarrow> err CandidateDNE s
                | Some state \<Rightarrow>
                    (case add_nomination nominator \<lparr>owner = validator, amount = amt\<rparr> of
                       (False, _) \<Rightarrow> err AlreadyNominatedValidator s
                     | (True, nominator') \<Rightarrow>
                         if \<not> (of_nat (length (v_nominators state)) :: u32) < MaxNominatorsPerValidator T
                         then err TooManyNominators s
                         else (case set_insert bond_cmp \<lparr>owner = acc, amount = amt\<rparr> (v_nominators state) of
                            (False, _) \<Rightarrow> err NominatorExists s
                          | (True, noms) \<Rightarrow>
                              (case reserve (Currency T) (Ledger s) acc amt of
                                 Inl e \<Rightarrow> (Inl (Foreign e), s)
                               | Inr c \<Rightarrow>
                                   (let new_total = v_total state + amt;
                                        s1 = update_if_active validator state new_total (s\<lparr>Ledger := c\<rparr>);
                                        s2 = s1\<lparr>Total := Total s1 + amt\<rparr>;
                                        s3 = put_candidate validator
                                               (state\<lparr>v_nominators := noms, v_total := new_total\<rparr>) s2;
                                        s4 = put_nominator acc nominator' s3
                                    in ok (deposit_event
                                         (ValidatorNominated acc amt validator new_total) s4))))))))"

definition switch_nomination ::
  "('o, 'c, 'a::linorder) config \<Rightarrow> 'o \<Rightarrow> 'a \<Rightarrow> 'a \<Rightarrow> ('c, 'a) storage \<Rightarrow> ('c, 'a) dispatch" where
  "switch_nomination T origin old new s =
     (case ensure_signed T origin of
        Inl e \<Rightarrow> (Inl (Foreign e), s)
      | Inr acc \<Rightarrow>
          if old = new then err CannotSwitchToSameNomination s
          else (case Nominators s acc of
             None \<Rightarrow> err NominatorDNE s
           | Some nominator \<Rightarrow>
               (case Candidates s old of
                  None \<Rightarrow> err CandidateDNE s
                | Some old_val \<Rightarrow>
                    (case Candidates s new of
                       None \<Rightarrow> err CandidateDNE s
                     | Some new_val \<Rightarrow>
                         (case swap_nomination nominator old new of
                            None \<Rightarrow> err NominationDNE s
                          | Some ((swapped_amt, new_amt), nominator') \<Rightarrow>
                              (let (new_old, old_val') = rm_nominator old_val acc;
                                   (new_new, new_val') =
                                     (if swapped_amt < new_amt
                                      then update_nominator new_val acc new_amt
                                      else add_nominator new_val acc swapped_amt);
                                   s1 = update_if_active old old_val' new_old s;
                                   s2 = update_if_active new new_val' new_new s1;
                                   s3 = put_candidate old old_val' s2;
                                   s4 = put_candidate new new_val' s3;
                                   s5 = put_nominator acc nominator' s4
                               in ok (deposit_event (NominationSwapped acc swapped_amt old new) s5)))))))"

definition revoke_nomination ::
  "('o, 'c, 'a::linorder) config \<Rightarrow> 'o \<Rightarrow> 'a \<Rightarrow> ('c, 'a) storage \<Rightarrow> ('c, 'a) dispatch" where
  "revoke_nomination T origin validator s =
     (case ensure_signed T origin of
        Inl e \<Rightarrow> (Inl (Foreign e), s)
      | Inr acc \<Rightarrow> nominator_revokes_validator T acc validator s)"

definition nominator_bond_more ::
  "('o, 'c, 'a::linorder) config \<Rightarrow> 'o \<Rightarrow> 'a \<Rightarrow> balance \<Rightarrow> ('c, 'a) storage \<Rightarrow> ('c, 'a) dispatch" where
  "nominator_bond_more T origin candidate extra s =
     (case ensure_signed T origin of
        Inl e \<Rightarrow> (Inl (Foreign e), s)
      | Inr nominator \<Rightarrow>
          (case Nominators s nominator of
             None \<Rightarrow> err NominatorDNE s
           | Some nominations \<Rightarrow>
               (case Candidates s candidate of
                  None \<Rightarrow> err CandidateDNE s
                | Some validator \<Rightarrow>
                    (case inc_nomination nominations candidate extra of
                       None \<Rightarrow> err NominationDNE s
                     | Some (_, nominations') \<Rightarrow>
                         (case reserve (Currency T) (Ledger s) nominator extra of
                            Inl e \<Rightarrow> (Inl (Foreign e), s)
                          | Inr c \<Rightarrow>
                              (let before = v_total validator;
                                   validator' = inc_nominator validator nominator extra;
                                   after = v_total validator';
                                   s1 = update_if_active candidate validator' after (s\<lparr>Ledger := c\<rparr>);
                                   s2 = put_candidate candidate validator' s1;
                                   s3 = put_nominator nominator nominations' s2
                               in ok (deposit_event
                                    (NominationIncreased nominator candidate before after) s3)))))))"

definition nominator_bond_less ::
  "('o, 'c, 'a::linorder) config \<Rightarrow> 'o \<Rightarrow> 'a \<Rightarrow> balance \<Rightarrow> ('c, 'a) storage \<Rightarrow> ('c, 'a) dispatch" where
  "nominator_bond_less T origin candidate fewer s =
     (case ensure_signed T origin of
        Inl e \<Rightarrow> (Inl (Foreign e), s)
      | Inr nominator \<Rightarrow>
          (case Nominators s nominator of
             None \<Rightarrow> err NominatorDNE s
           | Some nominations \<Rightarrow>
               (case Candidates s candidate of
                  None \<Rightarrow> err CandidateDNE s
                | Some validator \<Rightarrow>
                    (case dec_nomination nominations candidate fewer of
                       None \<Rightarrow> err NominationDNE s
                     | Some None \<Rightarrow> err Underflow s
                     | Some (Some (remaining, nominations')) \<Rightarrow>
                         if \<not> MinNomination T \<le> remaining then err NominationBelowMin s
                         else if \<not> MinNominatorStk T \<le> n_total nominations' then err NomBondBelowMin s
                         else (let c = unreserve (Currency T) (Ledger s) nominator fewer;
                                   before = v_total validator;
                                   validator' = dec_nominator validator nominator fewer;
                                   after = v_total validator';
                                   s1 = update_if_active candidate validator' after (s\<lparr>Ledger := c\<rparr>);
                                   s2 = put_candidate candidate validator' s1;
                                   s3 = put_nominator nominator nominations' s2
                               in ok (deposit_event
                                    (NominationDecreased nominator candidate before after) s3))))))"

end
