(* ===== verification/Stake_Rounds.thy ===== *)
theory Stake_Rounds
  imports Stake_Pallet "HOL-Library.AList"
begin

text \<open>
  The work the stake pallet does at the end of a round and for every block author:
  \<open>pay_stakers\<close>, \<open>execute_delayed_validator_exits\<close>, \<open>best_candidates_become_validators\<close>, the
  \<open>on_finalize\<close> hook that runs them, \<open>note_author\<close>, \<open>can_author\<close> and the genesis build
  (\<^verbatim>\<open>src/pallets/stake/src/lib.rs\<close>, lines 558 to 592, 940 to 956 and 1079 to 1213).

  \<open>None\<close> is a panic of the runtime: a division by zero, a failed \<open>assert!\<close> or \<open>expect\<close>.
\<close>

section \<open>Rewards\<close>

definition mint :: "('o, 'c, 'a) config \<Rightarrow> balance \<Rightarrow> 'a \<Rightarrow> ('c, 'a) storage \<Rightarrow> ('c, 'a) storage" where
  "mint T amt to s =
     (if minimum_balance (Currency T) < amt
      then (case deposit_into_existing (Currency T) (Ledger s) to amt of
              Inr (c, imb) \<Rightarrow> deposit_event (Rewarded to imb) (s\<lparr>Ledger := c\<rparr>)
            | Inl _ \<Rightarrow> s)
      else s)"

fun pay_nominators ::
  "('o, 'c, 'a) config \<Rightarrow> balance \<Rightarrow> balance \<Rightarrow> ('a, balance) bond list \<Rightarrow> ('c, 'a) storage \<Rightarrow> ('c, 'a) storage" where
  "pay_nominators T total_stake amt_due [] s = s"
| "pay_nominators T total_stake amt_due (b # bs) s =
     (let percent = from_rational_u128 (PerbillOps T) (amount b) total_stake;
          due = perbill_mul (PerbillOps T) percent amt_due
      in pay_nominators T total_stake amt_due bs (mint T due (owner b) s))"

definition take_at_stake ::
  "round_index \<Rightarrow> 'a \<Rightarrow> ('c, 'a) storage \<Rightarrow> 'a ValidatorSnapshot \<times> ('c, 'a) storage" where
  "take_at_stake round val s =
     (case AtStake s (round, val) of None \<Rightarrow> snapshot_default | Some x \<Rightarrow> x,
      s\<lparr>AtStake := (AtStake s)((round, val) := None)\<rparr>)"

definition pay_validator ::
  "('o, 'c, 'a) config \<Rightarrow> round_index \<Rightarrow> reward_point \<Rightarrow> balance \<Rightarrow> 'a \<times> reward_point
     \<Rightarrow> ('c, 'a) storage \<Rightarrow> ('c, 'a) storage" where
  "pay_validator T round total_pts issuance entry s =
     (let (val, pts) = entry;
          pct_due = from_rational_u32 (PerbillOps T) pts total_pts;
          amt_due = perbill_mul (PerbillOps T) pct_due issuance
      in if amt_due \<le> minimum_balance (Currency T) then s
         else (let (state, s1) = take_at_stake round val s
               in if s_nominators state = [] then mint T amt_due val s1
                  else (let val_pct = from_rational_u128 (PerbillOps T) (s_bond state) (s_total state);
                            commission = perbill_mul (PerbillOps T) (s_fee state) amt_due;
                            (val_due, amt_due') =
                              (if minimum_balance (Currency T) < commission
                               then (perbill_mul (PerbillOps T) val_pct (amt_due - commission) + commission,
                                     amt_due - commission)
                               else (perbill_mul (PerbillOps T) val_pct amt_due, amt_due))
                        in pay_nominators T (s_total state) amt_due' (s_nominators state)
                             (mint T val_due val s1))))"

definition pay_stakers ::
  "('o, 'c, 'a) config \<Rightarrow> round_index \<Rightarrow> ('c, 'a) storage \<Rightarrow> ('c, 'a) storage" where
  "pay_stakers T next s =
     (let duration = BondDuration T
      in if duration < next
         then (let round_to_payout = next - duration;
                   total_pts = Points s round_to_payout;
                   total_staked = Staked s round_to_payout;
                   issuance = compute_issuance T s total_staked;
                   entries = sort_key (\<lambda>e. storage_key T (fst e)) (AwardedPts s round_to_payout);
                   s1 = s\<lparr>AwardedPts := (AwardedPts s)(round_to_payout := [])\<rparr>
               in fold (pay_validator T round_to_payout total_pts issuance) entries s1)
         else s)"

section \<open>Delayed exits\<close>

fun release_nominations ::
  "('o, 'c, 'a::linorder) config \<Rightarrow> 'a \<Rightarrow> ('a, balance) bond list \<Rightarrow> ('c, 'a) storage \<Rightarrow> ('c, 'a) storage" where
  "release_nominations T validator [] s = s"
| "release_nominations T validator (b # bs) s =
     (let s1 = s\<lparr>Ledger := unreserve (Currency T) (Ledger s) (owner b) (amount b)\<rparr>;
          s2 = (case Nominators s1 (owner b) of
                  None \<Rightarrow> s1
                | Some nominator \<Rightarrow>
                    (case rm_nomination nominator validator of
                       None \<Rightarrow> s1
                     | Some (remaining, nominator') \<Rightarrow>
                         if remaining = 0 then s1\<lparr>Nominators := (Nominators s1)(owner b := None)\<rparr>
                         else put_nominator (owner b) nominator' s1))
      in release_nominations T validator bs s2)"

definition exit_candidate ::
  "('o, 'c, 'a::linorder) config \<Rightarrow> 'a \<Rightarrow> ('c, 'a) storage \<Rightarrow> ('c, 'a) storage" where
  "exit_candidate T validator s =
     (case Candidates s validator of
        None \<Rightarrow> s
      | Some state \<Rightarrow>
          (let s1 = release_nominations T validator (v_nominators state) s;
               s2 = s1\<lparr>Ledger := unreserve (Currency T) (Ledger s1) (v_id state) (v_bond state)\<rparr>;
               new_total = Total s2 - v_total state;
               s3 = s2\<lparr>Total := new_total, Candidates := (Candidates s2)(validator := None)\<rparr>
           in deposit_event (ValidatorLeft validator (v_total state) new_total) s3))"

fun run_exits ::
  "('o, 'c, 'a::linorder) config \<Rightarrow> round_index \<Rightarrow> ('a, round_index) bond list \<Rightarrow> ('c, 'a) storage
     \<Rightarrow> ('a, round_index) bond list \<times> ('c, 'a) storage" where
  "run_exits T next [] s = ([], s)"
| "run_exits T next (x # xs) s =
     (if next < amount x
      then (let (rest, s') = run_exits T next xs s in (x # rest, s'))
      else run_exits T next xs (exit_candidate T (owner x) s))"

definition execute_delayed_validator_exits ::
  "('o, 'c, 'a::linorder) config \<Rightarrow> round_index \<Rightarrow> ('c, 'a) storage \<Rightarrow> ('c, 'a) storage" where
  "execute_delayed_validator_exits T next s =
     (let (remain_exits, s1) = run_exits T next (ExitQueue s) s
      in s1\<lparr>ExitQueue := from_vec bond_cmp remain_exits\<rparr>)"

section \<open>Selection of the validators\<close>

fun snapshot_each ::
  "round_index \<Rightarrow> 'a list \<Rightarrow> u32 \<times> balance \<Rightarrow> ('c, 'a) storage \<Rightarrow> ((u32 \<times> balance) \<times> ('c, 'a) storage) option" where
  "snapshot_each next [] acc s = Some (acc, s)"
| "snapshot_each next (a # as) (n, total_amt) s =
     (case Candidates s a of
        None \<Rightarrow> None
      | Some state \<Rightarrow>
          (let amt = v_total state;
               s1 = s\<lparr>AtStake := (AtStake s)((next, a) \<mapsto> to_snapshot state)\<rparr>
           in snapshot_each next as (n + 1, total_amt + amt)
                (deposit_event (ValidatorChosen next a amt) s1)))"

definition top_candidates :: "('o, 'c, 'a) config \<Rightarrow> ('c, 'a) storage \<Rightarrow> 'a list" where
  "top_candidates T s =
     map owner (take (unat (MaxValidators T)) (rev (sort_unstable_by_amount T (CandidatePool s))))"

definition best_candidates_become_validators ::
  "('o, 'c, 'a::linorder) config \<Rightarrow> round_index \<Rightarrow> ('c, 'a) storage
     \<Rightarrow> ((u32 \<times> balance) \<times> ('c, 'a) storage) option" where
  "best_candidates_become_validators T next s =
     (let validators = top_candidates T s
      in case snapshot_each next validators (0, 0) s of
           None \<Rightarrow> None
         | Some (result, s1) \<Rightarrow> Some (result, s1\<lparr>Validators := sort_vec ord_cmp validators\<rparr>))"

section \<open>Hooks\<close>

definition next_round ::
  "('o, 'c, 'a::linorder) config \<Rightarrow> u32 \<Rightarrow> ('c, 'a) storage \<Rightarrow> ('c, 'a) storage option" where
  "next_round T n s =
     (let next = Round s + 1;
          s1 = pay_stakers T next s;
          s2 = execute_delayed_validator_exits T next s1
      in case best_candidates_become_validators T next s2 of
           None \<Rightarrow> None
         | Some ((validator_count, total_staked), s3) \<Rightarrow>
             (let s4 = s3\<lparr>Round := next, Staked := (Staked s3)(next := Total s3)\<rparr>
              in Some (deposit_event (NewRound n next validator_count total_staked) s4)))"

definition on_finalize ::
  "('o, 'c, 'a::linorder) config \<Rightarrow> u32 \<Rightarrow> ('c, 'a) storage \<Rightarrow> ('c, 'a) storage option" where
  "on_finalize T n s =
     (if BlocksPerRound T = 0 then None
      else if n mod BlocksPerRound T = 0 then next_round T n s
      else Some s)"

definition awarded_pts :: "('c, 'a) storage \<Rightarrow> round_index \<Rightarrow> 'a \<Rightarrow> reward_point" where
  "awarded_pts s round author = (case map_of (AwardedPts s round) author of None \<Rightarrow> 0 | Some p \<Rightarrow> p)"

definition note_author :: "'a \<Rightarrow> ('c, 'a) storage \<Rightarrow> ('c, 'a) storage" where
  "note_author author s =
     (let now = Round s;
          score_plus_20 = awarded_pts s now author + 20
      in s\<lparr>AwardedPts := (AwardedPts s)(now := AList.update author score_plus_20 (AwardedPts s now)),
           Points := (Points s)(now := Points s now + 20)\<rparr>)"

definition can_author :: "('c, 'a::linorder) storage \<Rightarrow> 'a \<Rightarrow> bool" where
  "can_author s account = is_validator s account"

section \<open>Genesis\<close>

fun genesis_stakers ::
  "('o, 'c, 'a::linorder) config \<Rightarrow> ('a \<times> 'a option \<times> balance) list \<Rightarrow> ('c, 'a) storage
     \<Rightarrow> ('c, 'a) storage option" where
  "genesis_stakers T [] s = Some s"
| "genesis_stakers T ((actor, opt_val, bal) # rest) s =
     (if \<not> bal \<le> free_balance (Currency T) (Ledger s) actor then None
      else genesis_stakers T rest
        (snd (case opt_val of
                Some nominated_val \<Rightarrow> join_nominators T (signed_origin T actor) nominated_val bal s
              | None \<Rightarrow> join_candidates T (signed_origin T actor) 0 bal s)))"

definition genesis_build ::
  "('o, 'c, 'a::linorder) config \<Rightarrow> ('a \<times> 'a option \<times> balance) list \<Rightarrow> ('c, 'a) storage
     \<Rightarrow> ('c, 'a) storage option" where
  "genesis_build T stakers s =
     (case genesis_stakers T stakers s of
        None \<Rightarrow> None
      | Some s1 \<Rightarrow>
          (case best_candidates_become_validators T 1 s1 of
             None \<Rightarrow> None
           | Some ((v_count, total_staked), s2) \<Rightarrow>
               (let s3 = s2\<lparr>Round := 1, Staked := (Staked s2)(1 := Total s2)\<rparr>
                in Some (deposit_event (NewRound 0 1 v_count total_staked) s3))))"

definition initial_storage :: "InflationInfo \<Rightarrow> 'c \<Rightarrow> ('c, 'a) storage" where
  "initial_storage info c =
     \<lparr>Round = 0, Nominators = Map.empty, Candidates = Map.empty, Validators = [], Total = 0,
      CandidatePool = [], ExitQueue = [], AtStake = Map.empty, Staked = (\<lambda>_. 0),
      InflationConfig = info, Points = (\<lambda>_. 0), AwardedPts = (\<lambda>_. []), Ledger = c, Events = []\<rparr>"

end
