(* ===== verification/Stake_Invariant.thy ===== *)
theory Stake_Invariant
  imports Stake_Rounds
begin

text \<open>
  The invariant of the stake pallet's storage and the lemmas that say how one change to a
  candidate, a nomination or the pool keeps it.

  \<open>well_linked\<close> relates the four collections of the pallet: every candidate and every nominator
  record is well-formed, the nominations recorded with a nominator are exactly the nominations
  recorded with the candidates, the candidate pool holds exactly the active candidates with
  their total stake, and the exit queue exactly the leaving ones with their exit round.
  \<open>solvent\<close> relates them to the currency: what is reserved for an account is what it has staked
  plus what other pallets reserve. \<open>positive\<close> says that no recorded nomination is empty.

  The predicates are stated over the single collections, so that they also describe the moments
  inside a loop when one record is ahead of the storage.
\<close>

section \<open>The invariant\<close>

definition backing :: "('a \<rightharpoonup> 'a Validator) \<Rightarrow> 'a \<Rightarrow> ('a \<rightharpoonup> balance)" where
  "backing C c = (case C c of None \<Rightarrow> Map.empty | Some v \<Rightarrow> amounts (v_nominators v))"

definition nominated :: "('a \<rightharpoonup> 'a Nominator) \<Rightarrow> 'a \<Rightarrow> ('a \<rightharpoonup> balance)" where
  "nominated N n = (case N n of None \<Rightarrow> Map.empty | Some m \<Rightarrow> amounts (n_nominations m))"

definition pool_entry :: "'a Validator \<Rightarrow> balance option" where
  "pool_entry v = (if is_active v then Some (v_total v) else None)"

definition exit_entry :: "'a Validator \<Rightarrow> round_index option" where
  "exit_entry v = (case v_state v of Leaving r \<Rightarrow> Some r | _ \<Rightarrow> None)"

definition well_linked ::
  "('a::linorder \<rightharpoonup> 'a Validator) \<Rightarrow> ('a \<rightharpoonup> 'a Nominator) \<Rightarrow> ('a, balance) bond list
     \<Rightarrow> ('a, round_index) bond list \<Rightarrow> bool" where
  "well_linked C N P E \<longleftrightarrow>
     (\<forall>c v. C c = Some v \<longrightarrow> valid_validator v \<and> v_id v = c) \<and>
     (\<forall>n m. N n = Some m \<longrightarrow> valid_nominator m) \<and>
     (\<forall>c n. backing C c n = nominated N n c) \<and>
     ascending owner P \<and> (\<forall>c. amounts P c = Option.bind (C c) pool_entry) \<and>
     ascending owner E \<and> (\<forall>c. amounts E c = Option.bind (C c) exit_entry)"

definition staked_by :: "('a \<rightharpoonup> 'a Validator) \<Rightarrow> ('a \<rightharpoonup> 'a Nominator) \<Rightarrow> 'a \<Rightarrow> nat" where
  "staked_by C N a =
     (case C a of None \<Rightarrow> 0 | Some v \<Rightarrow> unat (v_bond v)) +
     (case N a of None \<Rightarrow> 0 | Some m \<Rightarrow> nat_sum (n_nominations m))"

definition covers ::
  "('c, 'a) currency \<Rightarrow> ('a \<Rightarrow> nat) \<Rightarrow> ('a \<rightharpoonup> 'a Validator) \<Rightarrow> ('a \<rightharpoonup> 'a Nominator) \<Rightarrow> 'c \<Rightarrow> bool" where
  "covers cur other C N c \<longleftrightarrow> (\<forall>a. unat (reserved_balance cur c a) = other a + staked_by C N a)"

definition positive_in :: "('a \<rightharpoonup> 'a Nominator) \<Rightarrow> bool" where
  "positive_in N \<longleftrightarrow> (\<forall>n c x. nominated N n c = Some x \<longrightarrow> x \<noteq> 0)"

definition linked :: "('c, 'a::linorder) storage \<Rightarrow> bool" where
  "linked s \<longleftrightarrow> well_linked (Candidates s) (Nominators s) (CandidatePool s) (ExitQueue s)"

definition solvent :: "('o, 'c, 'a) config \<Rightarrow> ('a \<Rightarrow> nat) \<Rightarrow> ('c, 'a) storage \<Rightarrow> bool" where
  "solvent T other s \<longleftrightarrow> covers (Currency T) other (Candidates s) (Nominators s) (Ledger s)"

definition positive :: "('c, 'a) storage \<Rightarrow> bool" where
  "positive s \<longleftrightarrow> positive_in (Nominators s)"

definition stake_inv :: "('o, 'c, 'a::linorder) config \<Rightarrow> ('a \<Rightarrow> nat) \<Rightarrow> ('c, 'a) storage \<Rightarrow> bool" where
  "stake_inv T other s \<longleftrightarrow> linked s \<and> solvent T other s \<and> positive s"

text \<open>The assumptions on the configuration: the currency keeps its documented contract and the
  minimal stakes are not zero.\<close>

definition config_ok :: "('o, 'c, 'a) config \<Rightarrow> bool" where
  "config_ok T \<longleftrightarrow> currency_laws (Currency T) \<and> MinNomination T \<noteq> 0 \<and> MinNominatorStk T \<noteq> 0"

section \<open>Consequences of the invariant\<close>

lemma well_linkedD:
  assumes "well_linked C N P E"
  shows "C c = Some v \<Longrightarrow> valid_validator v" "C c = Some v \<Longrightarrow> v_id v = c"
    "N n = Some m \<Longrightarrow> valid_nominator m" "backing C c n = nominated N n c"
    "ascending owner P" "amounts P c = Option.bind (C c) pool_entry"
    "ascending owner E" "amounts E c = Option.bind (C c) exit_entry"
  using assms by (auto simp: well_linked_def)

lemma edge_symmetric:
  assumes "well_linked C N P E" "C c = Some v" "N n = Some m"
  shows "amounts (v_nominators v) n = amounts (n_nominations m) c"
  using well_linkedD(4)[OF assms(1), of c n] assms(2,3) by (simp add: backing_def nominated_def)

lemma no_nominator_no_backing:
  "well_linked C N P E \<Longrightarrow> C c = Some v \<Longrightarrow> N n = None \<Longrightarrow> amounts (v_nominators v) n = None"
  using well_linkedD(4)[of C N P E c n] by (simp add: backing_def nominated_def)

lemma no_candidate_no_nomination:
  "well_linked C N P E \<Longrightarrow> C c = None \<Longrightarrow> N n = Some m \<Longrightarrow> amounts (n_nominations m) c = None"
  using well_linkedD(4)[of C N P E c n] by (simp add: backing_def nominated_def)

lemma covers_stake_le:
  assumes "covers cur other C N c" "N a = Some m"
  shows "nat_sum (n_nominations m) < 2 ^ 128"
proof -
  have "nat_sum (n_nominations m) \<le> unat (reserved_balance cur c a)"
    using assms by (simp add: covers_def staked_by_def)
  also have "\<dots> < 2 ^ 128" using unsigned_less[of "reserved_balance cur c a"] by simp
  finally show ?thesis .
qed

section \<open>The candidate pool\<close>

definition activated :: "'a::linorder \<Rightarrow> 'a Validator \<Rightarrow> balance \<Rightarrow> ('a, balance) bond list \<Rightarrow> ('a, balance) bond list" where
  "activated c v t P =
     (if is_active v
      then snd (set_insert bond_cmp \<lparr>owner = c, amount = t\<rparr>
             (snd (set_remove bond_cmp (from_owner c) P)))
      else P)"

lemma update_if_active_eq:
  "update_if_active c v t s = s\<lparr>CandidatePool := activated c v t (CandidatePool s)\<rparr>"
  by (simp add: update_if_active_def update_active_def activated_def)

lemma activated_ascending: "ascending owner P \<Longrightarrow> ascending owner (activated c v t P)"
  by (simp add: activated_def bond_order.ascending_set_insert bond_order.ascending_set_remove)

lemma activated_amounts:
  assumes "ascending owner P" "\<not> is_active v \<Longrightarrow> amounts P c = None"
  shows "amounts (activated c v (v_total v) P) = (amounts P)(c := pool_entry v)"
proof (cases "is_active v")
  case True
  let ?Q = "filter (\<lambda>x. owner x \<noteq> c) P"
  have "ascending owner ?Q" "amounts ?Q c = None"
    using assms by (auto simp: ascending_filter amounts_filter)
  from insert_bond(2)[OF this, of "v_total v"] True show ?thesis
    using assms by (simp add: activated_def remove_bond(1) amounts_filter pool_entry_def)
next
  case False
  with assms show ?thesis by (auto simp: activated_def pool_entry_def fun_eq_iff)
qed

section \<open>Changing one candidate\<close>

lemma well_linked_candidate:
  assumes w: "well_linked C N P E"
    and v': "valid_validator v'" "v_id v' = c" "amounts (v_nominators v') = backing C c"
    and P': "ascending owner P'" "amounts P' = (amounts P)(c := pool_entry v')"
    and E': "ascending owner E'" "amounts E' = (amounts E)(c := exit_entry v')"
  shows "well_linked (C(c \<mapsto> v')) N P' E'"
proof -
  have "backing (C(c \<mapsto> v')) d n = nominated N n d" for d n
    using well_linkedD(4)[OF w, of d n] v'(3) by (auto simp: backing_def)
  with assms show ?thesis by (auto simp: well_linked_def)
qed

lemma well_linked_candidate_same_status:
  assumes w: "well_linked C N P E" and v: "C c = Some v"
    and v': "valid_validator v'" "v_id v' = v_id v" "v_nominators v' = v_nominators v"
      "v_state v' = v_state v"
  shows "well_linked (C(c \<mapsto> v')) N (activated c v' (v_total v') P) E"
proof (rule well_linked_candidate[OF w v'(1)])
  note D = well_linkedD[OF w]
  show "v_id v' = c" using D(2)[OF v] v'(2) by simp
  show "amounts (v_nominators v') = backing C c" using v v'(3) by (simp add: backing_def)
  show "ascending owner (activated c v' (v_total v') P)" by (rule activated_ascending[OF D(5)])
  show "amounts (activated c v' (v_total v') P) = (amounts P)(c := pool_entry v')"
    using D(6)[of c] v v'(4) by (intro activated_amounts D(5)) (auto simp: pool_entry_def is_active_def)
  show "ascending owner E" by (rule D(7))
  show "amounts E = (amounts E)(c := exit_entry v')"
    using D(8)[of c] v v'(4) by (auto simp: exit_entry_def fun_eq_iff)
qed

section \<open>Changing one nomination\<close>

lemma well_linked_edge:
  assumes w: "well_linked C N P E" and v: "C c = Some v"
    and v': "valid_validator v'" "v_id v' = v_id v" "v_state v' = v_state v"
      "amounts (v_nominators v') = (amounts (v_nominators v))(n := x)"
    and m': "valid_nominator m'" "amounts (n_nominations m') = (nominated N n)(c := x)"
  shows "well_linked (C(c \<mapsto> v')) (N(n \<mapsto> m')) (activated c v' (v_total v') P) E"
proof -
  note D = well_linkedD[OF w]
  have edges: "backing (C(c \<mapsto> v')) d k = nominated (N(n \<mapsto> m')) k d" for d k
    using D(4)[of d k] D(4)[of c k] v v'(4) m'(2) by (auto simp: backing_def nominated_def)
  have pool: "amounts (activated c v' (v_total v') P) = (amounts P)(c := pool_entry v')"
    using D(6)[of c] v v'(3) by (intro activated_amounts D(5)) (auto simp: pool_entry_def is_active_def)
  have "amounts E d = Option.bind ((C(c \<mapsto> v')) d) exit_entry" for d
    using D(8)[of d] v v'(3) by (auto simp: exit_entry_def)
  with D edges pool v' v m' show ?thesis
    unfolding well_linked_def by (auto simp: activated_ascending[OF D(5)])
qed

section \<open>Moving stake in the currency\<close>

lemma covers_reserve:
  assumes "reserve_law cur" "covers cur other C N c" "reserve cur c a v = Inr c'"
    and "staked_by C' N' a = staked_by C N a + unat v"
    and "\<And>b. b \<noteq> a \<Longrightarrow> staked_by C' N' b = staked_by C N b"
  shows "covers cur other C' N' c'"
  unfolding covers_def
proof
  fix b
  have "unat (reserved_balance cur c' a) = unat (reserved_balance cur c a) + unat v"
    "b \<noteq> a \<Longrightarrow> reserved_balance cur c' b = reserved_balance cur c b"
    using assms(1,3) by (auto simp: reserve_law_def)
  with assms(2,4,5) show "unat (reserved_balance cur c' b) = other b + staked_by C' N' b"
    by (cases "b = a") (auto simp: covers_def)
qed

lemma covers_unreserve:
  assumes "unreserve_law cur" "covers cur other C N c"
    and "staked_by C N a = staked_by C' N' a + unat v"
    and "\<And>b. b \<noteq> a \<Longrightarrow> staked_by C' N' b = staked_by C N b"
  shows "covers cur other C' N' (unreserve cur c a v)"
  unfolding covers_def
proof
  fix b
  have "unat (reserved_balance cur (unreserve cur c a v) a) = unat (reserved_balance cur c a) - unat v"
    "b \<noteq> a \<Longrightarrow> reserved_balance cur (unreserve cur c a v) b = reserved_balance cur c b"
    using assms(1) by (auto simp: unreserve_law_def)
  with assms(2-4) show "unat (reserved_balance cur (unreserve cur c a v) b) = other b + staked_by C' N' b"
    by (cases "b = a") (auto simp: covers_def)
qed

lemma covers_cong:
  "covers cur other C N c \<Longrightarrow> (\<And>b. staked_by C' N' b = staked_by C N b) \<Longrightarrow> covers cur other C' N' c"
  by (simp add: covers_def)

lemma positive_update:
  assumes "positive_in N" "\<And>d x. amounts (n_nominations m') d = Some x \<Longrightarrow> x \<noteq> 0"
  shows "positive_in (N(n \<mapsto> m'))"
  using assms by (auto simp: positive_in_def nominated_def)

lemma positive_remove: "positive_in N \<Longrightarrow> positive_in (N(n := None))"
  by (auto simp: positive_in_def nominated_def)

lemma positiveD: "positive_in N \<Longrightarrow> N n = Some m \<Longrightarrow> amounts (n_nominations m) c = Some x \<Longrightarrow> x \<noteq> 0"
  unfolding positive_in_def nominated_def by (metis option.simps(5))

text \<open>Reserving more of what is already staked does not wrap around.\<close>

lemma reserve_no_wrap:
  assumes "reserve_law cur" "covers cur other C N c" "reserve cur c a v = Inr c'"
    and "unat w \<le> staked_by C N a"
  shows "unat (w + v) = unat w + unat v"
proof -
  have "unat w + unat v \<le> unat (reserved_balance cur c a) + unat v"
    using assms(2,4) by (simp add: covers_def)
  also have "\<dots> = unat (reserved_balance cur c' a)"
    using assms(1,3) by (simp add: reserve_law_def)
  also have "\<dots> < 2 ^ 128" using unsigned_less[of "reserved_balance cur c' a"] by simp
  finally show ?thesis by (simp add: unat_plus_exact)
qed

end
