(* ===== verification/Stake_Calls.thy ===== *)
theory Stake_Calls
  imports Stake_Invariant
begin

text \<open>
  What each dispatchable call of the stake pallet does: one case lemma per call that lists its
  outcomes (a failure that leaves the storage alone, or the success with the conditions it was
  reached under and the storage it writes), and the proof that the call keeps the invariant.
\<close>

lemma put_candidate_sel [simp]:
  "Candidates (put_candidate a v s) = (Candidates s)(a \<mapsto> v)"
  "Nominators (put_candidate a v s) = Nominators s"
  "CandidatePool (put_candidate a v s) = CandidatePool s"
  "ExitQueue (put_candidate a v s) = ExitQueue s"
  "Ledger (put_candidate a v s) = Ledger s"
  "Total (put_candidate a v s) = Total s"
  "Round (put_candidate a v s) = Round s"
  by (simp_all add: put_candidate_def)

lemma put_nominator_sel [simp]:
  "Candidates (put_nominator a n s) = Candidates s"
  "Nominators (put_nominator a n s) = (Nominators s)(a \<mapsto> n)"
  "CandidatePool (put_nominator a n s) = CandidatePool s"
  "ExitQueue (put_nominator a n s) = ExitQueue s"
  "Ledger (put_nominator a n s) = Ledger s"
  "Total (put_nominator a n s) = Total s"
  "Round (put_nominator a n s) = Round s"
  by (simp_all add: put_nominator_def)

lemma deposit_event_sel [simp]:
  "Candidates (deposit_event e s) = Candidates s"
  "Nominators (deposit_event e s) = Nominators s"
  "CandidatePool (deposit_event e s) = CandidatePool s"
  "ExitQueue (deposit_event e s) = ExitQueue s"
  "Ledger (deposit_event e s) = Ledger s"
  "Total (deposit_event e s) = Total s"
  "Round (deposit_event e s) = Round s"
  "Validators (deposit_event e s) = Validators s"
  "AtStake (deposit_event e s) = AtStake s"
  by (simp_all add: deposit_event_def)

lemmas inv_defs = stake_inv_def linked_def solvent_def positive_def

lemma config_okD:
  assumes "config_ok T"
  shows "reserve_law (Currency T)" "unreserve_law (Currency T)" "deposit_law (Currency T)"
    "MinNomination T \<noteq> 0" "MinNominatorStk T \<noteq> 0"
  using assms by (auto simp: config_ok_def currency_laws_def)

lemma at_least_nonzero: "b \<le> x \<Longrightarrow> b \<noteq> 0 \<Longrightarrow> (x :: 'n::len word) \<noteq> 0"
  by (metis order_antisym word_zero_le)

lemmas call_splits = sum.split_asm if_split_asm prod.split_asm bool.split_asm option.split_asm

lemma stake_invD:
  assumes "stake_inv T other s"
  shows "well_linked (Candidates s) (Nominators s) (CandidatePool s) (ExitQueue s)"
    "covers (Currency T) other (Candidates s) (Nominators s) (Ledger s)"
    "positive_in (Nominators s)"
  using assms by (auto simp: inv_defs)

section \<open>Calls of candidates\<close>

lemma join_candidates_cases:
  assumes call: "join_candidates T origin fee b s = (r, s')"
  obtains (fail) e where "r = Inl e" "s' = s"
  | (success) acc c P where "r = Inr ()" "ensure_signed T origin = Inr acc"
      "Candidates s acc = None" "Nominators s acc = None" "fee \<le> MaxFee T" "MinValidatorStk T \<le> b"
      "set_insert bond_cmp \<lparr>owner = acc, amount = b\<rparr> (CandidatePool s) = (True, P)"
      "reserve (Currency T) (Ledger s) acc b = Inr c"
      "Candidates s' = (Candidates s)(acc \<mapsto> new_validator acc fee b)" "Nominators s' = Nominators s"
      "CandidatePool s' = P" "ExitQueue s' = ExitQueue s" "Ledger s' = c" "Total s' = Total s + b"
proof -
  show thesis
    using call unfolding join_candidates_def is_candidate_def is_nominator_def
    by (auto split: call_splits intro: fail success)
qed

lemma join_candidates_inv:
  assumes "config_ok T" and inv: "stake_inv T other s" and call: "join_candidates T origin fee b s = (r, s')"
  shows "stake_inv T other s'"
  using call
proof (cases rule: join_candidates_cases)
  case (success acc c P)
  note w = stake_invD(1)[OF inv]
  note D = well_linkedD[OF w]
  have none: "amounts (CandidatePool s) acc = None" using D(6)[of acc] success by simp
  have P: "ascending owner P" "amounts P = (amounts (CandidatePool s))(acc \<mapsto> b)"
    using insert_bond(1,2)[OF D(5) none, of b] success by simp_all
  have "well_linked (Candidates s') (Nominators s') (CandidatePool s') (ExitQueue s')"
    unfolding success using success(3) D(8)[of acc] P
    by (intro well_linked_candidate[OF w valid_new_validator _ _ P(1) _ D(7)])
       (auto simp: new_validator_def new_set_def backing_def pool_entry_def is_active_def
          exit_entry_def fun_eq_iff)
  moreover have "covers (Currency T) other (Candidates s') (Nominators s') c"
    unfolding success
    by (rule covers_reserve[OF config_okD(1)[OF assms(1)] stake_invD(2)[OF inv] success(8)])
       (use success(3) in \<open>auto simp: staked_by_def new_validator_def\<close>)
  ultimately show ?thesis using stake_invD(3)[OF inv] success by (simp add: inv_defs)
qed (use inv in simp)

lemma leave_candidates_cases:
  assumes call: "leave_candidates T origin s = (r, s')"
  obtains (fail) e where "r = Inl e" "s' = s"
  | (success) c v E where "r = Inr ()" "ensure_signed T origin = Inr c"
      "Candidates s c = Some v" "\<not> is_leaving v"
      "set_insert bond_cmp \<lparr>owner = c, amount = Round s + BondDuration T\<rparr> (ExitQueue s) = (True, E)"
      "Candidates s' = (Candidates s)(c \<mapsto> set_leaving v (Round s + BondDuration T))"
      "Nominators s' = Nominators s" "ExitQueue s' = E" "Ledger s' = Ledger s" "Total s' = Total s"
      "CandidatePool s' = (case set_remove bond_cmp (from_owner c) (CandidatePool s) of
          (True, P) \<Rightarrow> P | (False, _) \<Rightarrow> CandidatePool s)"
proof -
  show thesis
    using call unfolding leave_candidates_def
    by (auto split: call_splits intro: fail success)
qed

lemma remove_or_keep:
  assumes "ascending owner P"
  shows "(case set_remove bond_cmp (from_owner c) P of (True, Q) \<Rightarrow> Q | (False, _) \<Rightarrow> P)
    = filter (\<lambda>x. owner x \<noteq> c) P"
proof (cases "amounts P c")
  case None
  with remove_bond[OF assms, of c] view_filter_id[of owner amount P c] show ?thesis
    by (auto split: prod.split bool.split)
next
  case (Some x)
  with remove_bond[OF assms, of c] show ?thesis by (auto split: prod.split bool.split)
qed

lemma leave_candidates_inv:
  assumes inv: "stake_inv T other s" and call: "leave_candidates T origin s = (r, s')"
  shows "stake_inv T other s'"
  using call
proof (cases rule: leave_candidates_cases)
  case (success c v E)
  let ?v' = "set_leaving v (Round s + BondDuration T)"
  note w = stake_invD(1)[OF inv]
  note D = well_linkedD[OF w]
  have none: "amounts (ExitQueue s) c = None"
    using D(8)[of c] success(3,4) by (auto simp: exit_entry_def is_leaving_def split: ValidatorStatus.splits)
  have E: "ascending owner E" "amounts E = (amounts (ExitQueue s))(c \<mapsto> Round s + BondDuration T)"
    using insert_bond(1,2)[OF D(7) none, of "Round s + BondDuration T"] success(5) by simp_all
  have "well_linked (Candidates s') (Nominators s') (CandidatePool s') (ExitQueue s')"
    unfolding success remove_or_keep[OF D(5)] using D(1,2)[OF success(3)] success(3)
    by (intro well_linked_candidate[OF w _ _ _ ascending_filter[OF D(5)] _ E(1)])
       (auto simp: set_leaving_def backing_def pool_entry_def exit_entry_def is_active_def
          amounts_filter E(2))
  moreover have "covers (Currency T) other (Candidates s') (Nominators s') (Ledger s)"
    unfolding success by (rule covers_cong[OF stake_invD(2)[OF inv]])
       (use success(3) in \<open>auto simp: staked_by_def set_leaving_def\<close>)
  ultimately show ?thesis using stake_invD(3)[OF inv] success by (simp add: inv_defs)
qed (use inv in simp)

lemma go_offline_cases:
  assumes call: "go_offline T origin s = (r, s')"
  obtains (fail) e where "r = Inl e" "s' = s"
  | (success) c v where "r = Inr ()" "ensure_signed T origin = Inr c"
      "Candidates s c = Some v" "is_active v"
      "Candidates s' = (Candidates s)(c \<mapsto> set_offline v)"
      "Nominators s' = Nominators s" "ExitQueue s' = ExitQueue s" "Ledger s' = Ledger s"
      "Total s' = Total s"
      "CandidatePool s' = (case set_remove bond_cmp (from_owner c) (CandidatePool s) of
          (True, P) \<Rightarrow> P | (False, _) \<Rightarrow> CandidatePool s)"
proof -
  show thesis
    using call unfolding go_offline_def
    by (auto split: call_splits intro: fail success)
qed

lemma go_offline_inv:
  assumes inv: "stake_inv T other s" and call: "go_offline T origin s = (r, s')"
  shows "stake_inv T other s'"
  using call
proof (cases rule: go_offline_cases)
  case (success c v)
  note w = stake_invD(1)[OF inv]
  note D = well_linkedD[OF w]
  have "well_linked (Candidates s') (Nominators s') (CandidatePool s') (ExitQueue s')"
    unfolding success remove_or_keep[OF D(5)] using D(1,2)[OF success(3)] D(8)[of c] success(3,4)
    by (intro well_linked_candidate[OF w _ _ _ ascending_filter[OF D(5)] _ D(7)])
       (auto simp: set_offline_def backing_def pool_entry_def exit_entry_def is_active_def
          amounts_filter fun_eq_iff)
  moreover have "covers (Currency T) other (Candidates s') (Nominators s') (Ledger s)"
    unfolding success by (rule covers_cong[OF stake_invD(2)[OF inv]])
       (use success(3) in \<open>auto simp: staked_by_def set_offline_def\<close>)
  ultimately show ?thesis using stake_invD(3)[OF inv] success by (simp add: inv_defs)
qed (use inv in simp)

lemma go_online_cases:
  assumes call: "go_online T origin s = (r, s')"
  obtains (fail) e where "r = Inl e" "s' = s"
  | (success) c v P where "r = Inr ()" "ensure_signed T origin = Inr c"
      "Candidates s c = Some v" "\<not> is_active v" "\<not> is_leaving v"
      "set_insert bond_cmp \<lparr>owner = c, amount = v_total v\<rparr> (CandidatePool s) = (True, P)"
      "Candidates s' = (Candidates s)(c \<mapsto> set_online v)"
      "Nominators s' = Nominators s" "ExitQueue s' = ExitQueue s" "Ledger s' = Ledger s"
      "Total s' = Total s" "CandidatePool s' = P"
proof -
  show thesis
    using call unfolding go_online_def
    by (auto split: call_splits simp: set_online_def intro: fail success)
qed

lemma go_online_inv:
  assumes inv: "stake_inv T other s" and call: "go_online T origin s = (r, s')"
  shows "stake_inv T other s'"
  using call
proof (cases rule: go_online_cases)
  case (success c v P)
  note w = stake_invD(1)[OF inv]
  note D = well_linkedD[OF w]
  have none: "amounts (CandidatePool s) c = None"
    using D(6)[of c] success(3,4) by (simp add: pool_entry_def)
  have P: "ascending owner P" "amounts P = (amounts (CandidatePool s))(c \<mapsto> v_total v)"
    using insert_bond(1,2)[OF D(5) none, of "v_total v"] success(6) by simp_all
  have "well_linked (Candidates s') (Nominators s') (CandidatePool s') (ExitQueue s')"
    unfolding success using D(1,2)[OF success(3)] D(8)[of c] success(3,5) P
    by (intro well_linked_candidate[OF w _ _ _ P(1) _ D(7)])
       (auto simp: set_online_def backing_def pool_entry_def exit_entry_def is_active_def
          is_leaving_def fun_eq_iff split: ValidatorStatus.splits)
  moreover have "covers (Currency T) other (Candidates s') (Nominators s') (Ledger s)"
    unfolding success by (rule covers_cong[OF stake_invD(2)[OF inv]])
       (use success(3) in \<open>auto simp: staked_by_def set_online_def\<close>)
  ultimately show ?thesis using stake_invD(3)[OF inv] success by (simp add: inv_defs)
qed (use inv in simp)

lemma candidate_bond_more_cases:
  assumes call: "candidate_bond_more T origin x s = (r, s')"
  obtains (fail) e where "r = Inl e" "s' = s"
  | (success) c v l where "r = Inr ()" "ensure_signed T origin = Inr c"
      "Candidates s c = Some v" "\<not> is_leaving v"
      "reserve (Currency T) (Ledger s) c x = Inr l"
      "Candidates s' = (Candidates s)(c \<mapsto> bond_more v x)"
      "Nominators s' = Nominators s" "ExitQueue s' = ExitQueue s" "Ledger s' = l" "Total s' = Total s"
      "CandidatePool s' = activated c (bond_more v x) (v_total (bond_more v x)) (CandidatePool s)"
proof -
  show thesis
    using call unfolding candidate_bond_more_def update_if_active_eq
    by (auto split: call_splits intro: fail success)
qed

lemma candidate_bond_more_inv:
  assumes T: "config_ok T" and inv: "stake_inv T other s"
    and call: "candidate_bond_more T origin x s = (r, s')"
  shows "stake_inv T other s'"
  using call
proof (cases rule: candidate_bond_more_cases)
  case (success c v l)
  note w = stake_invD(1)[OF inv] and cov = stake_invD(2)[OF inv]
  have "well_linked (Candidates s') (Nominators s') (CandidatePool s') (ExitQueue s')"
    unfolding success using well_linkedD(1)[OF w success(3)]
    by (intro well_linked_candidate_same_status[OF w success(3)] valid_bond_more)
       (auto simp: bond_more_def)
  moreover have "unat (v_bond v + x) = unat (v_bond v) + unat x"
    using success(3) by (intro reserve_no_wrap[OF config_okD(1)[OF T] cov success(5)])
      (simp add: staked_by_def)
  then have "covers (Currency T) other (Candidates s') (Nominators s') l"
    unfolding success using success(3)
    by (intro covers_reserve[OF config_okD(1)[OF T] cov success(5)])
       (auto simp: staked_by_def bond_more_def)
  ultimately show ?thesis using stake_invD(3)[OF inv] success by (simp add: inv_defs)
qed (use inv in simp)

lemma candidate_bond_less_cases:
  assumes call: "candidate_bond_less T origin x s = (r, s')"
  obtains (fail) e where "r = Inl e" "s' = s"
  | (success) c v v' where "r = Inr ()" "ensure_signed T origin = Inr c"
      "Candidates s c = Some v" "\<not> is_leaving v" "bond_less v x = Some (v_bond v - x, v')"
      "x < v_bond v" "MinValidatorStk T \<le> v_bond v - x"
      "v' = v\<lparr>v_bond := v_bond v - x, v_total := v_total v - x\<rparr>"
      "Candidates s' = (Candidates s)(c \<mapsto> v')"
      "Nominators s' = Nominators s" "ExitQueue s' = ExitQueue s"
      "Ledger s' = unreserve (Currency T) (Ledger s) c x" "Total s' = Total s"
      "CandidatePool s' = activated c v' (v_total v') (CandidatePool s)"
proof -
  show thesis
    using call unfolding candidate_bond_less_def update_if_active_eq bond_less_def
    by (auto simp: bond_less_def split: call_splits intro: fail success)
qed

lemma unat_split_less: "x < b \<Longrightarrow> unat (b :: 'n::len word) = unat (b - x) + unat x"
  by (simp add: unat_minus_exact less_imp_le unat_mono)

lemma candidate_bond_less_inv:
  assumes T: "config_ok T" and inv: "stake_inv T other s"
    and call: "candidate_bond_less T origin x s = (r, s')"
  shows "stake_inv T other s'"
  using call
proof (cases rule: candidate_bond_less_cases)
  case (success c v v')
  note w = stake_invD(1)[OF inv] and cov = stake_invD(2)[OF inv]
  have "well_linked (Candidates s') (Nominators s') (CandidatePool s') (ExitQueue s')"
    unfolding success(9-14) using valid_bond_less[OF well_linkedD(1)[OF w success(3)] success(5)]
    by (intro well_linked_candidate_same_status[OF w success(3)]) (auto simp: success(8))
  moreover have "covers (Currency T) other (Candidates s') (Nominators s') (Ledger s')"
    unfolding success(9-14) using success(3) unat_split_less[OF success(6)]
    by (intro covers_unreserve[OF config_okD(2)[OF T] cov]) (auto simp: staked_by_def success(8))
  ultimately show ?thesis using stake_invD(3)[OF inv] success(10) by (simp add: inv_defs)
qed (use inv in simp)

section \<open>Calls of nominators\<close>

lemma nominator_joins_cases:
  assumes call: "nominator_joins_validator T n x c s = (r, s')"
  obtains (fail) e where "r = Inl e" "s' = s"
  | (success) v noms v' l where "r = Inr ()" "Candidates s c = Some v"
      "set_insert bond_cmp \<lparr>owner = n, amount = x\<rparr> (v_nominators v) = (True, noms)"
      "(of_nat (length noms) :: u32) \<le> MaxNominatorsPerValidator T"
      "reserve (Currency T) (Ledger s) n x = Inr l"
      "v' = v\<lparr>v_nominators := noms, v_total := v_total v + x\<rparr>"
      "Candidates s' = (Candidates s)(c \<mapsto> v')"
      "Nominators s' = Nominators s" "ExitQueue s' = ExitQueue s" "Ledger s' = l"
      "Total s' = Total s + x"
      "CandidatePool s' = activated c v' (v_total v') (CandidatePool s)"
proof -
  have "activated c (v\<lparr>v_nominators := noms, v_total := t\<rparr>) u P = activated c v u P" for v noms t u P
    by (simp add: activated_def is_active_def)
  then show thesis
    using call unfolding nominator_joins_validator_def update_if_active_eq
    by (auto split: call_splits intro: fail success)
qed

lemma join_nominators_cases:
  assumes call: "join_nominators T origin c x s = (r, s')"
  obtains (fail) e where "r = Inl e" "s' = s"
  | (success) n v noms v' l where "r = Inr ()" "ensure_signed T origin = Inr n"
      "MinNominatorStk T \<le> x" "Nominators s n = None" "Candidates s n = None" "Candidates s c = Some v"
      "set_insert bond_cmp \<lparr>owner = n, amount = x\<rparr> (v_nominators v) = (True, noms)"
      "(of_nat (length noms) :: u32) \<le> MaxNominatorsPerValidator T"
      "reserve (Currency T) (Ledger s) n x = Inr l"
      "v' = v\<lparr>v_nominators := noms, v_total := v_total v + x\<rparr>"
      "Candidates s' = (Candidates s)(c \<mapsto> v')"
      "Nominators s' = (Nominators s)(n \<mapsto> new_nominator c x)"
      "ExitQueue s' = ExitQueue s" "Ledger s' = l" "Total s' = Total s + x"
      "CandidatePool s' = activated c v' (v_total v') (CandidatePool s)"
proof -
  note F = fail and S = success
  have joined: thesis
    if "ensure_signed T origin = Inr n" "MinNominatorStk T \<le> x" "Nominators s n = None"
      "Candidates s n = None" "nominator_joins_validator T n x c s = (q, t)"
      "(case q of Inl e \<Rightarrow> (Inl e, t) | Inr _ \<Rightarrow> ok (deposit_event (NominatorJoined n x)
          (put_nominator n (new_nominator c x) t))) = (r, s')" for n q t
    using that(5)
  proof (cases rule: nominator_joins_cases)
    case (fail e)
    with that(6) show ?thesis by (intro F) auto
  next
    case (success v noms v' l)
    show ?thesis by (rule S[OF _ that(1-4) success(2-6)]) (use success that(6) in auto)
  qed
  show thesis
    using call unfolding join_nominators_def is_nominator_def is_candidate_def
    by (auto split: call_splits intro: F joined)
qed

lemma join_nominators_inv:
  assumes T: "config_ok T" and inv: "stake_inv T other s"
    and call: "join_nominators T origin c x s = (r, s')"
  shows "stake_inv T other s'"
  using call
proof (cases rule: join_nominators_cases)
  case (success n v noms v' l)
  note w = stake_invD(1)[OF inv] and cov = stake_invD(2)[OF inv]
  note val = well_linkedD(1)[OF w success(6)]
  have none: "amounts (v_nominators v) n = None"
    by (rule no_nominator_no_backing[OF w success(6,4)])
  have noms: "noms = snd (set_insert bond_cmp \<lparr>owner = n, amount = x\<rparr> (v_nominators v))"
    using success(7) by simp
  have "well_linked (Candidates s') (Nominators s') (CandidatePool s') (ExitQueue s')"
    unfolding success(11-16)
  proof (rule well_linked_edge[OF w success(6), where x = "Some x"])
    show "valid_validator v'" using valid_insert_nominator[OF val none] by (simp add: success(10) noms)
    show "amounts (v_nominators v') = (amounts (v_nominators v))(n \<mapsto> x)"
      using insert_bond(2)[OF valid_validatorD(1)[OF val] none] by (simp add: success(10) noms)
    show "amounts (n_nominations (new_nominator c x)) = (nominated (Nominators s) n)(c \<mapsto> x)"
      using success(4) by (simp add: new_nominator_eq nominated_def)
  qed (simp_all add: success(10) valid_new_nominator)
  moreover have "covers (Currency T) other (Candidates s') (Nominators s') (Ledger s')"
    unfolding success(11-14) using success(4,6)
    by (intro covers_reserve[OF config_okD(1)[OF T] cov success(9)])
       (auto simp: staked_by_def new_nominator_eq success(10))
  moreover have "positive_in (Nominators s')"
    unfolding success(12) using at_least_nonzero[OF success(3) config_okD(5)[OF T]]
    by (intro positive_update[OF stake_invD(3)[OF inv]])
       (auto simp: new_nominator_eq split: if_splits)
  ultimately show ?thesis by (simp add: inv_defs)
qed (use inv in simp)

lemma nominate_new_cases:
  assumes call: "nominate_new T origin c x s = (r, s')"
  obtains (fail) e where "r = Inl e" "s' = s"
  | (success) n m v m' noms v' l where "r = Inr ()" "ensure_signed T origin = Inr n"
      "MinNomination T \<le> x" "Nominators s n = Some m" "Candidates s c = Some v"
      "(of_nat (length (n_nominations m)) :: u32) < MaxValidatorsPerNominator T"
      "(of_nat (length (v_nominators v)) :: u32) < MaxNominatorsPerValidator T"
      "add_nomination m \<lparr>owner = c, amount = x\<rparr> = (True, m')"
      "set_insert bond_cmp \<lparr>owner = n, amount = x\<rparr> (v_nominators v) = (True, noms)"
      "reserve (Currency T) (Ledger s) n x = Inr l"
      "v' = v\<lparr>v_nominators := noms, v_total := v_total v + x\<rparr>"
      "Candidates s' = (Candidates s)(c \<mapsto> v')" "Nominators s' = (Nominators s)(n \<mapsto> m')"
      "ExitQueue s' = ExitQueue s" "Ledger s' = l" "Total s' = Total s + x"
      "CandidatePool s' = activated c v' (v_total v') (CandidatePool s)"
proof -
  have "activated c (v\<lparr>v_nominators := noms, v_total := t\<rparr>) u P = activated c v u P" for v noms t u P
    by (simp add: activated_def is_active_def)
  then show thesis
    using call unfolding nominate_new_def update_if_active_eq
    by (auto split: call_splits intro: fail success)
qed

lemma nominate_new_inv:
  assumes T: "config_ok T" and inv: "stake_inv T other s"
    and call: "nominate_new T origin c x s = (r, s')"
  shows "stake_inv T other s'"
  using call
proof (cases rule: nominate_new_cases)
  case (success n m v m' noms v' l)
  note w = stake_invD(1)[OF inv] and cov = stake_invD(2)[OF inv]
  note val = well_linkedD(1)[OF w success(5)] and nom = well_linkedD(3)[OF w success(4)]
  have none_m: "amounts (n_nominations m) c = None"
    using add_nomination_dup[OF nom, of "\<lparr>owner = c, amount = x\<rparr>"] success(8) by fastforce
  have none: "amounts (v_nominators v) n = None"
    using edge_symmetric[OF w success(5,4)] none_m by simp
  have noms: "noms = snd (set_insert bond_cmp \<lparr>owner = n, amount = x\<rparr> (v_nominators v))"
    using success(9) by simp
  have m': "m' = m\<lparr>n_nominations := snd (set_insert bond_cmp \<lparr>owner = c, amount = x\<rparr> (n_nominations m)),
       n_total := n_total m + x\<rparr>"
    using add_nomination_eq[OF nom, of "\<lparr>owner = c, amount = x\<rparr>"] none_m success(8) by simp
  note ins = insert_bond[OF valid_nominatorD(1)[OF nom] none_m, of x]
  have "well_linked (Candidates s') (Nominators s') (CandidatePool s') (ExitQueue s')"
    unfolding success(12-17)
  proof (rule well_linked_edge[OF w success(5), where x = "Some x"])
    show "valid_validator v'" using valid_insert_nominator[OF val none] by (simp add: success(11) noms)
    show "amounts (v_nominators v') = (amounts (v_nominators v))(n \<mapsto> x)"
      using insert_bond(2)[OF valid_validatorD(1)[OF val] none] by (simp add: success(11) noms)
    show "amounts (n_nominations m') = (nominated (Nominators s) n)(c \<mapsto> x)"
      using success(4) ins(2) by (simp add: m' nominated_def)
    show "valid_nominator m'" unfolding m' by (rule valid_add_nomination[OF nom none_m])
  qed (simp_all add: success(11))
  moreover have "covers (Currency T) other (Candidates s') (Nominators s') (Ledger s')"
    unfolding success(12-15)
    using success(4,5) insert_bond_sum(2)[OF valid_nominatorD(1)[OF nom] none_m, of x]
    by (intro covers_reserve[OF config_okD(1)[OF T] cov success(10)])
       (auto simp: staked_by_def success(11) m')
  moreover have "positive_in (Nominators s')"
    unfolding success(13) using at_least_nonzero[OF success(3) config_okD(4)[OF T]]
      positiveD[OF stake_invD(3)[OF inv] success(4)]
    by (intro positive_update[OF stake_invD(3)[OF inv]]) (auto simp: m' ins(2) split: if_splits)
  ultimately show ?thesis by (simp add: inv_defs)
qed (use inv in simp)

lemma nominator_bond_more_cases:
  assumes call: "nominator_bond_more T origin c x s = (r, s')"
  obtains (fail) e where "r = Inl e" "s' = s"
  | (success) n m v y m' v' l where "r = Inr ()" "ensure_signed T origin = Inr n"
      "Nominators s n = Some m" "Candidates s c = Some v"
      "amounts (n_nominations m) c = Some y"
      "m' = m\<lparr>n_nominations := update_first (\<lambda>b. owner b = c)
             (\<lambda>b. b\<lparr>amount := amount b + x\<rparr>) (n_nominations m), n_total := n_total m + x\<rparr>"
      "reserve (Currency T) (Ledger s) n x = Inr l" "v' = inc_nominator v n x"
      "Candidates s' = (Candidates s)(c \<mapsto> v')" "Nominators s' = (Nominators s)(n \<mapsto> m')"
      "ExitQueue s' = ExitQueue s" "Ledger s' = l" "Total s' = Total s"
      "CandidatePool s' = activated c v' (v_total v') (CandidatePool s)"
proof -
  show thesis
    using call unfolding nominator_bond_more_def update_if_active_eq inc_nomination_eq
    by (auto split: call_splits intro: fail success)
qed

lemma nominator_bond_more_inv:
  assumes T: "config_ok T" and inv: "stake_inv T other s"
    and call: "nominator_bond_more T origin c x s = (r, s')"
  shows "stake_inv T other s'"
  using call
proof (cases rule: nominator_bond_more_cases)
  case (success n m v y m' v' l)
  note w = stake_invD(1)[OF inv] and cov = stake_invD(2)[OF inv]
  note val = well_linkedD(1)[OF w success(4)] and nom = well_linkedD(3)[OF w success(3)]
  have backed: "amounts (v_nominators v) n = Some y"
    using edge_symmetric[OF w success(4,3)] success(5) by simp
  note upd = amounts_update_first[OF success(5), of "\<lambda>z. z + x"]
  have grow: "unat (y + x) = unat y + unat x"
    using success(3) amount_le_nat_sum[OF success(5)]
    by (intro reserve_no_wrap[OF config_okD(1)[OF T] cov success(7)]) (simp add: staked_by_def)
  have "well_linked (Candidates s') (Nominators s') (CandidatePool s') (ExitQueue s')"
    unfolding success(9-14)
  proof (rule well_linked_edge[OF w success(4), where x = "Some (y + x)"])
    show "valid_validator v'" unfolding success(8) by (rule valid_inc_nominator[OF val backed])
    show "amounts (v_nominators v') = (amounts (v_nominators v))(n \<mapsto> y + x)"
      using amounts_update_first[OF backed, of "\<lambda>z. z + x"]
      by (simp add: success(8) inc_nominator_eq[OF backed])
    show "amounts (n_nominations m') = (nominated (Nominators s) n)(c \<mapsto> y + x)"
      using success(3) upd by (simp add: success(6) nominated_def)
    show "valid_nominator m'"
      using valid_update_nominations[OF nom success(5), of "\<lambda>z. z + x"] by (simp add: success(6))
  qed (simp_all add: success(8) inc_nominator_eq[OF backed])
  moreover have "covers (Currency T) other (Candidates s') (Nominators s') (Ledger s')"
    unfolding success(9-12)
    using success(3,4) grow nat_sum_update_first[OF success(5), of "\<lambda>z. z + x"]
    by (intro covers_reserve[OF config_okD(1)[OF T] cov success(7)])
       (auto simp: staked_by_def success(6,8) inc_nominator_eq[OF backed])
  moreover have "positive_in (Nominators s')"
    unfolding success(10) using positiveD[OF stake_invD(3)[OF inv] success(3)] success(5) grow
    by (intro positive_update[OF stake_invD(3)[OF inv]])
       (auto simp: success(6) upd unat_eq_0 split: if_splits)
  ultimately show ?thesis by (simp add: inv_defs)
qed (use inv in simp)

lemma nominator_bond_less_cases:
  assumes call: "nominator_bond_less T origin c x s = (r, s')"
  obtains (fail) e where "r = Inl e" "s' = s"
  | (success) n m v y m' v' where "r = Inr ()" "ensure_signed T origin = Inr n"
      "Nominators s n = Some m" "Candidates s c = Some v"
      "amounts (n_nominations m) c = Some y" "x < y" "MinNomination T \<le> y - x"
      "MinNominatorStk T \<le> n_total m - x"
      "m' = m\<lparr>n_nominations := update_first (\<lambda>b. owner b = c)
             (\<lambda>b. b\<lparr>amount := amount b - x\<rparr>) (n_nominations m), n_total := n_total m - x\<rparr>"
      "v' = dec_nominator v n x"
      "Candidates s' = (Candidates s)(c \<mapsto> v')" "Nominators s' = (Nominators s)(n \<mapsto> m')"
      "ExitQueue s' = ExitQueue s" "Ledger s' = unreserve (Currency T) (Ledger s) n x"
      "Total s' = Total s"
      "CandidatePool s' = activated c v' (v_total v') (CandidatePool s)"
proof -
  show thesis
    using call unfolding nominator_bond_less_def update_if_active_eq dec_nomination_eq
    by (auto split: call_splits intro: fail success)
qed

lemma nominator_bond_less_inv:
  assumes T: "config_ok T" and inv: "stake_inv T other s"
    and call: "nominator_bond_less T origin c x s = (r, s')"
  shows "stake_inv T other s'"
  using call
proof (cases rule: nominator_bond_less_cases)
  case (success n m v y m' v')
  note w = stake_invD(1)[OF inv] and cov = stake_invD(2)[OF inv]
  note val = well_linkedD(1)[OF w success(4)] and nom = well_linkedD(3)[OF w success(3)]
  have backed: "amounts (v_nominators v) n = Some y"
    using edge_symmetric[OF w success(4,3)] success(5) by simp
  note upd = amounts_update_first[OF success(5), of "\<lambda>z. z - x"]
  have "well_linked (Candidates s') (Nominators s') (CandidatePool s') (ExitQueue s')"
    unfolding success(11-16)
  proof (rule well_linked_edge[OF w success(4), where x = "Some (y - x)"])
    show "valid_validator v'" unfolding success(10) by (rule valid_dec_nominator[OF val backed])
    show "amounts (v_nominators v') = (amounts (v_nominators v))(n \<mapsto> y - x)"
      using amounts_update_first[OF backed, of "\<lambda>z. z - x"]
      by (simp add: success(10) dec_nominator_eq[OF backed])
    show "amounts (n_nominations m') = (nominated (Nominators s) n)(c \<mapsto> y - x)"
      using success(3) upd by (simp add: success(9) nominated_def)
    show "valid_nominator m'"
      using valid_update_nominations[OF nom success(5), of "\<lambda>z. z - x"] by (simp add: success(9))
  qed (simp_all add: success(10) dec_nominator_eq[OF backed])
  moreover have "covers (Currency T) other (Candidates s') (Nominators s') (Ledger s')"
    unfolding success(11-14)
    using success(3,4) unat_split_less[OF success(6)] nat_sum_update_first[OF success(5), of "\<lambda>z. z - x"]
    by (intro covers_unreserve[OF config_okD(2)[OF T] cov])
       (auto simp: staked_by_def success(9,10) dec_nominator_eq[OF backed])
  moreover have "positive_in (Nominators s')"
    unfolding success(12) using positiveD[OF stake_invD(3)[OF inv] success(3)] success(6)
    by (intro positive_update[OF stake_invD(3)[OF inv]])
       (auto simp: success(9) upd split: if_splits)
  ultimately show ?thesis by (simp add: inv_defs)
qed (use inv in simp)

section \<open>Withdrawing nominations\<close>

text \<open>\<open>balanced_with T other N s\<close> is the linked and solvent part of the invariant with \<open>N\<close> in
  place of the nominators of the storage: it describes the storage while a loop has already
  changed the candidates and not yet written the nominator.\<close>

definition balanced_with ::
  "('o, 'c, 'a::linorder) config \<Rightarrow> ('a \<Rightarrow> nat) \<Rightarrow> ('a \<rightharpoonup> 'a Nominator) \<Rightarrow> ('c, 'a) storage \<Rightarrow> bool" where
  "balanced_with T other N s \<longleftrightarrow>
     well_linked (Candidates s) N (CandidatePool s) (ExitQueue s) \<and>
     covers (Currency T) other (Candidates s) N (Ledger s)"

lemma balanced_withD:
  assumes "balanced_with T other N s"
  shows "well_linked (Candidates s) N (CandidatePool s) (ExitQueue s)"
    "covers (Currency T) other (Candidates s) N (Ledger s)"
  using assms by (auto simp: balanced_with_def)

lemma balanced_with_inv:
  "stake_inv T other s \<longleftrightarrow> balanced_with T other (Nominators s) s \<and> positive s"
  by (auto simp: inv_defs balanced_with_def)

lemma leaves_validator_step:
  assumes T: "config_ok T" and bal: "balanced_with T other (N(n \<mapsto> m)) s"
    and x: "amounts (n_nominations m) c = Some x"
  defines "m' \<equiv> m\<lparr>n_nominations := filter (\<lambda>b. owner b \<noteq> c) (n_nominations m), n_total := n_total m - x\<rparr>"
  obtains s' where "nominator_leaves_validator T n c s = ok s'" "balanced_with T other (N(n \<mapsto> m')) s'"
    "Nominators s' = Nominators s" "ExitQueue s' = ExitQueue s" "Total s' = Total s - x"
proof -
  note w = balanced_withD(1)[OF bal] and cov = balanced_withD(2)[OF bal]
  obtain v where v: "Candidates s c = Some v"
    using no_candidate_no_nomination[OF w, of c n m] x by (cases "Candidates s c") auto
  note val = well_linkedD(1)[OF w v]
  have nom: "valid_nominator m" using well_linkedD(3)[OF w, of n m] by simp
  have backed: "amounts (v_nominators v) n = Some x"
    using edge_symmetric[OF w v, of n m] x by simp
  define v' where "v' = v\<lparr>v_nominators := filter (\<lambda>b. owner b \<noteq> n) (v_nominators v), v_total := v_total v - x\<rparr>"
  obtain s' where s': "nominator_leaves_validator T n c s = ok s'"
    "Candidates s' = (Candidates s)(c \<mapsto> v')" "Nominators s' = Nominators s"
    "CandidatePool s' = activated c v' (v_total v') (CandidatePool s)" "ExitQueue s' = ExitQueue s"
    "Ledger s' = unreserve (Currency T) (Ledger s) n x" "Total s' = Total s - x"
    using v dropped_amount_eq[OF valid_validatorD(1)[OF val]] backed
      from_vec_filter[OF valid_validatorD(1)[OF val]]
    by (simp add: nominator_leaves_validator_def update_if_active_eq v'_def)
  have "well_linked (Candidates s') (N(n \<mapsto> m')) (CandidatePool s') (ExitQueue s')"
    using well_linked_edge[OF w v, where x = None and v' = v' and n = n and m' = m']
      valid_filter_nominators[OF val backed] valid_filter_nominations[OF nom x] s'
    by (simp add: v'_def m'_def amounts_filter nominated_def)
  moreover have "covers (Currency T) other (Candidates s') (N(n \<mapsto> m')) (Ledger s')"
    unfolding s'(2,6) using v nat_sum_filter[OF valid_nominatorD(1)[OF nom] x]
    by (intro covers_unreserve[OF config_okD(2)[OF T] cov])
       (auto simp: staked_by_def v'_def m'_def)
  ultimately show thesis using that s' by (simp add: balanced_with_def)
qed

lemma revoke_nomination_cases:
  assumes T: "config_ok T" and inv: "stake_inv T other s"
    and call: "revoke_nomination T origin c s = (r, s')"
  obtains (fail) e where "r = Inl e" "s' = s"
  | (success) n m x m' where "r = Inr ()" "ensure_signed T origin = Inr n"
      "Nominators s n = Some m" "amounts (n_nominations m) c = Some x"
      "MinNominatorStk T \<le> n_total m - x"
      "m' = m\<lparr>n_nominations := filter (\<lambda>b. owner b \<noteq> c) (n_nominations m), n_total := n_total m - x\<rparr>"
      "balanced_with T other ((Nominators s)(n \<mapsto> m')) s'" "Nominators s' = (Nominators s)(n \<mapsto> m')"
      "Total s' = Total s - x" "ExitQueue s' = ExitQueue s"
proof -
  have revoked: thesis
    if n: "ensure_signed T origin = Inr n" and m: "Nominators s n = Some m"
      and x: "amounts (n_nominations m) c = Some x" and le: "MinNominatorStk T \<le> n_total m - x" for n m x
  proof -
    let ?m' = "m\<lparr>n_nominations := filter (\<lambda>b. owner b \<noteq> c) (n_nominations m), n_total := n_total m - x\<rparr>"
    have bal: "balanced_with T other ((Nominators s)(n \<mapsto> m)) s"
      using inv m by (simp add: balanced_with_inv map_upd_triv)
    have rm: "rm_nomination m c = Some (n_total m - x, ?m')"
      using rm_nomination_eq well_linkedD(3)[OF stake_invD(1)[OF inv] m] x by fastforce
    obtain t where t: "nominator_leaves_validator T n c s = ok t"
      "balanced_with T other ((Nominators s)(n \<mapsto> ?m')) t" "Nominators t = Nominators s"
      "Total t = Total s - x" "ExitQueue t = ExitQueue s"
      using leaves_validator_step[OF T bal x] by metis
    have eq: "(r, s') = ok (put_nominator n ?m' t)"
      using call n m rm le t(1) by (simp add: revoke_nomination_def nominator_revokes_validator_def)
    have "balanced_with T other ((Nominators s)(n \<mapsto> ?m')) s'"
      using t(2) eq by (simp add: balanced_with_def)
    with eq t show thesis by (intro success[OF _ n m x le refl]) simp_all
  qed
  show thesis
  proof (cases "\<exists>n m x. ensure_signed T origin = Inr n \<and> Nominators s n = Some m \<and>
      amounts (n_nominations m) c = Some x \<and> MinNominatorStk T \<le> n_total m - x")
    case False
    then have "s' = s \<and> (\<exists>e. r = Inl e)"
      using call rm_nomination_eq[OF well_linkedD(3)[OF stake_invD(1)[OF inv]], of _ _ c]
      unfolding revoke_nomination_def nominator_revokes_validator_def
      by (auto split: call_splits)
    then show thesis using fail by blast
  qed (use revoked in blast)
qed

lemma revoke_nomination_inv:
  assumes T: "config_ok T" and inv: "stake_inv T other s"
    and call: "revoke_nomination T origin c s = (r, s')"
  shows "stake_inv T other s'"
  using assms
proof (cases rule: revoke_nomination_cases)
  case (success n m x m')
  have "positive_in (Nominators s')"
    unfolding success(8) using positiveD[OF stake_invD(3)[OF inv] success(3)]
    by (intro positive_update[OF stake_invD(3)[OF inv]])
       (auto simp: success(6) amounts_filter split: if_splits)
  with success show ?thesis by (simp add: balanced_with_inv positive_def)
qed (use inv in simp)

lemma leave_each_balanced:
  assumes "config_ok T" "balanced_with T other (N(n \<mapsto> m)) s"
  obtains s' where "leave_each T n (n_nominations m) s = ok s'"
    "balanced_with T other (N(n \<mapsto> \<lparr>n_nominations = [], n_total = 0\<rparr>)) s'"
    "Nominators s' = Nominators s" "ExitQueue s' = ExitQueue s" "Total s' = Total s - n_total m"
  using assms(2)
proof (induction "n_nominations m" arbitrary: m s thesis)
  case Nil
  have "n_total m = 0"
    using well_linkedD(3)[OF balanced_withD(1)[OF Nil(3)], of n m] Nil(1)[symmetric]
    by (simp add: valid_nominator_def)
  then have "m = \<lparr>n_nominations = [], n_total = 0\<rparr>" using Nil(1) by (cases m) simp
  with Nil(2,3) show ?case by simp
next
  case (Cons b bs)
  let ?c = "owner b" and ?x = "amount b"
  let ?m' = "m\<lparr>n_nominations := filter (\<lambda>b. owner b \<noteq> ?c) (n_nominations m), n_total := n_total m - ?x\<rparr>"
  have nom: "valid_nominator m"
    using well_linkedD(3)[OF balanced_withD(1)[OF Cons.prems(2)], of n m] by simp
  have "?c \<notin> owner ` set bs"
    using valid_nominatorD(1)[OF nom] unfolding Cons.hyps(2)[symmetric] by auto
  then have rest: "bs = n_nominations ?m'"
    unfolding Cons.hyps(2)[symmetric] by (auto simp: image_iff intro!: filter_True[symmetric])
  obtain t where t: "nominator_leaves_validator T n ?c s = ok t" "balanced_with T other (N(n \<mapsto> ?m')) t"
    "Nominators t = Nominators s" "ExitQueue t = ExitQueue s" "Total t = Total s - ?x"
    by (rule leaves_validator_step[OF assms(1) Cons.prems(2), of ?c ?x])
       (simp_all flip: Cons.hyps(2))
  obtain s' where s': "leave_each T n bs t = ok s'"
    "balanced_with T other (N(n \<mapsto> \<lparr>n_nominations = [], n_total = 0\<rparr>)) s'"
    "Nominators s' = Nominators t" "ExitQueue s' = ExitQueue t" "Total s' = Total t - n_total ?m'"
    by (rule Cons.hyps(1)[OF rest _ t(2)]) (simp flip: rest)
  then show ?case using Cons.prems(1) t by (simp flip: Cons.hyps(2))
qed

lemma balanced_without:
  "balanced_with T other (N(n \<mapsto> \<lparr>n_nominations = [], n_total = 0\<rparr>)) s \<Longrightarrow> balanced_with T other (N(n := None)) s"
  by (auto simp: balanced_with_def well_linked_def covers_def staked_by_def nominated_def split: if_splits)

lemma leave_nominators_cases:
  assumes T: "config_ok T" and inv: "stake_inv T other s"
    and call: "leave_nominators T origin s = (r, s')"
  obtains (fail) e where "r = Inl e" "s' = s"
    "\<And>n. ensure_signed T origin = Inr n \<Longrightarrow> Nominators s n = None"
  | (success) n m where "r = Inr ()" "ensure_signed T origin = Inr n"
      "Nominators s n = Some m" "balanced_with T other ((Nominators s)(n := None)) s'"
      "Nominators s' = (Nominators s)(n := None)" "Total s' = Total s - n_total m"
      "ExitQueue s' = ExitQueue s"
proof (cases "\<exists>n m. ensure_signed T origin = Inr n \<and> Nominators s n = Some m")
  case True
  then obtain n m where n: "ensure_signed T origin = Inr n" and m: "Nominators s n = Some m" by blast
  have "balanced_with T other ((Nominators s)(n \<mapsto> m)) s"
    using inv m by (simp add: balanced_with_inv map_upd_triv)
  from leave_each_balanced[OF T this] obtain t where t: "leave_each T n (n_nominations m) s = ok t"
    "balanced_with T other ((Nominators s)(n \<mapsto> \<lparr>n_nominations = [], n_total = 0\<rparr>)) t"
    "Nominators t = Nominators s" "ExitQueue t = ExitQueue s" "Total t = Total s - n_total m"
    by metis
  have eq: "(r, s') = ok (deposit_event (NominatorLeft n (n_total m)) (t\<lparr>Nominators := (Nominators t)(n := None)\<rparr>))"
    using call n m t(1) by (simp add: leave_nominators_def)
  have "balanced_with T other ((Nominators s)(n := None)) s'"
    using balanced_without[OF t(2)] eq by (simp add: balanced_with_def)
  with eq t show thesis by (intro success[OF _ n m]) simp_all
next
  case False
  then show thesis using call unfolding leave_nominators_def
    by (auto split: call_splits intro: fail)
qed

lemma leave_nominators_inv:
  assumes T: "config_ok T" and inv: "stake_inv T other s"
    and call: "leave_nominators T origin s = (r, s')"
  shows "stake_inv T other s'"
  using assms
proof (cases rule: leave_nominators_cases)
  case (success n m)
  with positive_remove[OF stake_invD(3)[OF inv]] show ?thesis
    by (simp add: balanced_with_inv positive_def)
qed (use inv in simp)

section \<open>Switching a nomination\<close>

text \<open>The call when the nominator does not yet nominate the new validator.\<close>

definition fresh_nomination :: "('o, 'c, 'a) config \<Rightarrow> 'o \<Rightarrow> 'a \<Rightarrow> ('c, 'a) storage \<Rightarrow> bool" where
  "fresh_nomination T origin c s \<longleftrightarrow>
     (case ensure_signed T origin of Inl _ \<Rightarrow> True | Inr n \<Rightarrow> nominated (Nominators s) n c = None)"

lemma fresh_nominationD:
  "fresh_nomination T origin c s \<Longrightarrow> ensure_signed T origin = Inr n \<Longrightarrow> Nominators s n = Some m
     \<Longrightarrow> amounts (n_nominations m) c = None"
  by (simp add: fresh_nomination_def nominated_def)

lemma switch_nomination_cases:
  assumes inv: "stake_inv T other s"
    and new: "fresh_nomination T origin new s"
    and call: "switch_nomination T origin old new s = (r, s')"
  obtains (fail) e where "r = Inl e" "s' = s"
  | (success) n m x v u v' u' m' where "r = Inr ()" "ensure_signed T origin = Inr n" "old \<noteq> new"
      "Nominators s n = Some m" "Candidates s old = Some v" "Candidates s new = Some u"
      "amounts (n_nominations m) old = Some x" "amounts (n_nominations m) new = None"
      "v' = v\<lparr>v_nominators := filter (\<lambda>b. owner b \<noteq> n) (v_nominators v), v_total := v_total v - x\<rparr>"
      "u' = u\<lparr>v_nominators := snd (set_insert bond_cmp \<lparr>owner = n, amount = x\<rparr> (v_nominators u)),
            v_total := v_total u + x\<rparr>"
      "m' = m\<lparr>n_nominations := snd (set_insert bond_cmp \<lparr>owner = new, amount = x\<rparr>
                      (filter (\<lambda>b. owner b \<noteq> old) (n_nominations m)))\<rparr>"
      "Candidates s' = (Candidates s)(old \<mapsto> v', new \<mapsto> u')" "Nominators s' = (Nominators s)(n \<mapsto> m')"
      "CandidatePool s' = activated new u' (v_total u') (activated old v' (v_total v') (CandidatePool s))"
      "ExitQueue s' = ExitQueue s" "Ledger s' = Ledger s" "Total s' = Total s"
proof -
  note w = stake_invD(1)[OF inv] and fresh = fresh_nominationD[OF new]
  have switched: thesis
    if n: "ensure_signed T origin = Inr n" and ne: "old \<noteq> new" and m: "Nominators s n = Some m"
      and v: "Candidates s old = Some v" and u: "Candidates s new = Some u"
      and x: "amounts (n_nominations m) old = Some x" for n m v u x
  proof -
    have backed: "amounts (v_nominators v) n = Some x" using edge_symmetric[OF w v m] x by simp
    note rm = rm_nominator_eq[OF well_linkedD(1)[OF w v] backed]
    note sw = swap_nomination_fresh(1)[OF well_linkedD(3)[OF w m] fresh[OF n m] ne x]
    show thesis
      by (rule success[OF _ n ne m v u x fresh[OF n m] refl refl refl])
         (use call n ne m v u sw in \<open>auto simp: switch_nomination_def rm add_nominator_eq update_if_active_eq\<close>)
  qed
  show thesis
  proof (cases "\<exists>n m v u x. ensure_signed T origin = Inr n \<and> old \<noteq> new \<and> Nominators s n = Some m \<and>
      Candidates s old = Some v \<and> Candidates s new = Some u \<and> amounts (n_nominations m) old = Some x")
    case False
    have "swap_nomination m old new = None"
      if "Nominators s n = Some m" "amounts (n_nominations m) old = None" for n m
      using that dropped_amount_eq[OF valid_nominatorD(1)[OF well_linkedD(3)[OF w that(1)]]]
      by (simp add: swap_nomination_def)
    with False have "s' = s \<and> (\<exists>e. r = Inl e)"
      using call unfolding switch_nomination_def by (auto split: call_splits)
    then show thesis using fail by blast
  qed (use switched in blast)
qed

lemma switch_nomination_inv:
  assumes inv: "stake_inv T other s"
    and new: "fresh_nomination T origin new s"
    and call: "switch_nomination T origin old new s = (r, s')"
  shows "stake_inv T other s'"
  using assms
proof (cases rule: switch_nomination_cases)
  case (success n m x v u v' u' m')
  note w = stake_invD(1)[OF inv] and cov = stake_invD(2)[OF inv]
  note val = well_linkedD(1)[OF w success(5)] and nom = well_linkedD(3)[OF w success(4)]
  note valu = well_linkedD(1)[OF w success(6)]
  note sw = swap_nomination_fresh[OF nom success(8,3,7)]
  have backed: "amounts (v_nominators v) n = Some x" "amounts (v_nominators u) n = None"
    using edge_symmetric[OF w success(5,4)] edge_symmetric[OF w success(6,4)] success(7,8) by simp_all
  define m1 where "m1 = m\<lparr>n_nominations := filter (\<lambda>b. owner b \<noteq> old) (n_nominations m), n_total := n_total m - x\<rparr>"
  have w1: "well_linked ((Candidates s)(old \<mapsto> v')) ((Nominators s)(n \<mapsto> m1))
      (activated old v' (v_total v') (CandidatePool s)) (ExitQueue s)"
    by (rule well_linked_edge[OF w success(5), where x = None])
       (use valid_filter_nominators[OF val backed(1)] valid_filter_nominations[OF nom success(7)] success(4)
        in \<open>simp_all add: success(9) m1_def amounts_filter nominated_def\<close>)
  have "well_linked (Candidates s') (Nominators s') (CandidatePool s') (ExitQueue s')"
    using well_linked_edge[OF w1, of new u u' n "Some x" m'] success(3,6) sw(2,3)
      valid_insert_nominator[OF valu backed(2), of x]
      insert_bond(2)[OF valid_validatorD(1)[OF valu] backed(2), of x]
    by (simp add: success(10-17) nominated_def m1_def amounts_filter)
  moreover have "covers (Currency T) other (Candidates s') (Nominators s') (Ledger s')"
    unfolding success(12,13,16) using success(4-6) sw(4)
    by (intro covers_cong[OF cov]) (auto simp: staked_by_def success(9-11))
  moreover have "positive_in (Nominators s')"
    unfolding success(13) using positiveD[OF stake_invD(3)[OF inv] success(4)] success(7)
    by (intro positive_update[OF stake_invD(3)[OF inv]])
       (auto simp: success(11) sw(3) split: if_splits)
  ultimately show ?thesis by (simp add: inv_defs)
qed (use inv in simp)

section \<open>Monetary policy\<close>

lemma set_staking_expectations_inv:
  "stake_inv T other s \<Longrightarrow> set_staking_expectations T origin e s = (r, s') \<Longrightarrow> stake_inv T other s'"
  by (auto simp: set_staking_expectations_def inv_defs split: call_splits)

lemma set_inflation_inv:
  "stake_inv T other s \<Longrightarrow> set_inflation T origin e s = Some (r, s') \<Longrightarrow> stake_inv T other s'"
  by (auto simp: set_inflation_def inv_defs split: call_splits)

end
