(* ===== verification/Stake_Exits.thy ===== *)
theory Stake_Exits
  imports Stake_Calls
begin

text \<open>
  The part of the round change that moves money: \<open>pay_stakers\<close> only creates free balance and
  leaves every stake alone, and \<open>execute_delayed_validator_exits\<close> removes exactly the candidates
  whose exit round has come, with all nominations they had, and returns what they had staked.
\<close>

section \<open>Payouts leave the stakes alone\<close>

definition pays_only :: "('o, 'c, 'a) config \<Rightarrow> ('c, 'a) storage \<Rightarrow> ('c, 'a) storage \<Rightarrow> bool" where
  "pays_only T s s' \<longleftrightarrow>
     Candidates s' = Candidates s \<and> Nominators s' = Nominators s \<and> CandidatePool s' = CandidatePool s \<and>
     ExitQueue s' = ExitQueue s \<and> Total s' = Total s \<and> Round s' = Round s \<and>
     Validators s' = Validators s \<and> Staked s' = Staked s \<and>
     (\<forall>a. reserved_balance (Currency T) (Ledger s') a = reserved_balance (Currency T) (Ledger s) a)"

lemma pays_only_refl: "pays_only T s s"
  by (simp add: pays_only_def)

lemma pays_only_trans: "pays_only T s t \<Longrightarrow> pays_only T t u \<Longrightarrow> pays_only T s u"
  by (simp add: pays_only_def)

lemma pays_only_inv: "pays_only T s s' \<Longrightarrow> stake_inv T other s \<Longrightarrow> stake_inv T other s'"
  by (simp add: pays_only_def inv_defs covers_def)

lemma mint_pays_only: "deposit_law (Currency T) \<Longrightarrow> pays_only T s (mint T x a s)"
  by (auto simp: mint_def pays_only_def deposit_law_def deposit_event_def split: sum.split)

lemma pay_nominators_pays_only:
  "deposit_law (Currency T) \<Longrightarrow> pays_only T s (pay_nominators T total_stake amt_due bs s)"
  by (induction bs arbitrary: s) (auto intro: pays_only_refl pays_only_trans mint_pays_only)

lemma take_at_stake_pays_only: "pays_only T s (snd (take_at_stake round val s))"
  by (simp add: take_at_stake_def pays_only_def)

lemma pay_validator_pays_only:
  assumes "deposit_law (Currency T)"
  shows "pays_only T s (pay_validator T round total_pts issuance entry s)"
proof -
  note paid = pays_only_trans[OF mint_pays_only[OF assms] pay_nominators_pays_only[OF assms]]
  have taken: "pays_only T s t" if "take_at_stake round val s = (x, t)" for val x t
    using take_at_stake_pays_only[of T s round val] that by simp
  show ?thesis
    by (auto simp: pay_validator_def pays_only_refl split: prod.split
        intro: pays_only_trans[OF taken mint_pays_only[OF assms]] pays_only_trans[OF taken paid])
qed

lemma fold_pays_only:
  "(\<And>x t. pays_only T t (f x t)) \<Longrightarrow> pays_only T s (fold f xs s)"
  by (induction xs arbitrary: s) (auto intro: pays_only_refl pays_only_trans)

lemma pay_stakers_pays_only:
  assumes "deposit_law (Currency T)"
  shows "pays_only T s (pay_stakers T next s)"
proof -
  let ?s1 = "s\<lparr>AwardedPts := (AwardedPts s)(next - BondDuration T := [])\<rparr>"
  have "pays_only T s ?s1" by (simp add: pays_only_def)
  then show ?thesis
    using fold_pays_only[of T "pay_validator T r p i" ?s1 es for r p i es, OF pay_validator_pays_only[OF assms]]
    by (auto simp: pay_stakers_def pays_only_refl intro: pays_only_trans)
qed

section \<open>Removing a candidate\<close>

text \<open>\<open>balanced C N E T other s\<close> is the invariant with the candidates, nominators and exit queue
  that the running loop stands for.\<close>

definition balanced ::
  "('a::linorder \<rightharpoonup> 'a Validator) \<Rightarrow> ('a, round_index) bond list \<Rightarrow> ('o, 'c, 'a) config \<Rightarrow> ('a \<Rightarrow> nat)
     \<Rightarrow> ('c, 'a) storage \<Rightarrow> bool" where
  "balanced C E T other s \<longleftrightarrow>
     well_linked C (Nominators s) (CandidatePool s) E \<and>
     covers (Currency T) other C (Nominators s) (Ledger s) \<and> positive_in (Nominators s)"

lemma balanced_stake_inv: "stake_inv T other s \<longleftrightarrow> balanced (Candidates s) (ExitQueue s) T other s"
  by (simp add: balanced_def inv_defs)

text \<open>A nominator whose recorded total is zero has no nomination left.\<close>

lemma zero_total_no_nominations:
  assumes "valid_nominator m" "nat_sum (n_nominations m) < 2 ^ 128"
    and "\<And>c x. amounts (n_nominations m) c = Some x \<Longrightarrow> x \<noteq> 0" and "n_total m = 0"
  shows "n_nominations m = []"
proof (cases "n_nominations m")
  case (Cons b bs)
  have "unat (sum_amounts (n_nominations m)) = nat_sum (n_nominations m)"
    using assms(2) by (intro unat_sum_list_exact) simp
  then have "nat_sum (n_nominations m) = 0" using assms(1,4) by (simp add: valid_nominator_def)
  then have "amount b = 0" using Cons by (simp add: unat_eq_0)
  moreover have "amounts (n_nominations m) (owner b) = Some (amount b)" using Cons by simp
  ultimately show ?thesis using assms(3) by blast
qed simp

lemma well_linked_drop_empty:
  "well_linked C (N(n \<mapsto> m)) P E \<Longrightarrow> n_nominations m = [] \<Longrightarrow> well_linked C (N(n := None)) P E"
  by (auto simp: well_linked_def nominated_def split: if_splits)

text \<open>Writing back a nominator after a withdrawal, or removing it when nothing is left.\<close>

lemma settle_nominator:
  assumes w: "well_linked C (N(n \<mapsto> m)) P E" and cov: "covers cur other C (N(n \<mapsto> m)) c"
    and pos: "positive_in N" and pos_m: "\<And>d x. amounts (n_nominations m) d = Some x \<Longrightarrow> x \<noteq> 0"
  defines "N' \<equiv> (if n_total m = 0 then N(n := None) else N(n \<mapsto> m))"
  shows "well_linked C N' P E" "covers cur other C N' c" "positive_in N'"
proof -
  have "nat_sum (n_nominations m) < 2 ^ 128" using covers_stake_le[OF cov, of n m] by simp
  then have empty: "n_total m = 0 \<Longrightarrow> n_nominations m = []"
    using zero_total_no_nominations[of m] pos_m well_linkedD(3)[OF w, of n m] by simp
  show "well_linked C N' P E" using w well_linked_drop_empty[OF w empty] by (simp add: N'_def)
  show "covers cur other C N' c"
    by (rule covers_cong[OF cov]) (use empty in \<open>auto simp: N'_def staked_by_def\<close>)
  show "positive_in N'"
    using positive_remove[OF pos] positive_update[OF pos pos_m] by (simp add: N'_def)
qed

definition release :: "('o, 'c, 'a::linorder) config \<Rightarrow> 'a \<Rightarrow> ('a, balance) bond \<Rightarrow> ('c, 'a) storage \<Rightarrow> ('c, 'a) storage" where
  "release T validator b s = release_nominations T validator [b] s"

lemma release_nominations_Cons:
  "release_nominations T validator (b # bs) s = release_nominations T validator bs (release T validator b s)"
  by (simp add: release_def)

lemma release_frame:
  "Candidates (release T c b s) = Candidates s" "CandidatePool (release T c b s) = CandidatePool s"
  "ExitQueue (release T c b s) = ExitQueue s" "Total (release T c b s) = Total s"
  "Round (release T c b s) = Round s"
  by (auto simp: release_def split: option.split)

lemma release_balanced:
  assumes T: "config_ok T" and bal: "balanced (C(c \<mapsto> v)) E T other s"
    and v: "v_nominators v = b # bs" "\<not> is_active v"
  shows "balanced (C(c \<mapsto> v\<lparr>v_nominators := bs, v_total := v_total v - amount b\<rparr>)) E T other (release T c b s)"
proof -
  define n x where "n = owner b" and "x = amount b"
  define v' where "v' = v\<lparr>v_nominators := bs, v_total := v_total v - x\<rparr>"
  let ?C = "C(c \<mapsto> v)" and ?C' = "C(c \<mapsto> v')" and ?N = "Nominators s"
  have w: "well_linked ?C ?N (CandidatePool s) E" and cov: "covers (Currency T) other ?C ?N (Ledger s)"
    and pos: "positive_in ?N" using bal by (auto simp: balanced_def)
  have Cc: "?C c = Some v" by simp
  note val = well_linkedD(1)[OF w Cc]
  have backed: "amounts (v_nominators v) n = Some x" using v(1) by (simp add: n_def x_def)
  then obtain m where m: "?N n = Some m"
    using no_nominator_no_backing[OF w Cc, of n] by (cases "?N n") auto
  note nom = well_linkedD(3)[OF w m]
  have mx: "amounts (n_nominations m) c = Some x" using edge_symmetric[OF w Cc m] backed by simp
  have tail: "bs = filter (\<lambda>b. owner b \<noteq> n) (v_nominators v)"
    using valid_validatorD(1)[OF val] unfolding v(1)
    by (auto simp: n_def image_iff intro!: filter_True[symmetric])
  define m' where "m' = m\<lparr>n_nominations := filter (\<lambda>b. owner b \<noteq> c) (n_nominations m), n_total := n_total m - x\<rparr>"
  have v': "valid_validator v'" "amounts (v_nominators v') = (amounts (v_nominators v))(n := None)"
    "v_state v' = v_state v" "v_id v' = v_id v"
    using valid_filter_nominators[OF val backed] by (simp_all add: v'_def tail amounts_filter)
  have w': "well_linked ?C' (?N(n \<mapsto> m')) (CandidatePool s) E"
    using well_linked_edge[OF w Cc v'(1,4,3,2), of m', unfolded fun_upd_upd] v(2) v'(3) mx m
      valid_filter_nominations[OF nom mx]
    by (simp add: m'_def amounts_filter nominated_def activated_def is_active_def)
  have cov': "covers (Currency T) other ?C' (?N(n \<mapsto> m')) (unreserve (Currency T) (Ledger s) n x)"
    using nat_sum_filter[OF valid_nominatorD(1)[OF nom] mx] m
    by (intro covers_unreserve[OF config_okD(2)[OF T] cov]) (auto simp: staked_by_def v'_def m'_def)
  have pos_m': "y \<noteq> 0" if "amounts (n_nominations m') d = Some y" for d y
    using positiveD[OF pos m, of d y] that by (auto simp: m'_def amounts_filter split: if_splits)
  have rm: "rm_nomination m c = Some (n_total m', m')"
    using mx by (simp add: rm_nomination_eq[OF nom] m'_def)
  define N' where "N' = (if n_total m' = 0 then ?N(n := None) else ?N(n \<mapsto> m'))"
  have "Nominators (release T c b s) = N'"
    "Ledger (release T c b s) = unreserve (Currency T) (Ledger s) n x"
    using m rm by (simp_all add: release_def n_def x_def N'_def put_nominator_def)
  with settle_nominator[OF w' cov' pos pos_m', folded N'_def] show ?thesis
    by (simp add: balanced_def release_frame v'_def x_def)
qed

declare release_nominations.simps(2) [simp del]

lemma release_nominations_frame:
  "Candidates (release_nominations T c bs s) = Candidates s \<and>
   CandidatePool (release_nominations T c bs s) = CandidatePool s \<and>
   ExitQueue (release_nominations T c bs s) = ExitQueue s \<and> Total (release_nominations T c bs s) = Total s \<and>
   Round (release_nominations T c bs s) = Round s"
proof (induction bs arbitrary: s)
  case (Cons b bs)
  then show ?case unfolding release_nominations_Cons by (simp add: release_frame)
qed simp

lemma release_nominations_balanced:
  assumes T: "config_ok T" and "balanced (C(c \<mapsto> v)) E T other s" "\<not> is_active v"
  shows "\<exists>t. balanced (C(c \<mapsto> v\<lparr>v_nominators := [], v_total := t\<rparr>)) E T other
    (release_nominations T c (v_nominators v) s)"
  using assms(2,3)
proof (induction "v_nominators v" arbitrary: v s)
  case Nil
  then have "v\<lparr>v_nominators := [], v_total := v_total v\<rparr> = v" by (cases v) simp
  with Nil show ?case by (metis release_nominations.simps(1))
next
  case (Cons b bs)
  let ?v = "v\<lparr>v_nominators := bs, v_total := v_total v - amount b\<rparr>"
  have "balanced (C(c \<mapsto> ?v)) E T other (release T c b s)"
    by (rule release_balanced[OF T Cons(3) Cons(2)[symmetric] Cons(4)])
  from Cons(1)[OF _ this] Cons(2,4) show ?case
    by (simp add: release_nominations_Cons is_active_def flip: Cons(2))
qed

lemma well_linked_remove_candidate:
  assumes w: "well_linked C N P E" and v: "C c = Some v" "v_nominators v = []" "\<not> is_active v"
  shows "well_linked (C(c := None)) N P (filter (\<lambda>b. owner b \<noteq> c) E)"
proof -
  note D = well_linkedD[OF w]
  have "backing (C(c := None)) d n = nominated N n d" for d n
    using D(4)[of d n] v by (auto simp: backing_def)
  moreover have "amounts P d = Option.bind ((C(c := None)) d) pool_entry" for d
    using D(6)[of d] v by (auto simp: pool_entry_def)
  moreover have "amounts (filter (\<lambda>b. owner b \<noteq> c) E) d = Option.bind ((C(c := None)) d) exit_entry" for d
    using D(8)[of d] by (auto simp: amounts_filter)
  ultimately show ?thesis using D unfolding well_linked_def by (auto simp: ascending_filter)
qed

lemma exit_candidate_None: "Candidates s c = None \<Longrightarrow> exit_candidate T c s = s"
  by (simp add: exit_candidate_def)

lemma exit_candidate_frame:
  assumes "Candidates s c = Some v"
  shows "Candidates (exit_candidate T c s) = (Candidates s)(c := None)"
    "CandidatePool (exit_candidate T c s) = CandidatePool s" "ExitQueue (exit_candidate T c s) = ExitQueue s"
    "Total (exit_candidate T c s) = Total s - v_total v" "Round (exit_candidate T c s) = Round s"
  using assms release_nominations_frame[of T c "v_nominators v" s]
  by (simp_all add: exit_candidate_def deposit_event_def)

lemma exit_candidate_balanced:
  assumes T: "config_ok T" and bal: "balanced (Candidates s) E T other s"
    and v: "Candidates s c = Some v" "\<not> is_active v"
  shows "balanced ((Candidates s)(c := None)) (filter (\<lambda>b. owner b \<noteq> c) E) T other (exit_candidate T c s)"
proof -
  let ?C = "Candidates s"
  define s1 where "s1 = release_nominations T c (v_nominators v) s"
  have "balanced (?C(c \<mapsto> v)) E T other s" using bal v(1) by (simp add: map_upd_triv)
  from release_nominations_balanced[OF T this v(2)] obtain t where
    s1: "balanced (?C(c \<mapsto> v\<lparr>v_nominators := [], v_total := t\<rparr>)) E T other s1"
    unfolding s1_def by blast
  let ?v = "v\<lparr>v_nominators := [], v_total := t\<rparr>"
  have id: "v_id v = c" using bal v(1) by (auto simp: balanced_def dest: well_linkedD(2))
  have w: "well_linked (?C(c \<mapsto> ?v)) (Nominators s1) (CandidatePool s1) E"
    using s1 by (simp add: balanced_def)
  have "well_linked (?C(c := None)) (Nominators s1) (CandidatePool s1) (filter (\<lambda>b. owner b \<noteq> c) E)"
    using well_linked_remove_candidate[OF w, of c ?v] v(2) by (simp add: is_active_def)
  moreover have "covers (Currency T) other (?C(c := None)) (Nominators s1)
      (unreserve (Currency T) (Ledger s1) c (v_bond v))"
    using s1 by (intro covers_unreserve[OF config_okD(2)[OF T], of other "?C(c \<mapsto> ?v)"])
       (auto simp: balanced_def staked_by_def)
  moreover have "Nominators (exit_candidate T c s) = Nominators s1"
    "CandidatePool (exit_candidate T c s) = CandidatePool s1"
    "Ledger (exit_candidate T c s) = unreserve (Currency T) (Ledger s1) c (v_bond v)"
    using v(1) id by (simp_all add: exit_candidate_def s1_def deposit_event_def)
  ultimately show ?thesis using s1 by (simp add: balanced_def)
qed

section \<open>The exits of a round\<close>

definition exit_due :: "round_index \<Rightarrow> 'a Validator \<Rightarrow> bool" where
  "exit_due next v \<longleftrightarrow> (case v_state v of Leaving r \<Rightarrow> r \<le> next | _ \<Rightarrow> False)"

definition without_exits :: "round_index \<Rightarrow> 'a set \<Rightarrow> ('a \<rightharpoonup> 'a Validator) \<Rightarrow> ('a \<rightharpoonup> 'a Validator)" where
  "without_exits next A C c = (case C c of None \<Rightarrow> None | Some v \<Rightarrow> if c \<in> A \<and> exit_due next v then None else Some v)"

lemma without_exits_empty: "without_exits next {} C = C"
  by (auto simp: without_exits_def fun_eq_iff split: option.split)

lemma without_exits_keep:
  "C a = Some v \<Longrightarrow> \<not> exit_due next v \<Longrightarrow> without_exits next (insert a A) C = without_exits next A C"
  by (auto simp: without_exits_def fun_eq_iff split: option.split)

lemma without_exits_drop:
  "C a = Some v \<Longrightarrow> exit_due next v \<Longrightarrow> without_exits next (insert a A) C = without_exits next A (C(a := None))"
  by (auto simp: without_exits_def fun_eq_iff split: option.split)

lemma run_exits_balanced:
  assumes T: "config_ok T"
  shows "balanced (Candidates s) (K @ xs) T other s \<Longrightarrow> run_exits T next xs s = (rest, s') \<Longrightarrow>
    Candidates s' = without_exits next (owner ` set xs) (Candidates s) \<and>
    balanced (without_exits next (owner ` set xs) (Candidates s)) (K @ rest) T other s'"
proof (induction xs arbitrary: K s rest s')
  case Nil
  then show ?case by (simp add: without_exits_empty)
next
  case (Cons x xs)
  let ?C = "Candidates s"
  have w: "well_linked ?C (Nominators s) (CandidatePool s) (K @ x # xs)"
    using Cons.prems(1) by (simp add: balanced_def)
  note D = well_linkedD[OF w]
  have dist: "owner x \<notin> owner ` set (K @ xs)" using ascending_distinct[OF D(7)] by auto
  have "amounts K (owner x) = None" using dist by (auto simp: view_None_iff)
  then have "amounts (K @ x # xs) (owner x) = Some (amount x)"
    by (simp add: view_append map_add_def)
  then obtain v where v: "?C (owner x) = Some v" "v_state v = Leaving (amount x)"
    using D(8)[of "owner x"] by (cases "?C (owner x)") (auto simp: exit_entry_def split: ValidatorStatus.splits)
  show ?case
  proof (cases "next < amount x")
    case True
    with Cons.prems(2) obtain rest' where "run_exits T next xs s = (rest', s')" "rest = x # rest'"
      by (auto split: prod.splits)
    with Cons.IH[of s "K @ [x]" rest' s'] Cons.prems(1) without_exits_keep[of ?C "owner x" v "next"] True v
    show ?thesis by (simp add: exit_due_def)
  next
    case False
    have "filter (\<lambda>b. owner b \<noteq> owner x) (K @ xs) = K @ xs"
      using dist by (intro filter_True) (metis image_eqI)
    then have "filter (\<lambda>b. owner b \<noteq> owner x) (K @ x # xs) = K @ xs" by simp
    with exit_candidate_balanced[OF T Cons.prems(1) v(1)] v
    have "balanced (Candidates (exit_candidate T (owner x) s)) (K @ xs) T other (exit_candidate T (owner x) s)"
      by (simp add: exit_candidate_frame(1)[OF v(1)] is_active_def)
    moreover have "run_exits T next xs (exit_candidate T (owner x) s) = (rest, s')"
      using Cons.prems(2) False by simp
    ultimately have "Candidates s' = without_exits next (owner ` set xs) (?C(owner x := None)) \<and>
        balanced (without_exits next (owner ` set xs) (?C(owner x := None))) (K @ rest) T other s'"
      using Cons.IH exit_candidate_frame(1)[OF v(1)] by metis
    with without_exits_drop[of ?C "owner x" v "next"] False v show ?thesis by (simp add: exit_due_def)
  qed
qed

lemma execute_delayed_exits:
  assumes T: "config_ok T" and inv: "stake_inv T other s"
    and s'_def: "s' = execute_delayed_validator_exits T next s"
  shows "stake_inv T other s'"
    "Candidates s' = without_exits next UNIV (Candidates s)"
proof -
  obtain rest t where run: "run_exits T next (ExitQueue s) s = (rest, t)" by (rule prod.exhaust)
  have C: "Candidates t = without_exits next (owner ` set (ExitQueue s)) (Candidates s)"
    and bal: "balanced (without_exits next (owner ` set (ExitQueue s)) (Candidates s)) rest T other t"
    using run_exits_balanced[OF T, of s "[]" "ExitQueue s" other "next" rest t] inv run
    by (simp_all add: balanced_stake_inv)
  have "ascending owner rest" using bal by (auto simp: balanced_def dest: well_linkedD(7))
  then have s': "s' = t\<lparr>ExitQueue := rest\<rparr>"
    using run by (simp add: s'_def execute_delayed_validator_exits_def bond_order.from_vec_ascending)
  then show "stake_inv T other s'" using bal by (simp add: balanced_stake_inv balanced_def C)
  have "c \<in> owner ` set (ExitQueue s)" if "Candidates s c = Some v" "exit_due next v" for c v
    using well_linkedD(8)[OF stake_invD(1)[OF inv], of c] that view_None_iff[of owner amount "ExitQueue s" c]
    by (auto simp: exit_due_def exit_entry_def split: ValidatorStatus.splits)
  then show "Candidates s' = without_exits next UNIV (Candidates s)"
    using s' C by (auto simp: without_exits_def fun_eq_iff split: option.split)
qed

end
