(* ===== verification/Stake_Election.thy ===== *)
theory Stake_Election
  imports Stake_Exits
begin

text \<open>
  The choice of the validators of a round by \<open>best_candidates_become_validators\<close>, and the round
  change as a whole: \<open>on_finalize\<close> never panics on a storage that satisfies the invariant and
  keeps the invariant; the chosen validators are the candidates with the most stake.
\<close>

text \<open>The contract of \<open>sort_unstable_by\<close> with a comparison of amounts: a permutation of the
  vector with ascending amounts, in an unspecified order where amounts are equal.\<close>

definition sort_law :: "('o, 'c, 'a) config \<Rightarrow> bool" where
  "sort_law T \<longleftrightarrow>
     (\<forall>xs. mset (sort_unstable_by_amount T xs) = mset xs \<and>
           sorted (map amount (sort_unstable_by_amount T xs)))"

lemma sort_lawD:
  assumes "sort_law T"
  shows "mset (sort_unstable_by_amount T xs) = mset xs"
    "sorted (map amount (sort_unstable_by_amount T xs))"
    "set (sort_unstable_by_amount T xs) = set xs"
    "length (sort_unstable_by_amount T xs) = length xs"
  using assms by (auto simp: sort_law_def dest: mset_eq_setD mset_eq_length)

section \<open>The snapshot of the chosen candidates\<close>

definition snapshots :: "round_index \<Rightarrow> ('c, 'a) storage \<Rightarrow> 'a list \<Rightarrow> round_index \<times> 'a \<rightharpoonup> 'a ValidatorSnapshot" where
  "snapshots next s as k =
     (if fst k = next \<and> snd k \<in> set as then map_option to_snapshot (Candidates s (snd k)) else AtStake s k)"

definition election_frame :: "('c, 'a) storage \<Rightarrow> ('c, 'a) storage \<Rightarrow> bool" where
  "election_frame s s' \<longleftrightarrow>
     Candidates s' = Candidates s \<and> Nominators s' = Nominators s \<and> CandidatePool s' = CandidatePool s \<and>
     ExitQueue s' = ExitQueue s \<and> Total s' = Total s \<and> Round s' = Round s \<and> Ledger s' = Ledger s \<and>
     Staked s' = Staked s \<and> Points s' = Points s \<and> AwardedPts s' = AwardedPts s \<and>
     InflationConfig s' = InflationConfig s"

abbreviation candidate_total :: "('c, 'a) storage \<Rightarrow> 'a \<Rightarrow> balance" where
  "candidate_total s c \<equiv> (case Candidates s c of None \<Rightarrow> 0 | Some v \<Rightarrow> v_total v)"

lemma snapshot_each_run:
  assumes "\<forall>a\<in>set as. Candidates s a \<noteq> None"
  shows "\<exists>s'. snapshot_each next as (n, t) s
        = Some ((n + of_nat (length as), t + sum_list (map (candidate_total s) as)), s') \<and>
      election_frame s s' \<and> AtStake s' = snapshots next s as"
  using assms
proof (induction as arbitrary: n t s)
  case Nil
  then show ?case by (auto simp: election_frame_def snapshots_def fun_eq_iff)
next
  case (Cons a as)
  then obtain v where v: "Candidates s a = Some v" by auto
  let ?s = "deposit_event (ValidatorChosen next a (v_total v))
      (s\<lparr>AtStake := (AtStake s)((next, a) \<mapsto> to_snapshot v)\<rparr>)"
  have "candidate_total ?s = candidate_total s" by (simp add: fun_eq_iff)
  moreover have "\<forall>a\<in>set as. Candidates ?s a \<noteq> None" using Cons.prems by simp
  ultimately obtain s' where s': "snapshot_each next as (n + 1, t + v_total v) ?s
        = Some ((n + 1 + of_nat (length as), t + v_total v + sum_list (map (candidate_total s) as)), s')"
      "election_frame ?s s'" "AtStake s' = snapshots next ?s as"
    using Cons.IH[of ?s "n + 1" "t + v_total v"] by (metis (no_types, lifting) )
  have "snapshots next ?s as = snapshots next s (a # as)"
    using v by (auto simp: snapshots_def fun_eq_iff)
  moreover have "election_frame s s'" using s'(2) by (simp add: election_frame_def deposit_event_def)
  ultimately show ?case using v s' by (simp add: add.assoc)
qed

section \<open>The best candidates\<close>

definition electable :: "('c, 'a) storage \<Rightarrow> 'a set" where
  "electable s = {c. \<exists>v. Candidates s c = Some v \<and> is_active v}"

lemma pool_candidate:
  assumes "linked s"
  shows "owner ` set (CandidatePool s) = electable s"
    "b \<in> set (CandidatePool s) \<Longrightarrow> amount b = candidate_total s (owner b)"
proof -
  have w: "well_linked (Candidates s) (Nominators s) (CandidatePool s) (ExitQueue s)"
    using assms by (simp add: linked_def)
  note pool = well_linkedD(5,6)[OF w]
  have "c \<in> owner ` set (CandidatePool s) \<longleftrightarrow> c \<in> electable s" for c
    using pool(2)[of c] view_None_iff[of owner amount "CandidatePool s" c]
    by (cases "Candidates s c") (auto simp: electable_def pool_entry_def split: if_splits)
  then show "owner ` set (CandidatePool s) = electable s" by (simp only: set_eq_iff simp_thms)
  show "amount b = candidate_total s (owner b)" if "b \<in> set (CandidatePool s)"
    using view_SomeI[OF ascending_distinct[OF pool(1)] that, of amount] pool(2)[of "owner b"]
    by (cases "Candidates s (owner b)") (auto simp: pool_entry_def split: if_splits)
qed

lemma top_candidates_electable:
  assumes "sort_law T" "linked s"
  shows "set (top_candidates T s) \<subseteq> electable s" "distinct (top_candidates T s)"
    "length (top_candidates T s) = min (unat (MaxValidators T)) (length (CandidatePool s))"
proof -
  let ?xs = "sort_unstable_by_amount T (CandidatePool s)"
  note S = sort_lawD[OF assms(1), of "CandidatePool s"]
  have "set (top_candidates T s) \<subseteq> owner ` set (CandidatePool s)"
    unfolding top_candidates_def using S(3) by (auto dest: in_set_takeD)
  then show "set (top_candidates T s) \<subseteq> electable s"
    by (simp only: pool_candidate(1)[OF assms(2)])
  have "ascending owner (CandidatePool s)"
    using assms(2) by (auto simp: linked_def dest: well_linkedD(5))
  then have "distinct (map owner ?xs)"
    using S(1) ascending_distinct by (metis mset_eq_imp_distinct_iff mset_map)
  then have "distinct (map owner (rev ?xs))" by (simp flip: rev_map)
  then show "distinct (top_candidates T s)"
    unfolding top_candidates_def take_map[symmetric] by (rule distinct_take)
  show "length (top_candidates T s) = min (unat (MaxValidators T)) (length (CandidatePool s))"
    by (simp add: top_candidates_def S(4) min.commute)
qed

lemma take_sorted_desc:
  assumes "sorted_wrt (\<ge>) (map f xs)" "x \<in> set (take n xs)" "y \<in> set (drop n xs)"
  shows "f y \<le> f x"
proof -
  have "sorted_wrt (\<ge>) (map f (take n xs) @ map f (drop n xs))"
    using assms(1) by (simp flip: map_append)
  with assms(2,3) show ?thesis by (auto simp: sorted_wrt_append)
qed

lemma top_candidates_best:
  assumes "sort_law T" "linked s" "c \<in> set (top_candidates T s)" "d \<in> electable s"
    and "d \<notin> set (top_candidates T s)"
  shows "candidate_total s d \<le> candidate_total s c"
proof -
  let ?n = "unat (MaxValidators T)" and ?xs = "rev (sort_unstable_by_amount T (CandidatePool s))"
  note S = sort_lawD[OF assms(1), of "CandidatePool s"]
  obtain x where x: "x \<in> set (take ?n ?xs)" "owner x = c"
    using assms(3) by (auto simp: top_candidates_def)
  have "d \<in> owner ` set (CandidatePool s)"
    using assms(4) by (simp only: pool_candidate(1)[OF assms(2)])
  then obtain y where y: "y \<in> set (CandidatePool s)" "owner y = d" by auto
  then have "y \<in> set (take ?n ?xs @ drop ?n ?xs)" using S(3) by simp
  then have drop: "y \<in> set (drop ?n ?xs)"
    using assms(5) y(2) unfolding set_append by (auto simp: top_candidates_def)
  have "sorted_wrt (\<ge>) (map amount ?xs)"
    using S(2) unfolding rev_map[symmetric] sorted_wrt_rev by simp
  from take_sorted_desc[OF this x(1) drop] have "amount y \<le> amount x" .
  moreover have "x \<in> set (CandidatePool s)" using in_set_takeD[OF x(1)] S(3) by simp
  ultimately show ?thesis
    using pool_candidate(2)[OF assms(2), of x] pool_candidate(2)[OF assms(2), of y] x(2) y by simp
qed

lemma best_candidates_run:
  assumes "sort_law T" "linked s"
  shows "\<exists>s'. best_candidates_become_validators T next s =
      Some ((of_nat (length (top_candidates T s)), sum_list (map (candidate_total s) (top_candidates T s))), s')
    \<and> election_frame s s' \<and> AtStake s' = snapshots next s (top_candidates T s)
    \<and> Validators s' = sort_vec ord_cmp (top_candidates T s)"
proof -
  have "\<forall>a\<in>set (top_candidates T s). Candidates s a \<noteq> None"
    using top_candidates_electable(1)[OF assms] by (auto simp: electable_def)
  from snapshot_each_run[OF this, of "next" 0 0] show ?thesis
    by (auto simp: best_candidates_become_validators_def election_frame_def)
qed

text \<open>The stored validators are found by the binary search of \<open>is_validator\<close>.\<close>

lemma sorted_validators:
  assumes "distinct vs"
  shows "ascending (\<lambda>a. a) (sort_vec ord_cmp vs)" "set (sort_vec ord_cmp vs) = set vs"
proof -
  have m: "mset (sort_vec ord_cmp vs) = mset vs" by (rule account_order.mset_sort_vec)
  then show "set (sort_vec ord_cmp vs) = set vs" by (rule mset_eq_setD)
  have "distinct (sort_vec ord_cmp vs)" using assms m mset_eq_imp_distinct_iff by blast
  with account_order.sorted_sort_vec[of vs] show "ascending (\<lambda>a. a) (sort_vec ord_cmp vs)"
    by (simp add: strict_sorted_iff)
qed

lemma is_validator_iff:
  assumes "ascending (\<lambda>a. a) (Validators s)"
  shows "is_validator s a \<longleftrightarrow> a \<in> set (Validators s)"
  using account_order.binary_search_iff[OF assms, of a]
  by (auto simp: is_validator_def split: sum.splits)

section \<open>The round change\<close>

lemma release_staked: "Staked (release T c b s) = Staked s"
  by (auto simp: release_def release_nominations.simps(2) put_nominator_def split: option.split)

lemma release_nominations_staked: "Staked (release_nominations T c bs s) = Staked s"
  by (induction bs arbitrary: s) (simp_all add: release_nominations_Cons release_staked)

lemma exit_candidate_staked: "Staked (exit_candidate T c s) = Staked s"
  by (simp add: exit_candidate_def release_nominations_staked deposit_event_def split: option.split)

lemma run_exits_staked: "run_exits T next xs s = (rest, s') \<Longrightarrow> Staked s' = Staked s"
  by (induction xs arbitrary: s rest) (auto simp: exit_candidate_staked split: if_splits prod.splits)

lemma execute_delayed_staked: "Staked (execute_delayed_validator_exits T next s) = Staked s"
  by (auto simp: execute_delayed_validator_exits_def dest: run_exits_staked split: prod.split)

lemma election_frame_inv: "election_frame s s' \<Longrightarrow> stake_inv T other s \<Longrightarrow> stake_inv T other s'"
  by (simp add: election_frame_def inv_defs)

lemma stake_inv_linked: "stake_inv T other s \<Longrightarrow> linked s"
  by (simp add: stake_inv_def)

lemma top_candidates_cong: "CandidatePool s' = CandidatePool s \<Longrightarrow> top_candidates T s' = top_candidates T s"
  by (simp add: top_candidates_def)

lemma next_round_run:
  assumes T: "config_ok T" "sort_law T" and inv: "stake_inv T other s"
  obtains s' where "next_round T n s = Some s'" "stake_inv T other s'" "Round s' = Round s + 1"
    "Candidates s' = without_exits (Round s + 1) UNIV (Candidates s)"
    "Validators s' = sort_vec ord_cmp (top_candidates T s')"
    "Staked s' = (Staked s)(Round s + 1 := Total s')"
    "\<And>a. a \<in> set (top_candidates T s') \<Longrightarrow>
       AtStake s' (Round s + 1, a) = map_option to_snapshot (Candidates s' a)"
proof -
  let ?next = "Round s + 1"
  let ?s1 = "pay_stakers T ?next s"
  let ?s2 = "execute_delayed_validator_exits T ?next ?s1"
  note pays = pay_stakers_pays_only[OF config_okD(3)[OF T(1)], of s ?next]
  note ex = execute_delayed_exits[OF T(1) pays_only_inv[OF pays inv] refl, of ?next]
  from best_candidates_run[OF T(2) stake_inv_linked[OF ex(1)], of ?next] obtain cnt tot s3 where
    s3: "best_candidates_become_validators T ?next ?s2 = Some ((cnt, tot), s3)"
    "election_frame ?s2 s3" "AtStake s3 = snapshots ?next ?s2 (top_candidates T ?s2)"
    "Validators s3 = sort_vec ord_cmp (top_candidates T ?s2)" by blast
  define s' where "s' = deposit_event (NewRound n ?next cnt tot)
      (s3\<lparr>Round := ?next, Staked := (Staked s3)(?next := Total s3)\<rparr>)"
  have frame: "Candidates s' = Candidates ?s2" "CandidatePool s' = CandidatePool ?s2"
    "Nominators s' = Nominators ?s2" "ExitQueue s' = ExitQueue ?s2" "Ledger s' = Ledger ?s2"
    "Total s' = Total s3" "AtStake s' = AtStake s3" "Validators s' = Validators s3" "Staked s3 = Staked ?s2"
    using s3(2) by (simp_all add: s'_def election_frame_def)
  note top = top_candidates_cong[OF frame(2), of T]
  have staked: "Staked ?s2 = Staked s"
    using pays execute_delayed_staked[of T ?next ?s1] by (simp add: pays_only_def)
  show thesis
  proof (rule that)
    show "next_round T n s = Some s'" using s3(1) by (simp add: next_round_def s'_def)
    show "stake_inv T other s'" using ex(1) by (simp add: inv_defs frame)
    show "Candidates s' = without_exits ?next UNIV (Candidates s)"
      using ex(2) pays by (simp add: frame pays_only_def)
    show "Validators s' = sort_vec ord_cmp (top_candidates T s')"
      using s3(4) by (simp add: frame top)
    show "Staked s' = (Staked s)(?next := Total s')"
      using staked frame by (simp add: s'_def deposit_event_def)
    show "AtStake s' (?next, a) = map_option to_snapshot (Candidates s' a)"
      if "a \<in> set (top_candidates T s')" for a
      using that s3(3) by (simp add: frame top snapshots_def)
  qed (simp add: s'_def)
qed

lemma on_finalize_cases:
  assumes T: "config_ok T" "sort_law T" "BlocksPerRound T \<noteq> 0" and inv: "stake_inv T other s"
  obtains (same) "n mod BlocksPerRound T \<noteq> 0" "on_finalize T n s = Some s"
  | (change) s' where "n mod BlocksPerRound T = 0" "on_finalize T n s = Some s'"
      "next_round T n s = Some s'" "stake_inv T other s'"
  using next_round_run[OF T(1,2) inv] T(3) that unfolding on_finalize_def by metis

end
