(* ===== verification/Stake_Rewards.thy ===== *)
theory Stake_Rewards
  imports Stake_Exits
begin

text \<open>
  How much a round pays out: the sum of all \<open>Rewarded\<close> events of \<open>pay_stakers\<close> is at most the
  issuance of the round, up to half a unit of rounding for every payment, because
  \<open>Perbill::from_rational_approximation\<close> rounds down and the product rounds to the nearest
  number. The second part is about the reward points that \<open>note_author\<close> books.
\<close>

section \<open>The sum of the rewards\<close>

fun reward_of :: "'a Event \<Rightarrow> nat" where
  "reward_of (Rewarded _ x) = unat x"
| "reward_of _ = 0"

definition minted :: "('c, 'a) storage \<Rightarrow> nat" where
  "minted s = sum_list (map reward_of (Events s))"

definition perbill_laws :: "perbill_ops \<Rightarrow> bool" where
  "perbill_laws P \<longleftrightarrow> from_rational_law P \<and> perbill_mul_law P"

definition valid_snapshot :: "'a ValidatorSnapshot \<Rightarrow> bool" where
  "valid_snapshot x \<longleftrightarrow> s_nominators x = [] \<or>
     unat (s_total x) = unat (s_bond x) + nat_sum (s_nominators x) \<and> s_total x \<noteq> 0 \<and> unat (s_fee x) \<le> billion"

definition snapshot_at :: "round_index \<Rightarrow> 'a \<Rightarrow> ('c, 'a) storage \<Rightarrow> 'a ValidatorSnapshot" where
  "snapshot_at round val s = (case AtStake s (round, val) of None \<Rightarrow> snapshot_default | Some x \<Rightarrow> x)"

definition amount_due :: "('o, 'c, 'a) config \<Rightarrow> reward_point \<Rightarrow> balance \<Rightarrow> reward_point \<Rightarrow> balance" where
  "amount_due T total_pts issuance pts =
     perbill_mul (PerbillOps T) (from_rational_u32 (PerbillOps T) pts total_pts) issuance"

lemma minted_frame [simp]:
  "minted (s\<lparr>AtStake := a\<rparr>) = minted s" "minted (s\<lparr>AwardedPts := w\<rparr>) = minted s"
  "minted (s\<lparr>Ledger := c\<rparr>) = minted s"
  by (simp_all add: minted_def)

lemma mint_minted:
  assumes "deposit_law (Currency T)"
  shows "minted (mint T x a s) \<le> minted s + unat x"
proof -
  have "minted (deposit_event (Rewarded a i) (s\<lparr>Ledger := c\<rparr>)) = minted s + unat x"
    if "deposit_into_existing (Currency T) (Ledger s) a x = Inr (c, i)" for c i
  proof -
    have "i = x" using assms that by (auto simp: deposit_law_def)
    then show ?thesis by (simp add: minted_def deposit_event_def)
  qed
  then show ?thesis by (auto simp: mint_def split: sum.split)
qed

lemma mint_frame [simp]: "AtStake (mint T x a s) = AtStake s"
  by (simp add: mint_def deposit_event_def split: sum.split prod.split)

lemma pay_nominators_frame [simp]: "AtStake (pay_nominators T t x bs s) = AtStake s"
  by (induction bs arbitrary: s) simp_all

lemma rational_le:
  assumes "perbill_laws P"
  shows "unat (from_rational_u128 P p q) \<le> billion" "unat (from_rational_u128 P p q) * unat q \<le> billion * unat p"
    "unat (from_rational_u32 P p' q') \<le> billion" "unat (from_rational_u32 P p' q') * unat q' \<le> billion * unat p'"
  using assms by (simp_all add: perbill_laws_def from_rational_law_def)

lemma mul_le:
  assumes "perbill_laws P" "unat p \<le> billion"
  shows "2 * billion * unat (perbill_mul P p x) \<le> 2 * (unat p * unat x) + billion"
    "perbill_mul P p x \<le> x"
proof -
  show le: "2 * billion * unat (perbill_mul P p x) \<le> 2 * (unat p * unat x) + billion"
    using assms perbill_mul_upper by (simp add: perbill_laws_def)
  have "unat p * unat x \<le> billion * unat x" using assms(2) by simp
  with le have "unat (perbill_mul P p x) \<le> unat x" by linarith
  then show "perbill_mul P p x \<le> x" by (simp add: word_le_nat_alt)
qed

abbreviation shares :: "perbill_ops \<Rightarrow> balance \<Rightarrow> ('a, balance) bond list \<Rightarrow> nat" where
  "shares P total_stake bs \<equiv> sum_list (map (\<lambda>b. unat (from_rational_u128 P (amount b) total_stake)) bs)"

lemma shares_le:
  "perbill_laws P \<Longrightarrow> shares P t bs * unat t \<le> billion * nat_sum bs"
proof (induction bs)
  case (Cons b bs)
  then show ?case using rational_le(2)[of P "amount b" t] by (simp add: add_mult_distrib distrib_left)
qed simp

lemma pay_nominators_minted:
  assumes "deposit_law (Currency T)" "perbill_laws (PerbillOps T)"
  shows "2 * billion * minted (pay_nominators T t x bs s)
    \<le> 2 * billion * minted s + 2 * (shares (PerbillOps T) t bs * unat x) + billion * length bs"
proof (induction bs arbitrary: s)
  case (Cons b bs)
  let ?p = "from_rational_u128 (PerbillOps T) (amount b) t"
  let ?due = "perbill_mul (PerbillOps T) ?p x"
  have "2 * billion * minted (mint T ?due (owner b) s) \<le> 2 * billion * minted s + 2 * billion * unat ?due"
    using mint_minted[OF assms(1), of ?due "owner b" s] by simp
  moreover have "2 * billion * unat ?due \<le> 2 * (unat ?p * unat x) + billion"
    by (rule mul_le(1)[OF assms(2) rational_le(1)[OF assms(2)]])
  ultimately show ?case using Cons.IH[of "mint T ?due (owner b) s"] by (simp add: add_mult_distrib)
qed simp

text \<open>The validator and its nominators share \<open>amt\<close> in proportion to their stakes.\<close>

lemma proportional_shares:
  assumes P: "perbill_laws P" and x: "valid_snapshot x" "s_nominators x \<noteq> []"
  shows "unat (from_rational_u128 P (s_bond x) (s_total x)) + shares P (s_total x) (s_nominators x) \<le> billion"
proof -
  let ?p = "unat (from_rational_u128 P (s_bond x) (s_total x))" and ?q = "shares P (s_total x) (s_nominators x)"
  have tot: "unat (s_total x) = unat (s_bond x) + nat_sum (s_nominators x)" "s_total x \<noteq> 0"
    using x by (auto simp: valid_snapshot_def)
  have "(?p + ?q) * unat (s_total x) \<le> billion * unat (s_bond x) + billion * nat_sum (s_nominators x)"
    unfolding add_mult_distrib
    by (rule add_mono[OF rational_le(2)[OF P] shares_le[OF P]])
  also have "\<dots> = billion * unat (s_total x)" by (simp add: tot(1) distrib_left)
  finally show ?thesis using tot(2) by (simp add: unat_gt_0)
qed

lemma unat_add_le: "unat (a + b :: 'n::len word) \<le> unat a + unat b"
  by (simp add: unat_word_ariths(1))

lemma cancel_billion:
  fixes d p q m m1 m2 a e l :: nat
  assumes "2 * billion * d \<le> 2 * p + billion + 2 * billion * e" "2 * billion * m1 \<le> 2 * billion * m + 2 * billion * d"
    and "2 * billion * m2 \<le> 2 * billion * m1 + 2 * q + billion * l" "p + q \<le> billion * a"
  shows "2 * m2 \<le> 2 * m + 2 * (a + e) + (l + 1)"
  using assms by simp

lemma pay_shares_minted:
  assumes T: "deposit_law (Currency T)" "perbill_laws (PerbillOps T)"
    and x: "valid_snapshot x" "s_nominators x \<noteq> []"
    and due: "unat due \<le> unat (perbill_mul (PerbillOps T)
        (from_rational_u128 (PerbillOps T) (s_bond x) (s_total x)) amt) + extra"
  shows "2 * minted (pay_nominators T (s_total x) amt (s_nominators x) (mint T due val s))
    \<le> 2 * minted s + 2 * (unat amt + extra) + (length (s_nominators x) + 1)"
proof -
  let ?p = "from_rational_u128 (PerbillOps T) (s_bond x) (s_total x)"
  let ?q = "shares (PerbillOps T) (s_total x) (s_nominators x)"
  have "2 * billion * unat due \<le> 2 * (unat ?p * unat amt) + billion + 2 * billion * extra"
    using due mul_le(1)[OF T(2) rational_le(1)[OF T(2)], of "s_bond x" "s_total x" amt] by linarith
  moreover have "2 * billion * minted (mint T due val s) \<le> 2 * billion * minted s + 2 * billion * unat due"
    using mint_minted[OF T(1), of due val s] by simp
  moreover note pay_nominators_minted[OF T, of "s_total x" amt "s_nominators x" "mint T due val s"]
  moreover have "unat ?p * unat amt + ?q * unat amt \<le> billion * unat amt"
    using mult_le_mono1[OF proportional_shares[OF T(2) x], of "unat amt"] by (simp add: add_mult_distrib)
  ultimately show ?thesis by (rule cancel_billion)
qed

lemma pay_validator_minted:
  assumes T: "deposit_law (Currency T)" "perbill_laws (PerbillOps T)"
    and x: "valid_snapshot (snapshot_at round val s)"
    and amt_def: "amt = amount_due T total_pts issuance pts"
  shows "2 * minted (pay_validator T round total_pts issuance (val, pts) s)
    \<le> 2 * minted s + 2 * unat amt + (length (s_nominators (snapshot_at round val s)) + 1)"
proof -
  define x where "x = snapshot_at round val s"
  define s1 where "s1 = s\<lparr>AtStake := (AtStake s)((round, val) := None)\<rparr>"
  let ?P = "PerbillOps T"
  let ?val = "from_rational_u128 ?P (s_bond x) (s_total x)" and ?c = "perbill_mul ?P (s_fee x) amt"
  have take: "take_at_stake round val s = (x, s1)"
    by (simp add: take_at_stake_def snapshot_at_def x_def s1_def)
  have m1: "minted s1 = minted s" by (simp add: s1_def)
  show ?thesis
  proof (cases "amt \<le> minimum_balance (Currency T) \<or> s_nominators x = []")
    case True
    then show ?thesis using mint_minted[OF T(1), of amt val s1] take m1
      by (auto simp: pay_validator_def amt_def amount_due_def x_def)
  next
    case False
    then have fee: "unat (s_fee x) \<le> billion" using x by (auto simp: x_def valid_snapshot_def)
    have c: "unat (amt - ?c) + unat ?c = unat amt"
      using mul_le(2)[OF T(2) fee, of amt] by (simp add: unat_sub word_le_nat_alt)
    note shared = pay_shares_minted[OF T x[folded x_def]]
    show ?thesis
    proof (cases "minimum_balance (Currency T) < ?c")
      case True
      with False have "pay_validator T round total_pts issuance (val, pts) s =
          pay_nominators T (s_total x) (amt - ?c) (s_nominators x) (mint T (perbill_mul ?P ?val (amt - ?c) + ?c) val s1)"
        by (simp add: pay_validator_def take amt_def amount_due_def)
      then show ?thesis
        using shared[OF _ unat_add_le, of "amt - ?c" ?c val s1] False c m1 by (simp add: x_def)
    next
      case few: False
      with False have "pay_validator T round total_pts issuance (val, pts) s =
          pay_nominators T (s_total x) amt (s_nominators x) (mint T (perbill_mul ?P ?val amt) val s1)"
        by (simp add: pay_validator_def take amt_def amount_due_def)
      then show ?thesis
        using shared[of "perbill_mul ?P ?val amt" amt 0 val s1] False m1 by (simp add: x_def)
    qed
  qed
qed

lemma pay_validator_AtStake:
  "k \<noteq> (round, fst e) \<Longrightarrow> AtStake (pay_validator T round total_pts issuance e s) k = AtStake s k"
  by (auto simp: pay_validator_def take_at_stake_def split: prod.split)

lemma fold_pay_validator_minted:
  assumes T: "deposit_law (Currency T)" "perbill_laws (PerbillOps T)"
  shows "distinct (map fst es) \<Longrightarrow> \<forall>e\<in>set es. valid_snapshot (snapshot_at round (fst e) s) \<Longrightarrow>
    2 * minted (fold (pay_validator T round total_pts issuance) es s)
      \<le> 2 * minted s + sum_list (map (\<lambda>e. 2 * unat (amount_due T total_pts issuance (snd e)) +
            (length (s_nominators (snapshot_at round (fst e) s)) + 1)) es)"
proof (induction es arbitrary: s)
  case (Cons e es)
  let ?s = "pay_validator T round total_pts issuance e s"
  let ?F = "\<lambda>s e. 2 * unat (amount_due T total_pts issuance (snd e)) +
            (length (s_nominators (snapshot_at round (fst e) s)) + 1)"
  have same: "snapshot_at round (fst e') ?s = snapshot_at round (fst e') s" if "e' \<in> set es" for e'
    using Cons.prems(1) that by (auto simp: snapshot_at_def pay_validator_AtStake image_iff)
  have eq: "map (?F ?s) es = map (?F s) es" using same by (intro map_cong) simp_all
  have "2 * minted ?s \<le> 2 * minted s + ?F s e"
    using pay_validator_minted[OF T, of round "fst e" s _ total_pts issuance "snd e"] Cons.prems(2) by simp
  moreover have "2 * minted (fold (pay_validator T round total_pts issuance) es ?s)
      \<le> 2 * minted ?s + sum_list (map (?F ?s) es)"
    using Cons.IH[of ?s] Cons.prems same by simp
  ultimately show ?case unfolding eq by simp
qed simp

lemma amounts_due_le:
  assumes P: "perbill_laws (PerbillOps T)" and "total_pts \<noteq> 0"
    and "sum_list (map (unat \<circ> snd) es) \<le> unat total_pts"
  shows "2 * sum_list (map (\<lambda>e. unat (amount_due T total_pts issuance (snd e))) es)
    \<le> 2 * unat issuance + length es"
proof -
  let ?p = "\<lambda>e. unat (from_rational_u32 (PerbillOps T) (snd e) total_pts)"
  have "sum_list (map ?p es) * unat total_pts \<le> billion * sum_list (map (unat \<circ> snd) es)"
  proof (induction es)
    case (Cons e es)
    then show ?case using rational_le(4)[OF P, of "snd e" total_pts] by (simp add: add_mult_distrib distrib_left)
  qed simp
  also have "\<dots> \<le> billion * unat total_pts" using assms(3) by simp
  finally have p: "sum_list (map ?p es) \<le> billion" using assms(2) by (simp add: unat_gt_0)
  have "2 * billion * sum_list (map (\<lambda>e. unat (amount_due T total_pts issuance (snd e))) es)
      \<le> 2 * (sum_list (map ?p es) * unat issuance) + billion * length es"
  proof (induction es)
    case (Cons e es)
    then show ?case using mul_le(1)[OF P rational_le(3)[OF P], of "snd e" total_pts issuance]
      by (simp add: amount_due_def add_mult_distrib distrib_left)
  qed simp
  also have "\<dots> \<le> 2 * (billion * unat issuance) + billion * length es"
    using mult_le_mono1[OF p, of "unat issuance"] by simp
  finally show ?thesis by linarith
qed

section \<open>The payout of a round\<close>

lemma pay_stakers_minted:
  assumes T: "deposit_law (Currency T)" "perbill_laws (PerbillOps T)" and "BondDuration T < next"
    and r: "r = next - BondDuration T"
    and es: "es = AwardedPts s r" "distinct (map fst es)" "sum_list (map (unat \<circ> snd) es) \<le> unat (Points s r)"
      "Points s r \<noteq> 0"
    and snap: "\<forall>e\<in>set es. valid_snapshot (snapshot_at r (fst e) s)"
  shows "2 * minted (pay_stakers T next s) \<le> 2 * minted s + 2 * unat (compute_issuance T s (Staked s r)) +
    sum_list (map (\<lambda>e. 2 + length (s_nominators (snapshot_at r (fst e) s))) es)"
proof -
  let ?es = "sort_key (\<lambda>e. storage_key T (fst e)) es" and ?s = "s\<lparr>AwardedPts := (AwardedPts s)(r := [])\<rparr>"
  let ?i = "compute_issuance T s (Staked s r)"
  have sums: "sum_list (map f ?es) = sum_list (map f es)" for f :: "_ \<Rightarrow> nat"
    by (simp flip: sum_mset_sum_list)
  have "distinct (map fst ?es)"
    using es(2) mset_eq_imp_distinct_iff[of "map fst ?es" "map fst es"] by simp
  moreover have same: "snapshot_at r a ?s = snapshot_at r a s" for a by (simp add: snapshot_at_def)
  moreover have run: "pay_stakers T next s = fold (pay_validator T r (Points s r) ?i) ?es ?s"
    using assms(3) by (simp add: pay_stakers_def r es(1))
  ultimately have "2 * minted (pay_stakers T next s) \<le> 2 * minted ?s +
      sum_list (map (\<lambda>e. 2 * unat (amount_due T (Points s r) ?i (snd e)) +
            (length (s_nominators (snapshot_at r (fst e) s)) + 1)) ?es)"
    using fold_pay_validator_minted[OF T, of ?es r ?s "Points s r" ?i] snap by (simp only: run same set_sort)
  then have paid: "2 * minted (pay_stakers T next s) \<le> 2 * minted s +
      sum_list (map (\<lambda>e. 2 * unat (amount_due T (Points s r) ?i (snd e)) +
            (length (s_nominators (snapshot_at r (fst e) s)) + 1)) es)"
    by (simp only: sums minted_frame)
  have split: "sum_list (map (\<lambda>e. 2 * f e + (g e + 1)) es) + length es
      = 2 * sum_list (map f es) + sum_list (map (\<lambda>e. 2 + g e) es)" for f g :: "_ \<Rightarrow> nat"
    by (induction es) simp_all
  show ?thesis
    using paid amounts_due_le[OF T(2) es(4) es(3), of ?i]
      split[of "\<lambda>e. unat (amount_due T (Points s r) ?i (snd e))" "\<lambda>e. length (s_nominators (snapshot_at r (fst e) s))"]
    by linarith
qed

section \<open>Reward points\<close>

lemma note_author_points:
  "awarded_pts (note_author a s) (Round s) b = awarded_pts s (Round s) b + (if b = a then 20 else 0)"
  "Points (note_author a s) (Round s) = Points s (Round s) + 20"
  by (auto simp: note_author_def awarded_pts_def update_conv')

lemma note_author_inv: "stake_inv T other s \<Longrightarrow> stake_inv T other (note_author a s)"
  by (simp add: note_author_def inv_defs)

end
