(* ===== verification/Stake_Machine.thy ===== *)
theory Stake_Machine
  imports Stake_Election Stake_Rewards
begin

text \<open>
  The stake pallet as a state machine: the calls of the \<open>decl_module!\<close> block as one data type
  with their dispatch, and the relation that says which steps a block can take the storage
  through: a dispatched call, the note of the block author, the end of a block, and a change of
  free balances by the rest of the runtime. The invariant holds in every storage that genesis
  and such steps can reach.
\<close>

section \<open>Machines with an invariant\<close>

locale invariant_machine =
  fixes initial :: "'s \<Rightarrow> bool"
    and step :: "'s \<Rightarrow> 's \<Rightarrow> bool"
    and inv :: "'s \<Rightarrow> bool"
  assumes initial_inv: "initial s \<Longrightarrow> inv s"
    and step_inv: "inv s \<Longrightarrow> step s s' \<Longrightarrow> inv s'"
begin

lemma steps_inv: "step\<^sup>*\<^sup>* s s' \<Longrightarrow> inv s \<Longrightarrow> inv s'"
  by (induction rule: rtranclp_induct) (auto intro: step_inv)

lemma reachable_inv: "initial s \<Longrightarrow> step\<^sup>*\<^sup>* s s' \<Longrightarrow> inv s'"
  using steps_inv initial_inv by blast

end

section \<open>Calls\<close>

datatype 'a stake_call =
    SetStakingExpectations "balance Range"
  | SetInflation "perbill Range"
  | JoinCandidates perbill balance
  | LeaveCandidates
  | GoOffline
  | GoOnline
  | CandidateBondMore balance
  | CandidateBondLess balance
  | JoinNominators 'a balance
  | LeaveNominators
  | NominateNew 'a balance
  | SwitchNomination 'a 'a
  | RevokeNomination 'a
  | NominatorBondMore 'a balance
  | NominatorBondLess 'a balance

fun dispatch_call ::
  "('o, 'c, 'a::linorder) config \<Rightarrow> 'o \<Rightarrow> 'a stake_call \<Rightarrow> ('c, 'a) storage \<Rightarrow> ('c, 'a) dispatch option" where
  "dispatch_call T origin (SetStakingExpectations e) s = Some (set_staking_expectations T origin e s)"
| "dispatch_call T origin (SetInflation r) s = set_inflation T origin r s"
| "dispatch_call T origin (JoinCandidates fee bond) s = Some (join_candidates T origin fee bond s)"
| "dispatch_call T origin LeaveCandidates s = Some (leave_candidates T origin s)"
| "dispatch_call T origin GoOffline s = Some (go_offline T origin s)"
| "dispatch_call T origin GoOnline s = Some (go_online T origin s)"
| "dispatch_call T origin (CandidateBondMore x) s = Some (candidate_bond_more T origin x s)"
| "dispatch_call T origin (CandidateBondLess x) s = Some (candidate_bond_less T origin x s)"
| "dispatch_call T origin (JoinNominators c x) s = Some (join_nominators T origin c x s)"
| "dispatch_call T origin LeaveNominators s = Some (leave_nominators T origin s)"
| "dispatch_call T origin (NominateNew c x) s = Some (nominate_new T origin c x s)"
| "dispatch_call T origin (SwitchNomination old new) s = Some (switch_nomination T origin old new s)"
| "dispatch_call T origin (RevokeNomination c) s = Some (revoke_nomination T origin c s)"
| "dispatch_call T origin (NominatorBondMore c x) s = Some (nominator_bond_more T origin c x s)"
| "dispatch_call T origin (NominatorBondLess c x) s = Some (nominator_bond_less T origin c x s)"

text \<open>The one call that the invariant excludes: a switch to a validator that the nominator
  already nominates.\<close>

fun admissible :: "('o, 'c, 'a) config \<Rightarrow> 'o \<Rightarrow> 'a stake_call \<Rightarrow> ('c, 'a) storage \<Rightarrow> bool" where
  "admissible T origin (SwitchNomination old new) s = fresh_nomination T origin new s"
| "admissible T origin _ s = True"

lemma dispatch_call_inv:
  assumes T: "config_ok T" and inv: "stake_inv T other s"
    and "admissible T origin call s" "dispatch_call T origin call s = Some (r, s')"
  shows "stake_inv T other s'"
  using assms(3,4)
proof (cases call)
  case (SwitchNomination old new)
  then show ?thesis using assms switch_nomination_inv[OF inv, of origin new old r s'] by simp
qed (use assms in \<open>auto intro: set_staking_expectations_inv[OF inv] set_inflation_inv[OF inv]
      join_candidates_inv[OF T inv] leave_candidates_inv[OF inv] go_offline_inv[OF inv] go_online_inv[OF inv]
      candidate_bond_more_inv[OF T inv] candidate_bond_less_inv[OF T inv] join_nominators_inv[OF T inv]
      leave_nominators_inv[OF T inv] nominate_new_inv[OF T inv] revoke_nomination_inv[OF T inv]
      nominator_bond_more_inv[OF T inv] nominator_bond_less_inv[OF T inv]\<close>)

section \<open>Steps of the pallet\<close>

inductive stake_step :: "('o, 'c, 'a::linorder) config \<Rightarrow> ('c, 'a) storage \<Rightarrow> ('c, 'a) storage \<Rightarrow> bool"
  for T where
  step_call: "admissible T origin call s \<Longrightarrow> dispatch_call T origin call s = Some (r, s') \<Longrightarrow> stake_step T s s'"
| step_author: "stake_step T s (note_author a s)"
| step_finalize: "on_finalize T n s = Some s' \<Longrightarrow> stake_step T s s'"
| step_environment:
    "(\<And>a. reserved_balance (Currency T) c a = reserved_balance (Currency T) (Ledger s) a)
       \<Longrightarrow> stake_step T s (s\<lparr>Ledger := c\<rparr>)"

inductive_cases stake_stepE: "stake_step T s s'"

lemma on_finalize_inv:
  assumes "config_ok T" "sort_law T" "stake_inv T other s" "on_finalize T n s = Some s'"
  shows "stake_inv T other s'"
  using on_finalize_cases[OF assms(1,2) _ assms(3), of n] assms(3,4)
  by (metis on_finalize_def option.distinct(1) option.inject)

lemma stake_step_inv:
  assumes T: "config_ok T" "sort_law T" and inv: "stake_inv T other s" and "stake_step T s s'"
  shows "stake_inv T other s'"
  using assms(4)
proof (cases rule: stake_step.cases)
  case (step_environment c)
  then show ?thesis using inv by (simp add: inv_defs covers_def)
qed (use dispatch_call_inv[OF T(1) inv] on_finalize_inv[OF T inv] note_author_inv[OF inv] in auto)

section \<open>Genesis\<close>

lemma initial_storage_inv:
  assumes "\<And>a. unat (reserved_balance (Currency T) c a) = other a"
  shows "stake_inv T other (initial_storage info c)"
  using assms by (simp add: inv_defs initial_storage_def well_linked_def backing_def nominated_def
      covers_def staked_by_def positive_in_def)

lemma genesis_stakers_inv:
  assumes T: "config_ok T"
  shows "stake_inv T other s \<Longrightarrow> genesis_stakers T stakers s = Some s' \<Longrightarrow> stake_inv T other s'"
proof (induction stakers arbitrary: s)
  case (Cons x rest)
  obtain actor opt_val bal where x: "x = (actor, opt_val, bal)" by (cases x)
  have "stake_inv T other (snd (join_nominators T origin v bal s))"
    "stake_inv T other (snd (join_candidates T origin 0 bal s))" for origin v
    using join_nominators_inv[OF T Cons.prems(1)] join_candidates_inv[OF T Cons.prems(1)] prod.collapse
    by metis+
  then show ?case using Cons by (auto simp: x split: if_splits option.splits)
qed simp

lemma genesis_build_run:
  assumes T: "config_ok T" "sort_law T" and inv: "stake_inv T other s"
    and "genesis_stakers T stakers s = Some s1"
  obtains s' where "genesis_build T stakers s = Some s'" "stake_inv T other s'" "Round s' = 1"
    "Validators s' = sort_vec ord_cmp (top_candidates T s')" "Staked s' 1 = Total s'"
proof -
  note inv1 = genesis_stakers_inv[OF T(1) inv assms(4)]
  from best_candidates_run[OF T(2) stake_inv_linked[OF inv1], of 1] obtain cnt tot s2 where
    s2: "best_candidates_become_validators T 1 s1 = Some ((cnt, tot), s2)" "election_frame s1 s2"
      "Validators s2 = sort_vec ord_cmp (top_candidates T s1)" by blast
  define s' where "s' = deposit_event (NewRound 0 1 cnt tot)
      (s2\<lparr>Round := 1, Staked := (Staked s2)(1 := Total s2)\<rparr>)"
  have pool: "CandidatePool s' = CandidatePool s1" using s2(2) by (simp add: s'_def election_frame_def)
  show thesis
  proof (rule that)
    show "genesis_build T stakers s = Some s'" using assms(4) s2(1) by (simp add: genesis_build_def s'_def)
    show "stake_inv T other s'" using election_frame_inv[OF s2(2) inv1] by (simp add: s'_def inv_defs)
    show "Validators s' = sort_vec ord_cmp (top_candidates T s')"
      unfolding top_candidates_cong[OF pool] using s2(3) by (simp add: s'_def)
  qed (simp_all add: s'_def deposit_event_def)
qed

text \<open>The storages a chain can start from, for a ledger in which \<open>other\<close> is reserved.\<close>

definition stake_genesis :: "('o, 'c, 'a::linorder) config \<Rightarrow> ('a \<Rightarrow> nat) \<Rightarrow> ('c, 'a) storage \<Rightarrow> bool" where
  "stake_genesis T other s \<longleftrightarrow>
     (\<exists>info c stakers. (\<forall>a. unat (reserved_balance (Currency T) c a) = other a) \<and>
        genesis_build T stakers (initial_storage info c) = Some s)"

lemma stake_genesis_inv:
  assumes "config_ok T" "sort_law T" "stake_genesis T other s"
  shows "stake_inv T other s"
proof -
  from assms(3) obtain info c stakers where
    c: "\<And>a. unat (reserved_balance (Currency T) c a) = other a"
    and b: "genesis_build T stakers (initial_storage info c) = Some s"
    by (auto simp: stake_genesis_def)
  note inv = initial_storage_inv[OF c, of info]
  from b obtain s1 where "genesis_stakers T stakers (initial_storage info c) = Some s1"
    by (auto simp: genesis_build_def split: option.splits)
  from genesis_build_run[OF assms(1,2) inv this] b show ?thesis by (metis option.inject)
qed

interpretation stake: invariant_machine
  "stake_genesis T other" "stake_step T" "\<lambda>s. config_ok T \<and> sort_law T \<longrightarrow> stake_inv T other s"
  by unfold_locales (auto intro: stake_genesis_inv stake_step_inv)

end
