(* ===== verification/Stake_Totals.thy ===== *)
theory Stake_Totals
  imports Stake_Machine
begin

text \<open>
  The storage value \<open>Total\<close>, which the pallet documents as the total locked by the pallet and
  snapshots as the stake of each round. It is the sum of the totals of all candidates as long as
  no bond is changed by \<open>candidate_bond_more\<close>, \<open>candidate_bond_less\<close>, \<open>nominator_bond_more\<close> or
  \<open>nominator_bond_less\<close>: these four calls change the total of a candidate and not \<open>Total\<close>.
\<close>

definition sum_totals :: "('a \<rightharpoonup> 'a Validator) \<Rightarrow> balance" where
  "sum_totals C = (\<Sum>c\<in>dom C. v_total (the (C c)))"

definition accounted :: "('c, 'a) storage \<Rightarrow> bool" where
  "accounted s \<longleftrightarrow> finite (dom (Candidates s)) \<and> Total s = sum_totals (Candidates s)"

lemma sum_totals_remove:
  assumes "finite (dom C)" "C c = Some v"
  shows "sum_totals (C(c := None)) = sum_totals C - v_total v"
proof -
  have "sum_totals C = v_total v + (\<Sum>d\<in>dom C - {c}. v_total (the (C d)))"
    unfolding sum_totals_def using assms by (subst sum.remove[of _ c]) auto
  moreover have "sum_totals (C(c := None)) = (\<Sum>d\<in>dom C - {c}. v_total (the (C d)))"
    unfolding sum_totals_def by (intro sum.cong) auto
  ultimately show ?thesis by simp
qed

lemma sum_totals_insert:
  assumes "finite (dom C)" "C c = None"
  shows "sum_totals (C(c \<mapsto> v)) = sum_totals C + v_total v"
proof -
  have "c \<notin> dom C" using assms(2) by auto
  moreover have "(\<Sum>d\<in>dom C. v_total (the ((C(c \<mapsto> v)) d))) = sum_totals C"
    unfolding sum_totals_def using \<open>c \<notin> dom C\<close> by (intro sum.cong) auto
  ultimately show ?thesis using assms(1) unfolding sum_totals_def by simp
qed

lemma sum_totals_update:
  assumes "finite (dom C)" "C c = Some v"
  shows "sum_totals (C(c \<mapsto> v')) = sum_totals C + (v_total v' - v_total v)"
proof -
  have "sum_totals ((C(c := None))(c \<mapsto> v')) = sum_totals (C(c := None)) + v_total v'"
    by (rule sum_totals_insert) (use assms in auto)
  with sum_totals_remove[OF assms] show ?thesis by simp
qed

lemma accounted_update:
  assumes "accounted s" "Candidates s c = Some v" "Candidates s' = (Candidates s)(c \<mapsto> v')"
    and "Total s' = Total s + (v_total v' - v_total v)"
  shows "accounted s'"
  using assms sum_totals_update[of "Candidates s" c v v'] by (simp add: accounted_def)

lemma accounted_same:
  "accounted s \<Longrightarrow> Candidates s' = Candidates s \<Longrightarrow> Total s' = Total s \<Longrightarrow> accounted s'"
  by (simp add: accounted_def)

lemma accounted_frame [simp]:
  "accounted (put_nominator a n s) = accounted s" "accounted (deposit_event e s) = accounted s"
  "accounted (s\<lparr>Nominators := N\<rparr>) = accounted s" "accounted (note_author b s) = accounted s"
  "accounted (s\<lparr>InflationConfig := i\<rparr>) = accounted s" "accounted (s\<lparr>ExitQueue := q\<rparr>) = accounted s"
  by (simp_all add: accounted_def note_author_def)

section \<open>Calls that keep the account\<close>

lemma join_candidates_accounted:
  assumes "accounted s" and call: "join_candidates T origin fee b s = (r, s')"
  shows "accounted s'"
  using call
proof (cases rule: join_candidates_cases)
  case (success acc c P)
  with assms(1) sum_totals_insert[of "Candidates s" acc "new_validator acc fee b"] show ?thesis
    by (simp add: accounted_def new_validator_def)
qed (use assms in simp)

lemma leave_candidates_accounted:
  assumes "accounted s" and call: "leave_candidates T origin s = (r, s')"
  shows "accounted s'"
  using call
proof (cases rule: leave_candidates_cases)
  case (success c v E)
  then show ?thesis by (intro accounted_update[OF assms(1) success(3,6)]) (simp add: set_leaving_def)
qed (use assms in simp)

lemma go_offline_accounted:
  assumes "accounted s" and call: "go_offline T origin s = (r, s')"
  shows "accounted s'"
  using call
proof (cases rule: go_offline_cases)
  case (success c v)
  then show ?thesis by (intro accounted_update[OF assms(1) success(3,5)]) (simp add: set_offline_def)
qed (use assms in simp)

lemma go_online_accounted:
  assumes "accounted s" and call: "go_online T origin s = (r, s')"
  shows "accounted s'"
  using call
proof (cases rule: go_online_cases)
  case (success c v P)
  then show ?thesis by (intro accounted_update[OF assms(1) success(3,7)]) (simp add: set_online_def)
qed (use assms in simp)

lemma join_nominators_accounted:
  assumes "accounted s" and call: "join_nominators T origin c x s = (r, s')"
  shows "accounted s'"
  using call
proof (cases rule: join_nominators_cases)
  case (success n v noms v' l)
  then show ?thesis by (intro accounted_update[OF assms(1) success(6,11)]) simp
qed (use assms in simp)

lemma nominate_new_accounted:
  assumes "accounted s" and call: "nominate_new T origin c x s = (r, s')"
  shows "accounted s'"
  using call
proof (cases rule: nominate_new_cases)
  case (success n m v m' noms v' l)
  then show ?thesis by (intro accounted_update[OF assms(1) success(5,12)]) simp
qed (use assms in simp)

lemma leaves_validator_accounted:
  assumes "accounted s" "nominator_leaves_validator T n c s = (r, s')"
  shows "accounted s'"
proof (cases "Candidates s c")
  case None
  with assms show ?thesis by (simp add: nominator_leaves_validator_def)
next
  case (Some v)
  show ?thesis
  proof (cases "dropped_amount n (v_nominators v)")
    case None
    with Some assms show ?thesis by (simp add: nominator_leaves_validator_def)
  next
    case x: (Some x)
    with Some assms show ?thesis
      by (intro accounted_update[OF assms(1) Some, of _ "v\<lparr>v_nominators := from_vec bond_cmp
            (filter (\<lambda>b. owner b \<noteq> n) (v_nominators v)), v_total := v_total v - x\<rparr>"])
         (auto simp: nominator_leaves_validator_def update_if_active_eq)
  qed
qed

lemma leave_each_accounted:
  "accounted s \<Longrightarrow> leave_each T n bs s = (r, s') \<Longrightarrow> accounted s'"
  by (induction bs arbitrary: s) (auto split: prod.splits sum.splits dest: leaves_validator_accounted)

lemma revoke_nomination_accounted:
  assumes "accounted s" "revoke_nomination T origin c s = (r, s')"
  shows "accounted s'"
  using assms unfolding revoke_nomination_def nominator_revokes_validator_def
  by (auto split: call_splits dest: leaves_validator_accounted)

lemma leave_nominators_accounted:
  assumes "accounted s" "leave_nominators T origin s = (r, s')"
  shows "accounted s'"
  using assms unfolding leave_nominators_def
  by (auto split: call_splits dest: leave_each_accounted)

lemma switch_nomination_accounted:
  assumes inv: "stake_inv T other s" and new: "fresh_nomination T origin new s" and acc: "accounted s"
    and call: "switch_nomination T origin old new s = (r, s')"
  shows "accounted s'"
  using inv new call
proof (cases rule: switch_nomination_cases)
  case (success n m x v u v' u' m')
  let ?t = "s\<lparr>Candidates := (Candidates s)(old \<mapsto> v'), Total := Total s - x\<rparr>"
  have "accounted ?t" by (rule accounted_update[OF acc success(5), of _ v']) (simp_all add: success(9))
  then show ?thesis
    by (rule accounted_update[of _ new u _ u']) (use success in simp_all)
qed (use acc in simp)

section \<open>The end of a round\<close>

lemma pays_only_accounted: "pays_only T s s' \<Longrightarrow> accounted s \<Longrightarrow> accounted s'"
  by (simp add: pays_only_def accounted_def)

lemma exit_candidate_accounted: "accounted s \<Longrightarrow> accounted (exit_candidate T c s)"
proof (cases "Candidates s c")
  case (Some v)
  then show "accounted s \<Longrightarrow> accounted (exit_candidate T c s)"
    by (simp add: accounted_def exit_candidate_frame[OF Some] sum_totals_remove)
qed (simp add: exit_candidate_None)

lemma run_exits_accounted: "run_exits T next xs s = (rest, s') \<Longrightarrow> accounted s \<Longrightarrow> accounted s'"
  by (induction xs arbitrary: s rest) (auto simp: exit_candidate_accounted split: if_splits prod.splits)

lemma execute_delayed_accounted: "accounted s \<Longrightarrow> accounted (execute_delayed_validator_exits T next s)"
  by (cases "run_exits T next (ExitQueue s) s")
     (auto simp: execute_delayed_validator_exits_def dest: run_exits_accounted)

lemma snapshot_each_frame:
  "snapshot_each next as acc s = Some (res, s') \<Longrightarrow> Candidates s' = Candidates s \<and> Total s' = Total s"
  by (induction as arbitrary: acc s) (auto split: option.splits)

lemma on_finalize_accounted:
  assumes "config_ok T" "accounted s" "on_finalize T n s = Some s'"
  shows "accounted s'"
proof -
  let ?s = "execute_delayed_validator_exits T (Round s + 1) (pay_stakers T (Round s + 1) s)"
  have "accounted ?s"
    using pays_only_accounted[OF pay_stakers_pays_only[OF config_okD(3)[OF assms(1)]] assms(2)]
    by (rule execute_delayed_accounted)
  then show ?thesis
    using assms(2,3) unfolding on_finalize_def next_round_def best_candidates_become_validators_def
    by (auto split: if_splits option.splits simp: accounted_def dest!: snapshot_each_frame)
qed

section \<open>Runs without changes of bonds\<close>

fun changes_bond :: "'a stake_call \<Rightarrow> bool" where
  "changes_bond (CandidateBondMore _) = True"
| "changes_bond (CandidateBondLess _) = True"
| "changes_bond (NominatorBondMore _ _) = True"
| "changes_bond (NominatorBondLess _ _) = True"
| "changes_bond _ = False"

lemma dispatch_call_accounted:
  assumes inv: "stake_inv T other s" and "admissible T origin call s" and acc: "accounted s"
    and "\<not> changes_bond call" "dispatch_call T origin call s = Some (r, s')"
  shows "accounted s'"
proof -
  have policy: "accounted s'" if "set_staking_expectations T origin e s = (r, s')" for e
    using that acc by (auto simp: set_staking_expectations_def accounted_def split: call_splits)
  have policy': "accounted s'" if "set_inflation T origin e s = Some (r, s')" for e
    using that acc by (auto simp: set_inflation_def accounted_def split: call_splits)
  show ?thesis
    using assms(2,4,5)
    by (cases call) (auto intro: policy policy' join_candidates_accounted[OF acc] leave_candidates_accounted[OF acc]
        go_offline_accounted[OF acc] go_online_accounted[OF acc] join_nominators_accounted[OF acc]
        leave_nominators_accounted[OF acc] nominate_new_accounted[OF acc] revoke_nomination_accounted[OF acc]
        switch_nomination_accounted[OF inv _ acc])
qed

inductive steady_step :: "('o, 'c, 'a::linorder) config \<Rightarrow> ('c, 'a) storage \<Rightarrow> ('c, 'a) storage \<Rightarrow> bool"
  for T where
  steady_call: "admissible T origin call s \<Longrightarrow> \<not> changes_bond call \<Longrightarrow>
     dispatch_call T origin call s = Some (r, s') \<Longrightarrow> steady_step T s s'"
| steady_author: "steady_step T s (note_author a s)"
| steady_finalize: "on_finalize T n s = Some s' \<Longrightarrow> steady_step T s s'"

lemma steady_is_step: "steady_step T s s' \<Longrightarrow> stake_step T s s'"
  by (auto elim!: steady_step.cases intro: stake_step.intros)

lemma steady_step_accounted:
  assumes "config_ok T" "stake_inv T other s" "accounted s" "steady_step T s s'"
  shows "accounted s'"
  using assms(4)
  by (cases rule: steady_step.cases)
     (use assms(1-3) in \<open>auto intro: dispatch_call_accounted on_finalize_accounted\<close>)

lemma genesis_stakers_accounted:
  "accounted s \<Longrightarrow> genesis_stakers T stakers s = Some s' \<Longrightarrow> accounted s'"
proof (induction stakers arbitrary: s)
  case (Cons x rest)
  obtain actor opt_val bal where x: "x = (actor, opt_val, bal)" by (cases x)
  have "accounted (snd (join_nominators T origin v bal s))"
    "accounted (snd (join_candidates T origin 0 bal s))" for origin v
    using join_nominators_accounted[OF Cons.prems(1)] join_candidates_accounted[OF Cons.prems(1)] prod.collapse
    by metis+
  then show ?case using Cons by (auto simp: x split: if_splits option.splits)
qed simp

lemma stake_genesis_accounted:
  assumes "stake_genesis T other s"
  shows "accounted s"
proof -
  from assms obtain info c stakers where b: "genesis_build T stakers (initial_storage info c) = Some s"
    by (auto simp: stake_genesis_def)
  obtain s1 where s1: "genesis_stakers T stakers (initial_storage info c) = Some s1"
    using b by (auto simp: genesis_build_def split: option.splits)
  have "accounted (initial_storage info c)"
    by (simp add: accounted_def initial_storage_def sum_totals_def)
  then have "accounted s1" using s1 by (rule genesis_stakers_accounted)
  with b s1 show ?thesis
    unfolding genesis_build_def best_candidates_become_validators_def
    by (auto split: option.splits simp: accounted_def dest!: snapshot_each_frame)
qed

interpretation steady: invariant_machine
  "\<lambda>s. stake_genesis T other s \<and> config_ok T \<and> sort_law T" "steady_step T"
  "\<lambda>s. config_ok T \<and> sort_law T \<and> stake_inv T other s \<and> accounted s"
  by unfold_locales
     (auto intro: stake_genesis_inv stake_genesis_accounted stake_step_inv steady_is_step steady_step_accounted)

end
