(* ===== verification/Stake_Example.thy ===== *)
theory Stake_Example
  imports Stake_Totals
begin

text \<open>
  A concrete configuration on which the properties of the stake pallet are instantiated: the
  constants of the mock runtime (\<^verbatim>\<open>src/pallets/stake/src/mock.rs\<close>), a ledger with free and
  reserved balances and a total issuance, \<open>Perbill\<close> arithmetic on natural numbers, and a sort by
  amount. The lemmas show that it satisfies the contracts of the parameters.
\<close>

section \<open>A ledger\<close>

record 'a ledger =
  free_of :: "'a \<Rightarrow> balance"
  reserved_of :: "'a \<Rightarrow> balance"
  issued :: balance

definition ledger_reserve :: "'a ledger \<Rightarrow> 'a \<Rightarrow> balance \<Rightarrow> dispatch_error + 'a ledger" where
  "ledger_reserve l a v =
     (if free_of l a < v then Inl (ModuleError ''InsufficientBalance'')
      else if reserved_of l a + v < reserved_of l a then Inl (OtherError ''Overflow'')
      else Inr (l\<lparr>free_of := (free_of l)(a := free_of l a - v),
                  reserved_of := (reserved_of l)(a := reserved_of l a + v)\<rparr>))"

definition ledger_unreserve :: "'a ledger \<Rightarrow> 'a \<Rightarrow> balance \<Rightarrow> 'a ledger" where
  "ledger_unreserve l a v =
     (let x = min v (reserved_of l a)
      in l\<lparr>free_of := (free_of l)(a := free_of l a + x),
           reserved_of := (reserved_of l)(a := reserved_of l a - x)\<rparr>)"

definition ledger_deposit :: "'a ledger \<Rightarrow> 'a \<Rightarrow> balance \<Rightarrow> dispatch_error + 'a ledger \<times> balance" where
  "ledger_deposit l a v =
     (if free_of l a = 0 \<and> reserved_of l a = 0 then Inl (ModuleError ''DeadAccount'')
      else Inr (l\<lparr>free_of := (free_of l)(a := free_of l a + v), issued := issued l + v\<rparr>, v))"

definition mock_currency :: "('a ledger, 'a) currency" where
  "mock_currency =
     \<lparr>free_balance = free_of, reserved_balance = reserved_of, total_issuance = issued,
      minimum_balance = 1, reserve = ledger_reserve, unreserve = ledger_unreserve,
      deposit_into_existing = ledger_deposit\<rparr>"

lemma mock_currency_laws: "currency_laws mock_currency"
proof -
  have "reserve_law mock_currency"
    by (auto simp: reserve_law_def mock_currency_def ledger_reserve_def unat_plus_simple[symmetric] not_less split: if_splits)
  moreover have "unreserve_law mock_currency"
    by (auto simp: unreserve_law_def mock_currency_def ledger_unreserve_def unat_sub min_def word_le_nat_alt)
  moreover have "deposit_law mock_currency"
    by (auto simp: deposit_law_def mock_currency_def ledger_deposit_def split: if_splits)
  ultimately show ?thesis by (simp add: currency_laws_def)
qed

section \<open>Perbill arithmetic\<close>

definition nat_ratio :: "nat \<Rightarrow> nat \<Rightarrow> u32" where
  "nat_ratio p q = of_nat (min billion (billion * p div max 1 q))"

definition nat_mul :: "u32 \<Rightarrow> balance \<Rightarrow> balance" where
  "nat_mul p x = of_nat ((2 * (unat p * unat x) + billion) div (2 * billion))"

definition mock_perbill :: perbill_ops where
  "mock_perbill =
     \<lparr>from_parts = (\<lambda>p. min p 1000000000), from_rational_u32 = (\<lambda>p q. nat_ratio (unat p) (unat q)),
      from_rational_u128 = (\<lambda>p q. nat_ratio (unat p) (unat q)), perbill_mul = nat_mul\<rparr>"

lemma unat_nat_ratio: "unat (nat_ratio p q) = min billion (billion * p div max 1 q)"
  unfolding nat_ratio_def by (intro of_nat_inverse) (simp_all add: min_def)

lemma nat_ratio_le: "unat (nat_ratio p q) \<le> billion \<and> unat (nat_ratio p q) * q \<le> billion * p"
proof -
  have "billion * p div max 1 q * q \<le> billion * p"
    by (cases "q = 0") (auto simp: max_def)
  then have "unat (nat_ratio p q) * q \<le> billion * p"
    unfolding unat_nat_ratio by (meson le_trans min.cobounded2 mult_le_mono1)
  then show ?thesis by (simp add: unat_nat_ratio)
qed

lemma unat_nat_mul:
  assumes "unat p \<le> billion"
  shows "unat (nat_mul p x) = (2 * (unat p * unat x) + billion) div (2 * billion)"
proof -
  have "unat p * unat x \<le> billion * unat x" using assms by simp
  then have "(2 * (unat p * unat x) + billion) div (2 * billion) \<le> (2 * billion * unat x + billion) div (2 * billion)"
    by (intro div_le_mono) simp
  also have "\<dots> = unat x" by simp
  also have "\<dots> < 2 ^ 128" using unsigned_less[of x] by simp
  finally show ?thesis unfolding nat_mul_def by (intro of_nat_inverse) simp_all
qed

lemma mock_perbill_laws: "perbill_laws mock_perbill" "from_parts_law mock_perbill"
proof -
  have "perbill_mul_law mock_perbill"
    unfolding perbill_mul_law_def mock_perbill_def by (auto simp: unat_nat_mul)
  then show "perbill_laws mock_perbill"
    using nat_ratio_le by (simp add: perbill_laws_def from_rational_law_def mock_perbill_def)
  show "from_parts_law mock_perbill"
    by (auto simp: from_parts_law_def mock_perbill_def min_def word_le_nat_alt)
qed

section \<open>The mock runtime\<close>

text \<open>An origin is the signing account, or \<open>None\<close> for root.\<close>

definition mock :: "(nat option, nat ledger, nat) config" where
  "mock =
     \<lparr>ensure_signed = (\<lambda>org. case org of None \<Rightarrow> Inl (OtherError ''BadOrigin'') | Some a \<Rightarrow> Inr a),
      SetMonetaryPolicyOrigin = (\<lambda>org. case org of None \<Rightarrow> Inr () | Some _ \<Rightarrow> Inl (OtherError ''BadOrigin'')),
      signed_origin = Some, Currency = mock_currency, PerbillOps = mock_perbill, storage_key = (\<lambda>a. a),
      sort_unstable_by_amount = sort_key amount, BlocksPerRound = 5, BondDuration = 2, MaxValidators = 5,
      MaxNominatorsPerValidator = 4, MaxValidatorsPerNominator = 4, MaxFee = 500000000,
      MinValidatorStk = 10, MinNomination = 3, MinNominatorStk = 5\<rparr>"

lemma mock_ok: "config_ok mock" "sort_law mock"
  using mock_currency_laws by (simp_all add: config_ok_def mock_def sort_law_def)

lemma mock_sel [simp]:
  "ensure_signed mock (Some a) = Inr a" "BlocksPerRound mock = 5" "BondDuration mock = 2"
  "MaxValidators mock = 5" "Currency mock = mock_currency" "PerbillOps mock = mock_perbill"
  "MaxNominatorsPerValidator mock = 4"
  by (simp_all add: mock_def)

definition mock_inflation :: InflationInfo where
  "mock_inflation = \<lparr>expect = \<lparr>r_min = 700, r_ideal = 700, r_max = 700\<rparr>,
     round_rates = \<lparr>r_min = 50000000, r_ideal = 50000000, r_max = 50000000\<rparr>\<rparr>"

definition mock_ledger :: "nat ledger" where
  "mock_ledger = \<lparr>free_of = (\<lambda>a. if a < 20 then 100 else 0), reserved_of = (\<lambda>_. 0), issued = 2000\<rparr>"

definition demo_start :: "(nat ledger, nat) storage" where
  "demo_start = initial_storage mock_inflation mock_ledger"

definition demo_stakers :: "(nat \<times> nat option \<times> balance) list" where
  "demo_stakers = [(2, None, 20), (3, None, 30), (4, Some 2, 10), (5, Some 3, 12)]"

text \<open>The storage after the genesis build with two candidates and two nominators.\<close>

definition demo :: "(nat ledger, nat) storage" where
  "demo =
     \<lparr>Round = 1,
      Nominators = [4 \<mapsto> \<lparr>n_nominations = [\<lparr>owner = 2, amount = 10\<rparr>], n_total = 10\<rparr>,
                    5 \<mapsto> \<lparr>n_nominations = [\<lparr>owner = 3, amount = 12\<rparr>], n_total = 12\<rparr>],
      Candidates = [2 \<mapsto> \<lparr>v_id = 2, v_fee = 0, v_bond = 20,
                        v_nominators = [\<lparr>owner = 4, amount = 10\<rparr>], v_total = 30, v_state = Active\<rparr>,
                    3 \<mapsto> \<lparr>v_id = 3, v_fee = 0, v_bond = 30,
                        v_nominators = [\<lparr>owner = 5, amount = 12\<rparr>], v_total = 42, v_state = Active\<rparr>],
      Validators = [2, 3], Total = 72,
      CandidatePool = [\<lparr>owner = 2, amount = 30\<rparr>, \<lparr>owner = 3, amount = 42\<rparr>], ExitQueue = [],
      AtStake = [(1, 3) \<mapsto> \<lparr>s_fee = 0, s_bond = 30, s_nominators = [\<lparr>owner = 5, amount = 12\<rparr>], s_total = 42\<rparr>,
                 (1, 2) \<mapsto> \<lparr>s_fee = 0, s_bond = 20, s_nominators = [\<lparr>owner = 4, amount = 10\<rparr>], s_total = 30\<rparr>],
      Staked = (\<lambda>_. 0)(1 := 72), InflationConfig = mock_inflation, Points = (\<lambda>_. 0), AwardedPts = (\<lambda>_. []),
      Ledger = \<lparr>free_of = (\<lambda>a. if a < 20 then 100 else 0)(2 := 80, 3 := 70, 4 := 90, 5 := 88),
                reserved_of = (\<lambda>_. 0)(2 := 20, 3 := 30, 4 := 10, 5 := 12), issued = 2000\<rparr>,
      Events = [JoinedValidatorCandidates 2 20 20, JoinedValidatorCandidates 3 30 50,
                ValidatorNominated 4 10 2 30, NominatorJoined 4 10, ValidatorNominated 5 12 3 42,
                NominatorJoined 5 12, ValidatorChosen 1 3 42, ValidatorChosen 1 2 30, NewRound 0 1 2 72]\<rparr>"

section \<open>Running the model\<close>

lemmas [running] =
  set_insert_def set_remove_def set_contains_def binary_search_def binary_search_by_def
  bsearch_loop.simps bond_cmp_def ord_cmp_def from_vec_def from_sorted_set_def new_set_def from_owner_def
  mock_def mock_currency_def ledger_reserve_def ledger_unreserve_def ledger_deposit_def
  mock_ledger_def mock_inflation_def demo_start_def initial_storage_def demo_stakers_def
  is_candidate_def is_nominator_def is_validator_def put_candidate_def put_nominator_def deposit_event_def
  update_if_active_def update_active_def is_active_def is_leaving_def
  new_validator_def new_nominator_def bond_more_def bond_less_def rm_nominator_def add_nominator_def
  update_nominator_def inc_nominator_def dec_nominator_def set_offline_def set_online_def set_leaving_def
  to_snapshot_def add_nomination_def dropped_amount_def rm_nomination_def swap_nomination_def
  inc_nomination_def dec_nomination_def
  nominator_joins_validator_def nominator_leaves_validator_def nominator_revokes_validator_def
  join_candidates_def leave_candidates_def go_offline_def go_online_def candidate_bond_more_def
  candidate_bond_less_def join_nominators_def leave_nominators_def nominate_new_def
  switch_nomination_def revoke_nomination_def nominator_bond_more_def nominator_bond_less_def
  genesis_build_def best_candidates_become_validators_def top_candidates_def

lemma demo_start_inv: "stake_inv mock (\<lambda>_. 0) demo_start"
  unfolding demo_start_def by (rule initial_storage_inv) (simp add: mock_def mock_currency_def mock_ledger_def)

lemma demo_build: "genesis_build mock demo_stakers demo_start = Some demo"
  by (simp add: running demo_def)

lemma demo_genesis: "stake_genesis mock (\<lambda>_. 0) demo"
proof -
  have "\<forall>a. unat (reserved_balance (Currency mock) mock_ledger a) = 0"
    by (simp add: mock_def mock_currency_def mock_ledger_def)
  then show ?thesis using demo_build unfolding stake_genesis_def demo_start_def by blast
qed

lemma demo_inv: "stake_inv mock (\<lambda>_. 0) demo"
  by (rule stake_genesis_inv[OF mock_ok demo_genesis])

lemma demo_accounted: "accounted demo"
  by (rule stake_genesis_accounted[OF demo_genesis])

end
