(* ===== verification/Stake_Epochs.thy ===== *)
theory Stake_Epochs
  imports Stake_Machine
begin

text \<open>
  The books the stake pallet keeps for every round (points, awards, snapshots, validators): no call touches
  them (\<open>same_epoch\<close>), and a round change clears the awards of the round it pays, drops the snapshots it has
  used, adds those of the new validators and changes nothing else (\<open>next_round_books\<close>).
\<close>

lemma map_le_lookup: "m \<subseteq>\<^sub>m m' \<Longrightarrow> m k = Some x \<Longrightarrow> m' k = Some x"
  by (metis domI map_le_def)

section \<open>What a call leaves alone\<close>

definition same_epoch :: "('c, 'a) storage \<Rightarrow> ('c, 'a) storage \<Rightarrow> bool" where
  "same_epoch s s' \<longleftrightarrow>
     Round s' = Round s \<and> Validators s' = Validators s \<and> AtStake s' = AtStake s \<and> Staked s' = Staked s \<and>
     Points s' = Points s \<and> AwardedPts s' = AwardedPts s"

lemma same_epoch_refl [simp]: "same_epoch s s"
  by (simp add: same_epoch_def)

lemma same_epoch_trans: "same_epoch s t \<Longrightarrow> same_epoch t u \<Longrightarrow> same_epoch s u"
  by (simp add: same_epoch_def)

lemma same_epoch_updates [simp]:
  "same_epoch s (put_candidate c v t) = same_epoch s t" "same_epoch s (put_nominator n m t) = same_epoch s t"
  "same_epoch s (deposit_event e t) = same_epoch s t" "same_epoch s (update_if_active c v x t) = same_epoch s t"
  "same_epoch s (t\<lparr>Ledger := l\<rparr>) = same_epoch s t" "same_epoch s (t\<lparr>Total := x\<rparr>) = same_epoch s t"
  "same_epoch s (t\<lparr>Candidates := C\<rparr>) = same_epoch s t" "same_epoch s (t\<lparr>Nominators := N\<rparr>) = same_epoch s t"
  "same_epoch s (t\<lparr>CandidatePool := P\<rparr>) = same_epoch s t" "same_epoch s (t\<lparr>ExitQueue := Q\<rparr>) = same_epoch s t"
  "same_epoch s (t\<lparr>InflationConfig := i\<rparr>) = same_epoch s t"
  by (simp_all add: same_epoch_def put_candidate_def put_nominator_def deposit_event_def update_if_active_eq)

lemma nominator_joins_epoch: "nominator_joins_validator T n x c s = (r, s') \<Longrightarrow> same_epoch s s'"
  unfolding nominator_joins_validator_def by (auto split: call_splits)

lemma leaves_validator_epoch: "nominator_leaves_validator T n c s = (r, s') \<Longrightarrow> same_epoch s s'"
  unfolding nominator_leaves_validator_def by (auto split: call_splits)

lemma leave_each_epoch: "leave_each T n bs s = (r, s') \<Longrightarrow> same_epoch s s'"
  by (induction bs arbitrary: s) (auto split: call_splits dest: leaves_validator_epoch intro: same_epoch_trans)

lemma dispatch_call_epoch: "dispatch_call T origin call s = Some (r, s') \<Longrightarrow> same_epoch s s'"
proof (cases call)
  case (JoinNominators c x)
  assume "dispatch_call T origin call s = Some (r, s')"
  then show ?thesis using JoinNominators
    by (auto simp: join_nominators_def split: call_splits dest: nominator_joins_epoch)
next
  case LeaveNominators
  assume "dispatch_call T origin call s = Some (r, s')"
  then show ?thesis using LeaveNominators
    by (auto simp: leave_nominators_def split: call_splits dest: leave_each_epoch)
next
  case (RevokeNomination c)
  assume "dispatch_call T origin call s = Some (r, s')"
  then show ?thesis using RevokeNomination
    by (auto simp: revoke_nomination_def nominator_revokes_validator_def split: call_splits
        dest: leaves_validator_epoch)
next
  case (NominateNew c x)
  assume "dispatch_call T origin call s = Some (r, s')"
  then show ?thesis using NominateNew
    by (auto simp: nominate_new_def split: call_splits dest: nominator_joins_epoch)
qed (auto simp: set_staking_expectations_def set_inflation_def join_candidates_def leave_candidates_def
      go_offline_def go_online_def candidate_bond_more_def candidate_bond_less_def
      switch_nomination_def nominator_bond_more_def nominator_bond_less_def split: call_splits)

section \<open>What a round change does to the books of the rounds\<close>

definition pays_from :: "('c, 'a) storage \<Rightarrow> ('c, 'a) storage \<Rightarrow> bool" where
  "pays_from s s' \<longleftrightarrow> Points s' = Points s \<and> AwardedPts s' = AwardedPts s \<and> AtStake s' \<subseteq>\<^sub>m AtStake s"

lemma pays_from_refl: "pays_from s s"
  by (simp add: pays_from_def)

lemma pays_from_trans: "pays_from s t \<Longrightarrow> pays_from t u \<Longrightarrow> pays_from s u"
  by (auto simp: pays_from_def intro: map_le_trans)

lemma mint_pays_from: "pays_from s (mint T x a s)"
  by (auto simp: mint_def pays_from_def deposit_event_def split: sum.split)

lemma pay_nominators_pays_from: "pays_from s (pay_nominators T t x bs s)"
  by (induction bs arbitrary: s) (auto intro: pays_from_refl pays_from_trans[OF mint_pays_from])

lemma take_at_stake_pays_from: "take_at_stake r a s = (x, t) \<Longrightarrow> pays_from s t"
  by (auto simp: take_at_stake_def pays_from_def map_le_def split: if_splits)

lemma pay_validator_pays_from: "pays_from s (pay_validator T r p i e s)"
  by (auto simp: pay_validator_def pays_from_refl split: prod.split
      intro: pays_from_trans[OF take_at_stake_pays_from mint_pays_from]
        pays_from_trans[OF take_at_stake_pays_from pays_from_trans[OF mint_pays_from pay_nominators_pays_from]])

lemma fold_pays_from: "(\<And>x t. pays_from t (f x t)) \<Longrightarrow> pays_from s (fold f xs s)"
  by (induction xs arbitrary: s) (auto intro: pays_from_refl pays_from_trans)

text \<open>The awards that are left when the stakers are paid at the change to the round \<open>next\<close>.\<close>

definition unpaid :: "('o, 'c, 'a) config \<Rightarrow> round_index \<Rightarrow> ('c, 'a) storage \<Rightarrow> round_index \<Rightarrow> ('a \<times> reward_point) list" where
  "unpaid T next s = (if BondDuration T < next then (AwardedPts s)(next - BondDuration T := []) else AwardedPts s)"

lemma pay_stakers_books:
  "Points (pay_stakers T next s) = Points s" "AwardedPts (pay_stakers T next s) = unpaid T next s"
  "AtStake (pay_stakers T next s) \<subseteq>\<^sub>m AtStake s"
proof -
  let ?s1 = "s\<lparr>AwardedPts := (AwardedPts s)(next - BondDuration T := [])\<rparr>"
  have "pays_from ?s1 (fold (pay_validator T r p i) es ?s1)" for r p i es
    by (rule fold_pays_from[OF pay_validator_pays_from])
  then show "Points (pay_stakers T next s) = Points s" "AwardedPts (pay_stakers T next s) = unpaid T next s"
    "AtStake (pay_stakers T next s) \<subseteq>\<^sub>m AtStake s"
    by (auto simp: pay_stakers_def pays_from_def unpaid_def)
qed

definition keeps_books :: "('c, 'a) storage \<Rightarrow> ('c, 'a) storage \<Rightarrow> bool" where
  "keeps_books s s' \<longleftrightarrow> same_epoch s s' \<and> minted s' = minted s \<and> InflationConfig s' = InflationConfig s"

lemma keeps_books_refl: "keeps_books s s"
  by (simp add: keeps_books_def)

lemma keeps_books_trans: "keeps_books s t \<Longrightarrow> keeps_books t u \<Longrightarrow> keeps_books s u"
  by (auto simp: keeps_books_def intro: same_epoch_trans)

lemma release_keeps_books: "keeps_books s (release T c b s)"
  by (auto simp: release_def release_nominations.simps(2) keeps_books_def put_nominator_def minted_def split: option.split)

lemma release_nominations_keeps_books: "keeps_books s (release_nominations T c bs s)"
  by (induction bs arbitrary: s)
    (auto simp: release_nominations_Cons intro: keeps_books_refl keeps_books_trans[OF release_keeps_books])

lemma exit_candidate_keeps_books: "keeps_books s (exit_candidate T c s)"
proof (cases "Candidates s c")
  case (Some v)
  then show ?thesis using release_nominations_keeps_books[of s T c "v_nominators v"]
    by (simp add: exit_candidate_def keeps_books_def minted_def deposit_event_def same_epoch_def)
qed (simp add: exit_candidate_None keeps_books_refl)

lemma run_exits_keeps_books: "run_exits T next xs s = (rest, s') \<Longrightarrow> keeps_books s s'"
  by (induction xs arbitrary: s rest)
    (auto split: if_splits prod.splits intro: keeps_books_refl keeps_books_trans[OF exit_candidate_keeps_books])

lemma execute_delayed_keeps_books: "keeps_books s (execute_delayed_validator_exits T next s)"
  using run_exits_keeps_books[of T "next" "ExitQueue s" s]
  by (auto simp: execute_delayed_validator_exits_def keeps_books_def minted_def split: prod.split)

lemma snapshot_each_minted:
  "snapshot_each next as acc s = Some (r, s') \<Longrightarrow> minted s' = minted s"
  by (induction as arbitrary: acc s) (auto simp: minted_def deposit_event_def split: option.splits)

lemma best_candidates_minted:
  "best_candidates_become_validators T next s = Some (r, s') \<Longrightarrow> minted s' = minted s"
  by (auto simp: best_candidates_become_validators_def minted_def split: option.splits
      dest!: snapshot_each_minted[unfolded minted_def])

lemma next_round_books:
  assumes T: "config_ok T" "sort_law T" and inv: "stake_inv T other s" and run: "next_round T n s = Some s'"
  shows "Points s' = Points s" "AwardedPts s' = unpaid T (Round s + 1) s"
    "AtStake s' k = Some x \<Longrightarrow> AtStake s k = Some x \<or>
       (\<exists>v. fst k = Round s + 1 \<and> Candidates s' (snd k) = Some v \<and> x = to_snapshot v)"
    "minted s' = minted (pay_stakers T (Round s + 1) s)"
    "InflationConfig s' = InflationConfig (pay_stakers T (Round s + 1) s)"
proof -
  let ?next = "Round s + 1"
  let ?s1 = "pay_stakers T ?next s"
  let ?s2 = "execute_delayed_validator_exits T ?next ?s1"
  note pays = pay_stakers_pays_only[OF config_okD(3)[OF T(1)], of s ?next]
  note ex = execute_delayed_exits[OF T(1) pays_only_inv[OF pays inv] refl, of ?next]
  from best_candidates_run[OF T(2) stake_inv_linked[OF ex(1)], of ?next] obtain cnt tot s3 where
    s3: "best_candidates_become_validators T ?next ?s2 = Some ((cnt, tot), s3)"
    "election_frame ?s2 s3" "AtStake s3 = snapshots ?next ?s2 (top_candidates T ?s2)" by blast
  have s': "s' = deposit_event (NewRound n ?next cnt tot) (s3\<lparr>Round := ?next, Staked := (Staked s3)(?next := Total s3)\<rparr>)"
    using run s3(1) by (simp add: next_round_def)
  have kb: "keeps_books ?s1 ?s2" by (rule execute_delayed_keeps_books)
  then show "Points s' = Points s" "AwardedPts s' = unpaid T ?next s"
    using s3(2) pay_stakers_books[of T ?next s]
    by (auto simp: s' deposit_event_def election_frame_def keeps_books_def same_epoch_def)
  show "minted s' = minted ?s1"
    using best_candidates_minted[OF s3(1)] kb by (simp add: s' minted_def deposit_event_def keeps_books_def)
  show "InflationConfig s' = InflationConfig ?s1"
    using s3(2) kb by (simp add: s' deposit_event_def election_frame_def keeps_books_def)
  assume k: "AtStake s' k = Some x"
  have "AtStake ?s2 \<subseteq>\<^sub>m AtStake s"
    using kb pay_stakers_books(3)[of T ?next s] by (simp add: keeps_books_def same_epoch_def)
  then have "AtStake ?s2 k = Some x \<Longrightarrow> AtStake s k = Some x" by (rule map_le_lookup)
  moreover have "AtStake s' = snapshots ?next ?s2 (top_candidates T ?s2)" "Candidates s' = Candidates ?s2"
    using s3(2,3) by (simp_all add: s' deposit_event_def election_frame_def)
  ultimately show "AtStake s k = Some x \<or> (\<exists>v. fst k = ?next \<and> Candidates s' (snd k) = Some v \<and> x = to_snapshot v)"
    using k by (auto simp: snapshots_def split: if_splits)
qed

end
