(* ===== verification/Stake_Refinement.thy ===== *)
theory Stake_Refinement
  imports Stake_Example Stake_Epochs
begin

text \<open>
  An abstract specification of staking and its implementation by the stake pallet. The abstract
  state records the round and who has staked what: the own bond and the status of every candidate
  and the pledges of every nominator to every candidate. It has no second copy of a nomination, no
  totals, no candidate pool, no exit queue and no ledger. \<open>staking_of\<close> reads it off the storage;
  every successful call is the abstract operation of the same name, a failed call changes nothing,
  and a round change removes the candidates whose exit is due.
\<close>

section \<open>The specification\<close>

record 'a staking =
  stk_round :: round_index
  stk_bond :: "'a \<rightharpoonup> balance"
  stk_status :: "'a \<rightharpoonup> ValidatorStatus"
  stk_pledge :: "'a \<Rightarrow> 'a \<rightharpoonup> balance"

fun spec_call :: "round_index \<Rightarrow> 'a stake_call \<Rightarrow> 'a \<Rightarrow> 'a staking \<Rightarrow> 'a staking" where
  "spec_call d (JoinCandidates fee x) a k =
     k\<lparr>stk_bond := (stk_bond k)(a \<mapsto> x), stk_status := (stk_status k)(a \<mapsto> Active)\<rparr>"
| "spec_call d LeaveCandidates a k = k\<lparr>stk_status := (stk_status k)(a \<mapsto> Leaving (stk_round k + d))\<rparr>"
| "spec_call d GoOffline a k = k\<lparr>stk_status := (stk_status k)(a \<mapsto> Idle)\<rparr>"
| "spec_call d GoOnline a k = k\<lparr>stk_status := (stk_status k)(a \<mapsto> Active)\<rparr>"
| "spec_call d (CandidateBondMore x) a k = k\<lparr>stk_bond := (stk_bond k)(a := map_option (\<lambda>b. b + x) (stk_bond k a))\<rparr>"
| "spec_call d (CandidateBondLess x) a k = k\<lparr>stk_bond := (stk_bond k)(a := map_option (\<lambda>b. b - x) (stk_bond k a))\<rparr>"
| "spec_call d (JoinNominators c x) a k = k\<lparr>stk_pledge := (stk_pledge k)(a := (stk_pledge k a)(c \<mapsto> x))\<rparr>"
| "spec_call d LeaveNominators a k = k\<lparr>stk_pledge := (stk_pledge k)(a := Map.empty)\<rparr>"
| "spec_call d (NominateNew c x) a k = k\<lparr>stk_pledge := (stk_pledge k)(a := (stk_pledge k a)(c \<mapsto> x))\<rparr>"
| "spec_call d (SwitchNomination old new) a k =
     k\<lparr>stk_pledge := (stk_pledge k)(a := (stk_pledge k a)(old := None, new := stk_pledge k a old))\<rparr>"
| "spec_call d (RevokeNomination c) a k = k\<lparr>stk_pledge := (stk_pledge k)(a := (stk_pledge k a)(c := None))\<rparr>"
| "spec_call d (NominatorBondMore c x) a k =
     k\<lparr>stk_pledge := (stk_pledge k)(a := (stk_pledge k a)(c := map_option (\<lambda>b. b + x) (stk_pledge k a c)))\<rparr>"
| "spec_call d (NominatorBondLess c x) a k =
     k\<lparr>stk_pledge := (stk_pledge k)(a := (stk_pledge k a)(c := map_option (\<lambda>b. b - x) (stk_pledge k a c)))\<rparr>"
| "spec_call d (SetStakingExpectations e) a k = k"
| "spec_call d (SetInflation e) a k = k"

text \<open>When the specification allows a call; the origin of the last two is not an account.\<close>

fun spec_enabled :: "'a stake_call \<Rightarrow> 'a \<Rightarrow> 'a staking \<Rightarrow> bool" where
  "spec_enabled (JoinCandidates fee x) a k \<longleftrightarrow> stk_bond k a = None \<and> stk_pledge k a = Map.empty"
| "spec_enabled LeaveCandidates a k \<longleftrightarrow> stk_status k a \<in> {Some Active, Some Idle}"
| "spec_enabled GoOffline a k \<longleftrightarrow> stk_status k a = Some Active"
| "spec_enabled GoOnline a k \<longleftrightarrow> stk_status k a = Some Idle"
| "spec_enabled (CandidateBondMore x) a k \<longleftrightarrow> stk_status k a \<in> {Some Active, Some Idle}"
| "spec_enabled (CandidateBondLess x) a k \<longleftrightarrow>
     stk_status k a \<in> {Some Active, Some Idle} \<and> (\<exists>b. stk_bond k a = Some b \<and> x < b)"
| "spec_enabled (JoinNominators c x) a k \<longleftrightarrow>
     stk_bond k a = None \<and> stk_pledge k a = Map.empty \<and> stk_bond k c \<noteq> None \<and> x \<noteq> 0"
| "spec_enabled LeaveNominators a k \<longleftrightarrow> True"
| "spec_enabled (NominateNew c x) a k \<longleftrightarrow> stk_pledge k a c = None \<and> stk_bond k c \<noteq> None \<and> x \<noteq> 0"
| "spec_enabled (SwitchNomination old new) a k \<longleftrightarrow>
     stk_pledge k a old \<noteq> None \<and> stk_pledge k a new = None \<and> stk_bond k new \<noteq> None"
| "spec_enabled (RevokeNomination c) a k \<longleftrightarrow> stk_pledge k a c \<noteq> None"
| "spec_enabled (NominatorBondMore c x) a k \<longleftrightarrow> stk_pledge k a c \<noteq> None"
| "spec_enabled (NominatorBondLess c x) a k \<longleftrightarrow> (\<exists>b. stk_pledge k a c = Some b \<and> x < b)"
| "spec_enabled (SetStakingExpectations e) a k \<longleftrightarrow> True"
| "spec_enabled (SetInflation e) a k \<longleftrightarrow> True"

definition spec_due :: "'a staking \<Rightarrow> 'a \<Rightarrow> bool" where
  "spec_due k c \<longleftrightarrow> (case stk_status k c of Some (Leaving r) \<Rightarrow> r \<le> stk_round k + 1 | _ \<Rightarrow> False)"

definition spec_next_round :: "'a staking \<Rightarrow> 'a staking" where
  "spec_next_round k =
     \<lparr>stk_round = stk_round k + 1,
      stk_bond = (\<lambda>c. if spec_due k c then None else stk_bond k c),
      stk_status = (\<lambda>c. if spec_due k c then None else stk_status k c),
      stk_pledge = (\<lambda>n c. if spec_due k c then None else stk_pledge k n c)\<rparr>"

inductive spec_step :: "round_index \<Rightarrow> 'a staking \<Rightarrow> 'a staking \<Rightarrow> bool" for d where
  spec_stays: "spec_step d k k"
| spec_calls: "spec_enabled call a k \<Longrightarrow> spec_step d k (spec_call d call a k)"
| spec_round: "spec_step d k (spec_next_round k)"

section \<open>Simulations\<close>

locale simulation =
  fixes abs :: "'c \<Rightarrow> 's"
    and inv :: "'c \<Rightarrow> bool"
    and cstep :: "'c \<Rightarrow> 'c \<Rightarrow> bool"
    and sstep :: "'s \<Rightarrow> 's \<Rightarrow> bool"
  assumes sim: "inv c \<Longrightarrow> cstep c c' \<Longrightarrow> sstep (abs c) (abs c')"
    and keeps: "inv c \<Longrightarrow> cstep c c' \<Longrightarrow> inv c'"
begin

lemma runs: "cstep\<^sup>*\<^sup>* c c' \<Longrightarrow> inv c \<Longrightarrow> sstep\<^sup>*\<^sup>* (abs c) (abs c') \<and> inv c'"
proof (induction rule: rtranclp_induct)
  case (step y z)
  then show ?case using sim[of y z] keeps[of y z] by (meson rtranclp.rtrancl_into_rtrancl)
qed simp

end

section \<open>The storage implements the specification\<close>

definition staking_of :: "('c, 'a) storage \<Rightarrow> 'a staking" where
  "staking_of s =
     \<lparr>stk_round = Round s,
      stk_bond = (\<lambda>c. map_option v_bond (Candidates s c)),
      stk_status = (\<lambda>c. map_option v_state (Candidates s c)),
      stk_pledge = nominated (Nominators s)\<rparr>"

lemma staking_of_sel [simp]:
  "stk_round (staking_of s) = Round s"
  "stk_bond (staking_of s) c = map_option v_bond (Candidates s c)"
  "stk_status (staking_of s) c = map_option v_state (Candidates s c)"
  "stk_pledge (staking_of s) = nominated (Nominators s)"
  by (simp_all add: staking_of_def)

lemma staking_eqI:
  assumes "Round s = stk_round k" "\<And>c. map_option v_bond (Candidates s c) = stk_bond k c"
    "\<And>c. map_option v_state (Candidates s c) = stk_status k c"
    "\<And>n c. nominated (Nominators s) n c = stk_pledge k n c"
  shows "staking_of s = k"
  using assms by (intro staking.equality ext) simp_all

text \<open>No call changes the round.\<close>

lemma leaves_validator_frame:
  assumes "nominator_leaves_validator T n c s = (r, s')"
  shows "Round s' = Round s" "map_option v_bond (Candidates s' a) = map_option v_bond (Candidates s a)"
    "map_option v_state (Candidates s' a) = map_option v_state (Candidates s a)"
  using assms unfolding nominator_leaves_validator_def update_if_active_eq
  by (auto simp: put_candidate_def deposit_event_def split: call_splits)

lemma leave_each_frame:
  assumes "leave_each T n bs s = (r, s')"
  shows "Round s' = Round s" "map_option v_bond (Candidates s' a) = map_option v_bond (Candidates s a)"
    "map_option v_state (Candidates s' a) = map_option v_state (Candidates s a)"
  using assms
proof (induction bs arbitrary: s)
  case (Cons b bs)
  { case 1 then show ?case using Cons leaves_validator_frame by (fastforce split: call_splits) }
  { case 2 then show ?case using Cons leaves_validator_frame by (fastforce split: call_splits) }
  { case 3 then show ?case using Cons leaves_validator_frame by (fastforce split: call_splits) }
qed simp_all

lemma update_if_active_round [simp]: "Round (update_if_active c v t s) = Round s"
  by (simp add: update_if_active_eq)

lemma put_round [simp]:
  "Round (put_candidate c v s) = Round s" "Round (put_nominator n m s) = Round s"
  "Round (deposit_event e s) = Round s"
  by (simp_all add: put_candidate_def put_nominator_def deposit_event_def)

lemma dispatch_call_round: "dispatch_call T origin call s = Some (r, s') \<Longrightarrow> Round s' = Round s"
  by (drule dispatch_call_epoch) (simp add: same_epoch_def)

section \<open>Each call is the operation of the specification\<close>

text \<open>\<open>refines T origin call s s'\<close>: the step from \<open>s\<close> to \<open>s'\<close> is what the specification says of the call,
  made by the account that signed it.\<close>

definition signed_by :: "('o, 'c, 'a) config \<Rightarrow> 'o \<Rightarrow> 'a stake_call \<Rightarrow> 'a \<Rightarrow> bool" where
  "signed_by T origin call a \<longleftrightarrow>
     (case call of SetInflation _ \<Rightarrow> True | SetStakingExpectations _ \<Rightarrow> True | _ \<Rightarrow> ensure_signed T origin = Inr a)"

definition refines :: "('o, 'c, 'a) config \<Rightarrow> 'o \<Rightarrow> 'a stake_call \<Rightarrow> ('c, 'a) storage \<Rightarrow> ('c, 'a) storage \<Rightarrow> bool" where
  "refines T origin call s s' \<longleftrightarrow>
     (\<exists>a. signed_by T origin call a \<and> spec_enabled call a (staking_of s) \<and>
        staking_of s' = spec_call (BondDuration T) call a (staking_of s))"

lemma refinesI:
  assumes "signed_by T origin call a" "spec_enabled call a (staking_of s)" "Round s' = Round s"
    and "stk_round (spec_call (BondDuration T) call a (staking_of s)) = Round s"
    and "\<And>c. map_option v_bond (Candidates s' c) = stk_bond (spec_call (BondDuration T) call a (staking_of s)) c"
    and "\<And>c. map_option v_state (Candidates s' c) = stk_status (spec_call (BondDuration T) call a (staking_of s)) c"
    and "\<And>n c. nominated (Nominators s') n c = stk_pledge (spec_call (BondDuration T) call a (staking_of s)) n c"
  shows "refines T origin call s s'"
  unfolding refines_def using assms by (intro exI[of _ a] conjI staking_eqI) simp_all

lemma nominated_update:
  "nominated (N(n \<mapsto> m)) k = (if k = n then amounts (n_nominations m) else nominated N k)"
  "nominated (N(n := None)) k = (if k = n then Map.empty else nominated N k)"
  "N n = Some m \<Longrightarrow> nominated N n = amounts (n_nominations m)"
  "N n = None \<Longrightarrow> nominated N n = Map.empty"
  by (simp_all add: nominated_def)

lemma status_cases: "\<not> is_leaving v \<Longrightarrow> v_state v = Active \<or> v_state v = Idle" "is_active v \<longleftrightarrow> v_state v = Active"
  by (auto simp: is_leaving_def is_active_def split: ValidatorStatus.splits)

lemmas refine_simps = signed_by_def nominated_update status_cases(2)

lemma candidate_calls_refine:
  assumes "dispatch_call T origin call s = Some (Inr (), s')"
    and "call \<in> {LeaveCandidates, GoOffline, GoOnline} \<or> (\<exists>x. call \<in> {CandidateBondMore x, CandidateBondLess x})
      \<or> (\<exists>fee x. call = JoinCandidates fee x)"
  shows "refines T origin call s s'"
proof -
  note round = dispatch_call_round[OF assms(1)]
  consider (join) fee x where "call = JoinCandidates fee x" | (leave) "call = LeaveCandidates"
    | (off) "call = GoOffline" | (on) "call = GoOnline"
    | (more) x where "call = CandidateBondMore x" | (less) x where "call = CandidateBondLess x"
    using assms(2) by auto
  then show ?thesis
  proof cases
    case join
    with assms(1) have "join_candidates T origin fee x s = (Inr (), s')" by simp
    then show ?thesis
      by (cases rule: join_candidates_cases)
         (auto simp: join round refine_simps new_validator_def intro!: refinesI)
  next
    case leave
    with assms(1) have "leave_candidates T origin s = (Inr (), s')" by simp
    then show ?thesis
      by (cases rule: leave_candidates_cases)
         (auto simp: leave round refine_simps set_leaving_def dest: status_cases(1) intro!: refinesI)
  next
    case off
    with assms(1) have "go_offline T origin s = (Inr (), s')" by simp
    then show ?thesis
      by (cases rule: go_offline_cases) (auto simp: off round refine_simps set_offline_def intro!: refinesI)
  next
    case on
    with assms(1) have "go_online T origin s = (Inr (), s')" by simp
    then show ?thesis
      by (cases rule: go_online_cases)
         (auto simp: on round refine_simps set_online_def dest: status_cases(1) intro!: refinesI)
  next
    case more
    with assms(1) have "candidate_bond_more T origin x s = (Inr (), s')" by simp
    then show ?thesis
      by (cases rule: candidate_bond_more_cases)
         (auto simp: more round refine_simps bond_more_def dest: status_cases(1) intro!: refinesI)
  next
    case less
    with assms(1) have "candidate_bond_less T origin x s = (Inr (), s')" by simp
    then show ?thesis
      by (cases rule: candidate_bond_less_cases)
         (auto simp: less round refine_simps dest: status_cases(1) intro!: refinesI)
  qed
qed

lemma join_nominators_refines:
  assumes "config_ok T" "join_nominators T origin c x s = (Inr (), s')"
  shows "refines T origin (JoinNominators c x) s s'"
proof -
  have round: "Round s' = Round s"
    using dispatch_call_round[of T origin "JoinNominators c x" s "Inr ()" s'] assms(2) by simp
  from assms(2) show ?thesis
  proof (cases rule: join_nominators_cases)
    case (success n v noms v' l)
    then show ?thesis using at_least_nonzero[OF success(3) config_okD(5)[OF assms(1)]]
      by (intro refinesI[where a = n]) (auto simp: round refine_simps new_nominator_eq)
  qed simp
qed

lemma nominate_new_refines:
  assumes "config_ok T" "stake_inv T other s" "nominate_new T origin c x s = (Inr (), s')"
  shows "refines T origin (NominateNew c x) s s'"
proof -
  have round: "Round s' = Round s"
    using dispatch_call_round[of T origin "NominateNew c x" s "Inr ()" s'] assms(3) by simp
  from assms(3) show ?thesis
  proof (cases rule: nominate_new_cases)
    case (success n m v m' noms v' l)
    note nom = well_linkedD(3)[OF stake_invD(1)[OF assms(2)] success(4)]
    have none: "amounts (n_nominations m) c = None"
      using add_nomination_dup[OF nom, of "\<lparr>owner = c, amount = x\<rparr>"] success(8) by fastforce
    have "amounts (n_nominations m') = (amounts (n_nominations m))(c \<mapsto> x)"
      using add_nomination_eq[OF nom, of "\<lparr>owner = c, amount = x\<rparr>"] none success(8)
        insert_bond(2)[OF valid_nominatorD(1)[OF nom] none, of x] by auto
    with none show ?thesis using success at_least_nonzero[OF success(3) config_okD(4)[OF assms(1)]]
      by (intro refinesI[where a = n]) (auto simp: round refine_simps)
  qed simp
qed

lemma nominator_bond_more_refines:
  assumes "nominator_bond_more T origin c x s = (Inr (), s')" "stake_inv T other s"
  shows "refines T origin (NominatorBondMore c x) s s'"
proof -
  have round: "Round s' = Round s"
    using dispatch_call_round[of T origin "NominatorBondMore c x" s "Inr ()" s'] assms(1) by simp
  from assms(1) show ?thesis
  proof (cases rule: nominator_bond_more_cases)
    case (success n m v y m' v' l)
    have "amounts (v_nominators v) n = Some y"
      using edge_symmetric[OF stake_invD(1)[OF assms(2)] success(4,3)] success(5) by simp
    note v' = success(8)[unfolded inc_nominator_eq[OF this]]
    show ?thesis using success(2,3,4,5,6,9,10) v' amounts_update_first[OF success(5), of "\<lambda>z. z + x"]
      by (intro refinesI[where a = n]) (auto simp: round refine_simps)
  qed simp
qed

lemma nominator_bond_less_refines:
  assumes "nominator_bond_less T origin c x s = (Inr (), s')" "stake_inv T other s"
  shows "refines T origin (NominatorBondLess c x) s s'"
proof -
  have round: "Round s' = Round s"
    using dispatch_call_round[of T origin "NominatorBondLess c x" s "Inr ()" s'] assms(1) by simp
  from assms(1) show ?thesis
  proof (cases rule: nominator_bond_less_cases)
    case (success n m v y m' v')
    have "amounts (v_nominators v) n = Some y"
      using edge_symmetric[OF stake_invD(1)[OF assms(2)] success(4,3)] success(5) by simp
    note v' = success(10)[unfolded dec_nominator_eq[OF this]]
    show ?thesis using success(2-6,9,11,12) v' amounts_update_first[OF success(5), of "\<lambda>z. z - x"]
      by (intro refinesI[where a = n]) (auto simp: round refine_simps)
  qed simp
qed

lemma switch_nomination_refines:
  assumes "switch_nomination T origin old new s = (Inr (), s')" "stake_inv T other s"
    and "fresh_nomination T origin new s"
  shows "refines T origin (SwitchNomination old new) s s'"
proof -
  have round: "Round s' = Round s"
    using dispatch_call_round[of T origin "SwitchNomination old new" s "Inr ()" s'] assms(1) by simp
  from assms(2,3,1) show ?thesis
  proof (cases rule: switch_nomination_cases)
    case (success n m x v u v' u' m')
    note sw = swap_nomination_fresh(3)[OF well_linkedD(3)[OF stake_invD(1)[OF assms(2)] success(4)] success(8,3,7)]
    show ?thesis using success sw
      by (intro refinesI[where a = n]) (auto simp: round refine_simps)
  qed simp
qed

text \<open>A withdrawal changes neither the bonds nor the states of the candidates.\<close>

lemma revoke_nomination_frame:
  assumes "revoke_nomination T origin c s = (r, s')"
  shows "map_option v_bond (Candidates s' a) = map_option v_bond (Candidates s a)"
    "map_option v_state (Candidates s' a) = map_option v_state (Candidates s a)"
  using assms leaves_validator_frame(2,3)
  by (fastforce simp: revoke_nomination_def nominator_revokes_validator_def put_nominator_def split: call_splits)+

lemma leave_nominators_frame:
  assumes "leave_nominators T origin s = (r, s')"
  shows "map_option v_bond (Candidates s' a) = map_option v_bond (Candidates s a)"
    "map_option v_state (Candidates s' a) = map_option v_state (Candidates s a)"
  using assms leave_each_frame(2,3)
  by (fastforce simp: leave_nominators_def deposit_event_def split: call_splits)+

lemma revoke_nomination_refines:
  assumes "config_ok T" "stake_inv T other s" "revoke_nomination T origin c s = (Inr (), s')"
  shows "refines T origin (RevokeNomination c) s s'"
proof -
  have round: "Round s' = Round s"
    using dispatch_call_round[of T origin "RevokeNomination c" s "Inr ()" s'] assms(3) by simp
  from assms show ?thesis
  proof (cases rule: revoke_nomination_cases)
    case (success n m x m')
    then show ?thesis using revoke_nomination_frame[OF assms(3)]
      by (intro refinesI[where a = n]) (auto simp: round refine_simps amounts_filter)
  qed simp
qed

lemma leave_nominators_refines:
  assumes "config_ok T" "stake_inv T other s" "leave_nominators T origin s = (Inr (), s')"
  shows "refines T origin LeaveNominators s s'"
proof -
  have round: "Round s' = Round s"
    using dispatch_call_round[of T origin LeaveNominators s "Inr ()" s'] assms(3) by simp
  from assms show ?thesis
  proof (cases rule: leave_nominators_cases)
    case (success n m)
    then show ?thesis using leave_nominators_frame[OF assms(3)]
      by (intro refinesI[where a = n]) (auto simp: round refine_simps)
  qed simp
qed

section \<open>Runs\<close>

lemma dispatch_call_refines:
  assumes T: "config_ok T" and inv: "stake_inv T other s" and adm: "admissible T origin call s"
    and call: "dispatch_call T origin call s = Some (Inr (), s')"
  shows "refines T origin call s s'"
proof (cases call)
  case (SetStakingExpectations e)
  then show ?thesis using call
    by (intro refinesI) (auto simp: set_staking_expectations_def signed_by_def split: call_splits)
next
  case (SetInflation e)
  then show ?thesis using call
    by (intro refinesI) (auto simp: set_inflation_def signed_by_def split: call_splits)
qed (use call adm candidate_calls_refine[OF call] join_nominators_refines[OF T] nominate_new_refines[OF T inv]
      nominator_bond_more_refines[OF _ inv] nominator_bond_less_refines[OF _ inv]
      switch_nomination_refines[OF _ inv] revoke_nomination_refines[OF T inv] leave_nominators_refines[OF T inv]
     in auto)

lemma failed_call_unchanged:
  assumes T: "config_ok T" and inv: "stake_inv T other s"
    and call: "dispatch_call T origin call s = Some (Inl e, s')"
  shows "s' = s"
proof (cases call)
  case (JoinNominators c x)
  with call have "join_nominators T origin c x s = (Inl e, s')" by simp
  then show ?thesis by (cases rule: join_nominators_cases) auto
next
  case LeaveNominators
  with call have "leave_nominators T origin s = (Inl e, s')" by simp
  with T inv show ?thesis by (cases rule: leave_nominators_cases) auto
next
  case (RevokeNomination c)
  with call have "revoke_nomination T origin c s = (Inl e, s')" by simp
  with T inv show ?thesis by (cases rule: revoke_nomination_cases) auto
qed (use call in \<open>auto simp: set_staking_expectations_def set_inflation_def join_candidates_def leave_candidates_def
      go_offline_def go_online_def candidate_bond_more_def candidate_bond_less_def nominate_new_def
      switch_nomination_def nominator_bond_more_def nominator_bond_less_def split: call_splits\<close>)

lemma spec_due_staking: "spec_due (staking_of s) c \<longleftrightarrow> (\<exists>v. Candidates s c = Some v \<and> exit_due (Round s + 1) v)"
  by (auto simp: spec_due_def exit_due_def split: option.split ValidatorStatus.splits)

lemma next_round_refines:
  assumes T: "config_ok T" "sort_law T" and inv: "stake_inv T other s" and "next_round T n s = Some s'"
  shows "staking_of s' = spec_next_round (staking_of s)"
proof -
  obtain t where t: "next_round T n s = Some t" "stake_inv T other t" "Round t = Round s + 1"
    "Candidates t = without_exits (Round s + 1) UNIV (Candidates s)"
    using next_round_run[OF T inv] by metis
  have pledge: "nominated (Nominators t) k c = backing (Candidates t) c k"
    "nominated (Nominators s) k c = backing (Candidates s) c k" for k c
    using well_linkedD(4)[OF stake_invD(1)[OF t(2)]] well_linkedD(4)[OF stake_invD(1)[OF inv]] by simp_all
  have "staking_of t = spec_next_round (staking_of s)"
    by (rule staking_eqI)
       (auto simp: t spec_next_round_def pledge without_exits_def spec_due_staking backing_def split: option.split)
  with t(1) assms(4) show ?thesis by simp
qed

lemma stake_step_refines:
  assumes T: "config_ok T" "sort_law T" and inv: "stake_inv T other s" and "stake_step T s s'"
  shows "spec_step (BondDuration T) (staking_of s) (staking_of s')"
  using assms(4)
proof (cases rule: stake_step.cases)
  case (step_call origin call r)
  show ?thesis
  proof (cases r)
    case (Inl e)
    then have "s' = s" using failed_call_unchanged[OF T(1) inv, of origin call e s'] step_call by simp
    then show ?thesis by (simp add: spec_stays)
  next
    case (Inr u)
    then have "refines T origin call s s'" using dispatch_call_refines[OF T(1) inv] step_call by auto
    then show ?thesis unfolding refines_def by (auto intro: spec_calls)
  qed
next
  case (step_author a)
  then have "staking_of s' = staking_of s" by (auto simp: staking_of_def note_author_def)
  then show ?thesis by (simp add: spec_stays)
next
  case (step_finalize n)
  then show ?thesis using next_round_refines[OF T inv, of n s']
    by (auto simp: on_finalize_def intro: spec_stays spec_round split: if_splits)
next
  case (step_environment c)
  then have "staking_of s' = staking_of s" by (simp add: staking_of_def)
  then show ?thesis by (simp add: spec_stays)
qed

interpretation staking: simulation
  staking_of "\<lambda>s. config_ok T \<and> sort_law T \<and> stake_inv T other s" "stake_step T" "spec_step (BondDuration T)"
  by unfold_locales (auto intro: stake_step_refines stake_step_inv)

section \<open>What the storage adds is determined\<close>

lemma sum_amounts_eq:
  assumes "distinct (map owner xs)"
  shows "sum_amounts xs = (\<Sum>a\<in>dom (amounts xs). the (amounts xs a))"
  using assms
proof (induction xs)
  case (Cons b bs)
  have fin: "finite (dom (amounts bs))" and new: "owner b \<notin> dom (amounts bs)"
    using Cons.prems by (auto simp: dom_view view_None_iff)
  have "(\<Sum>a\<in>dom (amounts bs). the (amounts (b # bs) a)) = (\<Sum>a\<in>dom (amounts bs). the (amounts bs a))"
    using new by (intro sum.cong) auto
  then have "sum_amounts (b # bs) = the (amounts (b # bs) (owner b)) + (\<Sum>a\<in>dom (amounts bs). the (amounts (b # bs) a))"
    using Cons by simp
  also have "\<dots> = (\<Sum>a\<in>insert (owner b) (dom (amounts bs)). the (amounts (b # bs) a))"
    by (rule sum.insert[OF fin new, symmetric])
  also have "insert (owner b) (dom (amounts bs)) = dom (amounts (b # bs))" by auto
  finally show ?case .
qed simp

definition spec_backers :: "'a staking \<Rightarrow> 'a \<Rightarrow> 'a set" where
  "spec_backers k c = {n. stk_pledge k n c \<noteq> None}"

definition spec_total :: "'a staking \<Rightarrow> 'a \<Rightarrow> balance" where
  "spec_total k c = the (stk_bond k c) + (\<Sum>n\<in>spec_backers k c. the (stk_pledge k n c))"

lemma candidate_total_spec:
  assumes "stake_inv T other s" "Candidates s c = Some v"
  shows "v_total v = spec_total (staking_of s) c"
proof -
  note w = stake_invD(1)[OF assms(1)]
  note val = valid_validatorD[OF well_linkedD(1)[OF w assms(2)]]
  have pledge: "nominated (Nominators s) n c = amounts (v_nominators v) n" for n
    using well_linkedD(4)[OF w, of c n] assms(2) by (simp add: backing_def)
  have "spec_backers (staking_of s) c = dom (amounts (v_nominators v))"
    by (auto simp: spec_backers_def pledge)
  then show ?thesis
    using val sum_amounts_eq[OF ascending_distinct[OF val(1)]] assms(2) by (simp add: spec_total_def pledge)
qed

end
