(* ===== verification/Stake_Defects.thy ===== *)
theory Stake_Defects
  imports Stake_Example
begin

text \<open>
  Three places where the pallet does not keep what its other parts rely on: a switch to a
  validator that is already nominated leaves the old nomination in the record of the nominator,
  the four calls that change a bond do not change \<open>Total\<close>, and a switch does not respect
  \<open>MaxNominatorsPerValidator\<close>.
\<close>

section \<open>Switching to a nominated validator\<close>

lemma swap_nomination_existing:
  assumes n: "valid_nominator m" and "old \<noteq> new" "amounts (n_nominations m) old = Some x"
    and "amounts (n_nominations m) new = Some y"
  obtains m' where "swap_nomination m old new = Some ((x, y + x), m')"
    "amounts (n_nominations m') = (amounts (n_nominations m))(new \<mapsto> y + x)"
    "ascending owner (n_nominations m')"
proof -
  let ?f = "filter (\<lambda>b. owner b \<noteq> new) (n_nominations m)"
  note asc = valid_nominatorD(1)[OF n]
  have f: "ascending owner ?f" "amounts ?f new = None" by (simp_all add: ascending_filter amounts_filter asc)
  have "swap_nomination m old new = Some ((x, y + x),
      m\<lparr>n_nominations := snd (set_insert bond_cmp \<lparr>owner = new, amount = y + x\<rparr> ?f)\<rparr>)"
    using assms by (simp add: swap_nomination_def dropped_amount_eq asc from_vec_filter)
  then show thesis by (rule that) (simp_all add: insert_bond(1,2)[OF f] amounts_filter)
qed

lemma switch_existing:
  assumes inv: "stake_inv T other s" and n: "ensure_signed T origin = Inr n" "Nominators s n = Some m"
    and ne: "old \<noteq> new" and old: "amounts (n_nominations m) old = Some x"
    and new: "amounts (n_nominations m) new = Some y"
  obtains s' v' m' where "switch_nomination T origin old new s = ok s'"
    "Candidates s' old = Some v'" "amounts (v_nominators v') n = None" "ascending owner (v_nominators v')"
    "Nominators s' n = Some m'" "amounts (n_nominations m') old = Some x"
proof -
  note w = stake_invD(1)[OF inv]
  obtain v u where v: "Candidates s old = Some v" and u: "Candidates s new = Some u"
    using no_candidate_no_nomination[OF w _ n(2)] old new by (metis option.exhaust option.distinct(1))
  have "amounts (v_nominators v) n = Some x" using edge_symmetric[OF w v n(2)] old by simp
  note rm = rm_nominator_eq[OF well_linkedD(1)[OF w v] this]
  obtain m' where m': "swap_nomination m old new = Some ((x, y + x), m')"
    "amounts (n_nominations m') = (amounts (n_nominations m))(new \<mapsto> y + x)"
    using swap_nomination_existing[OF well_linkedD(3)[OF w n(2)] ne old new] by metis
  let ?v' = "v\<lparr>v_nominators := filter (\<lambda>b. owner b \<noteq> n) (v_nominators v), v_total := v_total v - x\<rparr>"
  obtain t u' where u': "(if x < y + x then update_nominator u n (y + x) else add_nominator u n x) = (t, u')"
    by (rule prod.exhaust)
  obtain s' where s': "switch_nomination T origin old new s = ok s'"
    "Candidates s' old = Some ?v'" "Nominators s' n = Some m'"
    using n ne v u m'(1) u' by (simp add: switch_nomination_def rm update_if_active_eq)
  have "ascending owner (filter (\<lambda>b. owner b \<noteq> n) (v_nominators v))"
    by (rule ascending_filter[OF valid_validatorD(1)[OF well_linkedD(1)[OF w v]]])
  then show thesis using that[OF s'(1,2) _ _ s'(3)] m'(2) old ne by (simp add: amounts_filter)
qed

text \<open>A nominator whose record names a candidate that does not list it cannot leave.\<close>

lemma leave_each_stuck:
  assumes "b \<in> set bs" "Candidates s (owner b) = Some v" "dropped_amount n (v_nominators v) = None"
  shows "\<exists>e s'. leave_each T n bs s = (Inl e, s')"
  using assms
proof (induction bs arbitrary: s)
  case (Cons d bs)
  obtain r t where t: "nominator_leaves_validator T n (owner d) s = (r, t)" by (rule prod.exhaust)
  show ?case
  proof (cases r)
    case (Inl e)
    with t show ?thesis by simp
  next
    case (Inr u)
    have "owner d \<noteq> owner b"
      using t Inr Cons.prems(2,3) by (auto simp: nominator_leaves_validator_def)
    with Cons.prems(1) have "b \<in> set bs" by auto
    moreover have "Candidates t (owner b) = Some v"
      using t Inr Cons.prems(2) \<open>owner d \<noteq> owner b\<close>
      by (auto simp: nominator_leaves_validator_def update_if_active_eq split: option.splits)
    ultimately show ?thesis using Cons.IH[of t] Cons.prems(3) t Inr by simp
  qed
qed simp

section \<open>Changing a bond\<close>

fun bond_change :: "'a stake_call \<Rightarrow> balance" where
  "bond_change (CandidateBondMore x) = x"
| "bond_change (CandidateBondLess x) = x"
| "bond_change (NominatorBondMore _ x) = x"
| "bond_change (NominatorBondLess _ x) = x"
| "bond_change _ = 0"

lemma unaccounted:
  assumes "accounted s" "Candidates s c = Some v" "Candidates s' = (Candidates s)(c \<mapsto> v')"
    and "Total s' = Total s" "v_total v' \<noteq> v_total v"
  shows "Total s' \<noteq> sum_totals (Candidates s')"
  using assms sum_totals_update[of "Candidates s" c v v'] by (simp add: accounted_def)

lemma bond_change_unaccounted:
  assumes inv: "stake_inv T other s" and acc: "accounted s" and x: "bond_change call \<noteq> 0"
    and call: "dispatch_call T origin call s = Some (Inr (), s')"
  shows "Total s' \<noteq> sum_totals (Candidates s')"
proof -
  note w = stake_invD(1)[OF inv]
  have backed: "amounts (v_nominators v) n = Some y"
    if "Candidates s c = Some v" "Nominators s n = Some m" "amounts (n_nominations m) c = Some y" for c v n m y
    using edge_symmetric[OF w that(1,2)] that(3) by simp
  consider (cm) x where "call = CandidateBondMore x" | (cl) x where "call = CandidateBondLess x"
    | (nm) c x where "call = NominatorBondMore c x" | (nl) c x where "call = NominatorBondLess c x"
    using x by (cases call) auto
  then show ?thesis
  proof cases
    case cm
    with call have "candidate_bond_more T origin x s = (Inr (), s')" by simp
    then show ?thesis
    proof (cases rule: candidate_bond_more_cases)
      case (success c v l)
      then show ?thesis using x cm by (intro unaccounted[OF acc success(3,6)]) (auto simp: bond_more_def)
    qed simp
  next
    case cl
    with call have "candidate_bond_less T origin x s = (Inr (), s')" by simp
    then show ?thesis
    proof (cases rule: candidate_bond_less_cases)
      case (success c v v')
      then show ?thesis using x cl by (intro unaccounted[OF acc success(3,9)]) auto
    qed simp
  next
    case nm
    with call have "nominator_bond_more T origin c x s = (Inr (), s')" by simp
    then show ?thesis
    proof (cases rule: nominator_bond_more_cases)
      case (success n m v y m' v' l)
      then show ?thesis using x nm inc_nominator_eq[OF backed[OF success(4,3,5)]]
        by (intro unaccounted[OF acc success(4,9)]) auto
    qed simp
  next
    case nl
    with call have "nominator_bond_less T origin c x s = (Inr (), s')" by simp
    then show ?thesis
    proof (cases rule: nominator_bond_less_cases)
      case (success n m v y m' v')
      then show ?thesis using x nl dec_nominator_eq[OF backed[OF success(4,3,5)]]
        by (intro unaccounted[OF acc success(4,11)]) auto
    qed simp
  qed
qed

section \<open>The number of nominators of a validator\<close>

definition bounded_nominators :: "('o, 'c, 'a) config \<Rightarrow> ('c, 'a) storage \<Rightarrow> bool" where
  "bounded_nominators T s \<longleftrightarrow>
     (\<forall>c v. Candidates s c = Some v \<longrightarrow> length (v_nominators v) \<le> unat (MaxNominatorsPerValidator T))"

lemma bounded_update:
  assumes "bounded_nominators T s" "Candidates s' = (Candidates s)(c \<mapsto> v')"
    and "length (v_nominators v') \<le> unat (MaxNominatorsPerValidator T)"
  shows "bounded_nominators T s'"
  using assms by (auto simp: bounded_nominators_def)

lemma unat_of_nat_small: "n \<le> unat (k :: u32) \<Longrightarrow> k < 2 ^ 32 - 1 \<Longrightarrow> unat (of_nat (Suc n) :: u32) = Suc n"
  by (rule of_nat_inverse) (auto simp: word_less_nat_alt)

end
