(* ===== verification/Stake_Properties.thy ===== *)
theory Stake_Properties
  imports Stake_Defects
begin

text \<open>
  The properties of the stake pallet: of its calls, of the round change and of the rewards, each
  with an instance on the mock runtime.
\<close>

section \<open>Round change\<close>

lemma electable_card:
  assumes "linked s"
  shows "card (electable s) = length (CandidatePool s)"
proof -
  have "ascending owner (CandidatePool s)" using assms by (auto simp: linked_def dest: well_linkedD(5))
  then have "distinct (map owner (CandidatePool s))" by (rule ascending_distinct)
  then show ?thesis using pool_candidate(1)[OF assms] by (metis distinct_card length_map set_map)
qed

text \<open>C5: the validators of the new round are strictly sorted, are found by \<open>can_author\<close>, are as
  many active candidates as \<open>MaxValidators\<close> allows, have at least the stake of every active
  candidate that was not chosen, and their exposure is snapshotted for the round.\<close>

theorem elected_validators:
  assumes "config_ok T" "sort_law T" "stake_inv T other s" "next_round T n s = Some s'"
  shows "sorted_wrt (<) (Validators s') \<and>
    (\<forall>a. can_author s' a \<longleftrightarrow> a \<in> set (Validators s')) \<and>
    length (Validators s') = min (unat (MaxValidators T)) (card (electable s')) \<and>
    (\<forall>c\<in>set (Validators s'). c \<in> electable s' \<and>
       AtStake s' (Round s', c) = map_option to_snapshot (Candidates s' c) \<and>
       (\<forall>d\<in>electable s' - set (Validators s'). candidate_total s' d \<le> candidate_total s' c))"
proof -
  obtain t where t: "next_round T n s = Some t" "stake_inv T other t" "Round t = Round s + 1"
    "Validators t = sort_vec ord_cmp (top_candidates T t)"
    "\<And>a. a \<in> set (top_candidates T t) \<Longrightarrow> AtStake t (Round s + 1, a) = map_option to_snapshot (Candidates t a)"
    using next_round_run[OF assms(1-3), of n] by metis
  have s': "s' = t" using t(1) assms(4) by simp
  note lk = stake_inv_linked[OF t(2)]
  note top = top_candidates_electable[OF assms(2) lk]
  note sorted = sorted_validators[OF top(2)]
  have asc: "sorted_wrt (<) (Validators t)" using sorted(1) by (simp add: t(4))
  have "length (Validators t) = length (top_candidates T t)"
    by (metis t(4) account_order.mset_sort_vec mset_eq_length)
  then show ?thesis
    using asc t sorted(2) top top_candidates_best[OF assms(2) lk] electable_card[OF lk]
      is_validator_iff[of t] by (auto simp: s' can_author_def)
qed

theorem elected_validators_witness:
  "sorted_wrt (<) (Validators (the (next_round mock 5 demo)))"
proof -
  obtain s' where "next_round mock 5 demo = Some s'" using next_round_run[OF mock_ok demo_inv] by metis
  with elected_validators[OF mock_ok demo_inv] show ?thesis by simp
qed


definition demo_leaving :: "(nat ledger, nat) storage" where
  "demo_leaving = snd (leave_candidates (mock\<lparr>BondDuration := 1\<rparr>) (Some 2) demo)"

lemma demo_leaving_inv: "stake_inv mock (\<lambda>_. 0) demo_leaving"
proof -
  have "stake_inv (mock\<lparr>BondDuration := 1\<rparr>) (\<lambda>_. 0) demo" using demo_inv by (simp add: inv_defs)
  from leave_candidates_inv[OF this, of "Some 2"] have "stake_inv (mock\<lparr>BondDuration := 1\<rparr>) (\<lambda>_. 0) demo_leaving"
    unfolding demo_leaving_def by (metis prod.collapse)
  then show ?thesis by (simp add: inv_defs)
qed


section \<open>Calls of nominators\<close>



text \<open>C16: a switch to a validator the nominator does not nominate moves the nomination with its
  amount from the one validator to the other, in the record of the nominator and in both
  candidates; no balance is reserved or released, \<open>Total\<close> stays, and the invariant is kept.\<close>

theorem switch_nomination_moves:
  assumes "stake_inv T other s" "fresh_nomination T origin new s" "ensure_signed T origin = Inr n"
    and "switch_nomination T origin old new s = ok s'"
  shows "\<exists>x. nominated (Nominators s) n old = Some x \<and>
    (\<forall>k. nominated (Nominators s') k =
       (if k = n then (nominated (Nominators s) n)(old := None, new \<mapsto> x) else nominated (Nominators s) k)) \<and>
    Ledger s' = Ledger s \<and> Total s' = Total s \<and> stake_inv T other s'"
  using assms(1,2,4)
proof (cases rule: switch_nomination_cases)
  case (success k m x v u v' u' m')
  have k: "k = n" using success(2) assms(3) by simp
  note sw = swap_nomination_fresh(3)[OF well_linkedD(3)[OF stake_invD(1)[OF assms(1)] success(4)] success(8,3,7)]
  show ?thesis using success sw switch_nomination_inv[OF assms(1,2,4)]
    by (intro exI[of _ x]) (auto simp: nominated_def k)
qed simp

theorem switch_nomination_moves_witness:
  "stake_inv mock (\<lambda>_. 0) (snd (switch_nomination mock (Some 4) 2 3 demo)) \<and>
   nominated (Nominators (snd (switch_nomination mock (Some 4) 2 3 demo))) 4 3 = Some 10"
proof -
  have "fst (switch_nomination mock (Some 4) 2 3 demo) = Inr ()" by (simp add: demo_def running)
  then obtain s' where s': "switch_nomination mock (Some 4) 2 3 demo = ok s'" by (metis prod.collapse)
  have "fresh_nomination mock (Some 4) 3 demo" "ensure_signed mock (Some 4) = Inr 4"
    "nominated (Nominators demo) 4 2 = Some 10"
    by (simp_all add: fresh_nomination_def nominated_def demo_def mock_def)
  with switch_nomination_moves[OF demo_inv _ _ s', of 4] s' show ?thesis by simp
qed


definition demo_both :: "(nat ledger, nat) storage" where
  "demo_both = snd (nominate_new mock (Some 4) 3 6 demo)"

lemma demo_both_inv: "stake_inv mock (\<lambda>_. 0) demo_both"
  unfolding demo_both_def using nominate_new_inv[OF mock_ok(1) demo_inv] prod.collapse by metis


section \<open>The total\<close>




definition demo_more :: "(nat ledger, nat) storage" where
  "demo_more = snd (candidate_bond_more mock (Some 2) 60 demo)"


text \<open>The difference lets \<open>Total\<close> wrap around below zero when the candidate exits: two candidates
  have 72 staked, one of them bonds 60 more and exits, and \<open>Total\<close> becomes \<open>2 ^ 128 - 18\<close>.\<close>

lemma exit_wraps_total:
  "Total demo_more = 72 \<and> candidate_total demo_more 2 = 90 \<and>
   Total (exit_candidate mock 2 demo_more) = 340282366920938463463374607431768211438"
proof -
  have c: "\<exists>v. Candidates demo_more 2 = Some v \<and> v_total v = 90" and t: "Total demo_more = 72"
    by (simp_all add: demo_more_def demo_def running)
  then show ?thesis using exit_candidate_frame(4)[of demo_more 2 _ mock] by auto
qed

end
