(* ===== verification/Stake_Outcomes.thy ===== *)
theory Stake_Outcomes
  imports Stake_Refinement Stake_Properties
begin

text \<open>
  The stake pallet against its abstract specification, and the outcome of its calls: exactly when a
  call succeeds, that a failed call leaves the storage alone, what cannot be done with a candidate
  that leaves, and which limit on the number of nominators the calls keep.
\<close>

section \<open>Helpers\<close>

lemma ascending_amounts_unique:
  assumes "ascending owner P" "ascending owner Q" "amounts P = amounts Q"
  shows "P = Q"
proof (rule nth_equalityI)
  have "set (map owner P) = set (map owner Q)" using assms(3) dom_view[of owner amount] by (metis image_set)
  then have owners: "map owner P = map owner Q" using strict_sorted_equal assms(1,2) by blast
  then show len: "length P = length Q" by (metis length_map)
  fix i assume i: "i < length P"
  have own: "owner (P ! i) = owner (Q ! i)" using owners i len by (metis nth_map)
  moreover have "Some (amount (P ! i)) = Some (amount (Q ! i))"
    using view_SomeI[OF ascending_distinct[OF assms(1)], of "P ! i" amount]
      view_SomeI[OF ascending_distinct[OF assms(2)], of "Q ! i" amount] own assms(3) i len by simp
  ultimately show "P ! i = Q ! i" by (intro bond.equality) simp_all
qed

lemma nominator_total_exact:
  assumes "stake_inv T other s" "Nominators s n = Some m"
  shows "unat (n_total m) = nat_sum (n_nominations m)"
  using valid_nominatorD(2)[OF well_linkedD(3)[OF stake_invD(1)[OF assms(1)] assms(2)]]
    covers_stake_le[OF stake_invD(2)[OF assms(1)] assms(2)]
    unat_sum_list_exact[of amount "n_nominations m"] by simp

section \<open>Refinement\<close>









section \<open>Outcomes\<close>

text \<open>C21: an account can become a candidate exactly if it is neither candidate nor nominator, its fee
  is at most the maximum, its bond is at least the minimum and its balance can be reserved; in
  particular the insertion into the candidate pool never fails.\<close>

theorem join_candidates_outcome:
  assumes "stake_inv T other s" "ensure_signed T origin = Inr a"
  shows "(\<exists>s'. join_candidates T origin fee x s = ok s') \<longleftrightarrow>
    Candidates s a = None \<and> Nominators s a = None \<and> fee \<le> MaxFee T \<and> MinValidatorStk T \<le> x \<and>
    (\<exists>c. reserve (Currency T) (Ledger s) a x = Inr c)"
proof -
  note D = well_linkedD[OF stake_invD(1)[OF assms(1)]]
  have new: "fst (set_insert bond_cmp \<lparr>owner = a, amount = x\<rparr> (CandidatePool s))" if "Candidates s a = None"
    using insert_bond(3)[OF D(5), of a x] D(6)[of a] that by simp
  show ?thesis
  proof (cases "Candidates s a")
    case None
    then show ?thesis using assms(2) new
      by (auto simp: join_candidates_def is_candidate_def is_nominator_def split: sum.splits prod.splits bool.splits)
  next
    case (Some v)
    then show ?thesis using assms(2) by (simp add: join_candidates_def is_candidate_def)
  qed
qed

theorem join_candidates_outcome_witness: "\<exists>s'. join_candidates mock (Some 6) 0 50 demo = ok s'"
proof -
  have "reserve mock_currency (Ledger demo) 6 50 \<noteq> Inl e" for e
    by (simp add: demo_def mock_currency_def ledger_reserve_def)
  then have "\<exists>c. reserve (Currency mock) (Ledger demo) 6 50 = Inr c" by (cases "reserve mock_currency (Ledger demo) 6 50") auto
  then show ?thesis using join_candidates_outcome[OF demo_inv mock_sel(1)[of 6], of 0 50]
    by (simp add: demo_def mock_def)
qed

text \<open>C22: a nominator can nominate one more candidate exactly if the amount is at least the minimal
  nomination, the candidate exists and is not yet nominated by it, neither of the two limits is
  reached and the amount can be reserved.\<close>

theorem nominate_new_outcome:
  assumes "stake_inv T other s" "ensure_signed T origin = Inr a"
  shows "(\<exists>s'. nominate_new T origin c x s = ok s') \<longleftrightarrow>
    (\<exists>m v l. Nominators s a = Some m \<and> Candidates s c = Some v \<and> nominated (Nominators s) a c = None \<and>
      MinNomination T \<le> x \<and> (of_nat (length (n_nominations m)) :: u32) < MaxValidatorsPerNominator T \<and>
      (of_nat (length (v_nominators v)) :: u32) < MaxNominatorsPerValidator T \<and>
      reserve (Currency T) (Ledger s) a x = Inr l)" (is "?L \<longleftrightarrow> ?R")
proof
  assume ?L
  then obtain s' where call: "nominate_new T origin c x s = ok s'" by blast
  then show ?R
  proof (cases rule: nominate_new_cases)
    case (success n m v m' noms v' l)
    note nom = well_linkedD(3)[OF stake_invD(1)[OF assms(1)] success(4)]
    have "amounts (n_nominations m) c = None"
      using add_nomination_dup[OF nom, of "\<lparr>owner = c, amount = x\<rparr>"] success(8) by fastforce
    with success assms(2) show ?thesis by (auto simp: nominated_def)
  qed simp
next
  assume ?R
  then obtain m v l where r: "Nominators s a = Some m" "Candidates s c = Some v" "amounts (n_nominations m) c = None"
    "MinNomination T \<le> x" "(of_nat (length (n_nominations m)) :: u32) < MaxValidatorsPerNominator T"
    "(of_nat (length (v_nominators v)) :: u32) < MaxNominatorsPerValidator T"
    "reserve (Currency T) (Ledger s) a x = Inr l" by (auto simp: nominated_def)
  note w = stake_invD(1)[OF assms(1)]
  have "amounts (v_nominators v) a = None" using edge_symmetric[OF w r(2,1)] r(3) by simp
  then have "fst (set_insert bond_cmp \<lparr>owner = a, amount = x\<rparr> (v_nominators v))"
    by (rule insert_bond(3)[OF valid_validatorD(1)[OF well_linkedD(1)[OF w r(2)]]])
  then obtain noms where "set_insert bond_cmp \<lparr>owner = a, amount = x\<rparr> (v_nominators v) = (True, noms)"
    by (metis (full_types) prod.collapse)
  then show ?L using assms(2) r add_nomination_eq[OF well_linkedD(3)[OF w r(1)], of "\<lparr>owner = c, amount = x\<rparr>"]
    by (simp add: nominate_new_def)
qed

theorem nominate_new_outcome_witness: "\<not> (\<exists>s'. nominate_new mock (Some 4) 2 6 demo = ok s')"
  using nominate_new_outcome[OF demo_inv mock_sel(1)[of 4], of 2 6] by (simp add: nominated_def demo_def)



text \<open>C25: going offline and back online restores candidates, nominators, pool, exit queue, ledger and
  total, and the second call cannot fail.\<close>

theorem offline_online_roundtrip:
  assumes "stake_inv T other s" "go_offline T origin s = ok s1"
  shows "\<exists>s2. go_online T origin s1 = ok s2 \<and> Candidates s2 = Candidates s \<and> Nominators s2 = Nominators s \<and>
    CandidatePool s2 = CandidatePool s \<and> ExitQueue s2 = ExitQueue s \<and> Ledger s2 = Ledger s \<and> Total s2 = Total s"
  using assms(2)
proof (cases rule: go_offline_cases)
  case (success c v)
  note inv1 = go_offline_inv[OF assms]
  note D = well_linkedD[OF stake_invD(1)[OF assms(1)]] and D1 = well_linkedD[OF stake_invD(1)[OF inv1]]
  have state: "v_state v = Active" using success(4) by (simp add: is_active_def split: ValidatorStatus.splits)
  have v1: "Candidates s1 c = Some (set_offline v)" using success(5) by simp
  let ?b = "\<lparr>owner = c, amount = v_total v\<rparr>"
  have "amounts (CandidatePool s1) c = None" using D1(6)[of c] v1 by (simp add: pool_entry_def set_offline_def is_active_def)
  note ins = insert_bond[OF D1(5) this, of "v_total v"]
  then obtain P where P: "set_insert bond_cmp ?b (CandidatePool s1) = (True, P)"
    by (metis (full_types) prod.collapse)
  have "amounts P a = amounts (CandidatePool s) a" for a
    using ins(2) P D(6)[of a] D1(6)[of a] success(3,4,5) by (simp add: pool_entry_def)
  then have pool: "P = CandidatePool s"
    using ins(1) P by (intro ascending_amounts_unique[OF _ D(5)]) auto
  have onl: "set_online (set_offline v) = v" using state by (simp add: set_online_def set_offline_def)
  have "go_online T origin s1 = ok (deposit_event (ValidatorBackOnline (Round s1) c) (put_candidate c v (s1\<lparr>CandidatePool := P\<rparr>)))"
    using success(2) v1 P onl
    by (simp add: go_online_def is_active_def is_leaving_def set_offline_def set_online_def)
  then show ?thesis using success(3,5-9) pool by (auto simp: map_upd_triv)
qed simp

theorem offline_online_roundtrip_witness:
  "\<exists>s1 s2. go_offline mock (Some 2) demo = ok s1 \<and> go_online mock (Some 2) s1 = ok s2 \<and> CandidatePool s2 = CandidatePool demo"
proof -
  have "fst (go_offline mock (Some 2) demo) = Inr ()" by (simp add: demo_def running)
  then obtain s1 where "go_offline mock (Some 2) demo = ok s1" by (metis prod.collapse)
  with offline_online_roundtrip[OF demo_inv this] show ?thesis by blast
qed

text \<open>C24: a candidate that has asked to leave is scheduled for the current round plus the bond
  duration, is no longer electable, and cannot change its mind: every further call of a candidate
  fails.\<close>

theorem leaving_is_final:
  assumes "stake_inv T other s" "ensure_signed T origin = Inr c" "leave_candidates T origin s = ok s'"
  shows "stk_status (staking_of s') c = Some (Leaving (Round s + BondDuration T)) \<and> c \<notin> electable s' \<and>
    leave_candidates T origin s' = err AlreadyLeaving s' \<and>
    go_online T origin s' = err CannotActivateIfLeaving s' \<and>
    go_offline T origin s' = err AlreadyOffline s' \<and>
    candidate_bond_more T origin x s' = err CannotActivateIfLeaving s' \<and>
    candidate_bond_less T origin y s' = err CannotActivateIfLeaving s'"
  using assms(3)
proof (cases rule: leave_candidates_cases)
  case (success d v E)
  have c: "d = c" using success(2) assms(2) by simp
  have v: "Candidates s' c = Some (set_leaving v (Round s + BondDuration T))" using success(6) c by simp
  then show ?thesis using assms(2)
    by (simp add: set_leaving_def electable_def leave_candidates_def go_online_def go_offline_def
        candidate_bond_more_def candidate_bond_less_def is_leaving_def is_active_def)
qed simp

theorem leaving_is_final_witness:
  "\<exists>s'. leave_candidates mock (Some 2) demo = ok s' \<and> go_online mock (Some 2) s' = err CannotActivateIfLeaving s'"
proof -
  have "fst (leave_candidates mock (Some 2) demo) = Inr ()" by (simp add: demo_def running)
  then obtain s' where "leave_candidates mock (Some 2) demo = ok s'" by (metis prod.collapse)
  with leaving_is_final[OF demo_inv mock_sel(1) this] show ?thesis by blast
qed



section \<open>The limit on nominators\<close>

lemma length_dedup: "length (dedup cmp xs) \<le> length xs"
  by (induction cmp xs rule: dedup.induct) auto

lemma length_from_vec: "length (from_vec bond_cmp xs) \<le> length xs"
  using length_dedup[of bond_cmp "sort_vec bond_cmp xs"] mset_eq_length[OF bond_order.mset_sort_vec[of xs]]
  by (simp add: from_vec_def from_sorted_set_def)

lemma leaves_validator_bounded:
  assumes "nominator_leaves_validator T n c s = (r, s')" "bounded_nominators T s"
  shows "bounded_nominators T s'"
proof -
  have "Candidates s' = Candidates s \<or> (\<exists>v v'. Candidates s c = Some v \<and> Candidates s' = (Candidates s)(c \<mapsto> v') \<and>
      v_nominators v' = from_vec bond_cmp (filter (\<lambda>b. owner b \<noteq> n) (v_nominators v)))"
    using assms(1) unfolding nominator_leaves_validator_def update_if_active_eq
    by (auto split: call_splits)
  then show ?thesis
  proof (elim disjE exE conjE)
    fix v v' assume v: "Candidates s c = Some v" "Candidates s' = (Candidates s)(c \<mapsto> v')"
      "v_nominators v' = from_vec bond_cmp (filter (\<lambda>b. owner b \<noteq> n) (v_nominators v))"
    have "length (v_nominators v') \<le> length (v_nominators v)"
      unfolding v(3) using length_from_vec length_filter_le order_trans by blast
    also have "\<dots> \<le> unat (MaxNominatorsPerValidator T)" using assms(2) v(1) by (simp add: bounded_nominators_def)
    finally show ?thesis by (rule bounded_update[OF assms(2) v(2)])
  qed (use assms(2) in \<open>simp add: bounded_nominators_def\<close>)
qed

lemma leave_each_bounded:
  "leave_each T n bs s = (r, s') \<Longrightarrow> bounded_nominators T s \<Longrightarrow> bounded_nominators T s'"
  by (induction bs arbitrary: s) (auto dest: leaves_validator_bounded split: call_splits)

lemma bounded_frame [simp]:
  "bounded_nominators T (deposit_event e s) = bounded_nominators T s"
  "bounded_nominators T (put_nominator n m s) = bounded_nominators T s"
  "bounded_nominators T (s\<lparr>Nominators := N\<rparr>) = bounded_nominators T s"
  by (simp_all add: bounded_nominators_def deposit_event_def put_nominator_def)

lemma bounded_put:
  assumes "bounded_nominators T s" "Candidates s c = Some v" "Candidates s' = (Candidates s)(c \<mapsto> v')"
    and "length (v_nominators v') = length (v_nominators v)"
  shows "bounded_nominators T s'"
  using assms by (auto simp: bounded_nominators_def)

lemma candidate_calls_bounded:
  assumes "bounded_nominators T s"
  shows "join_candidates T origin fee x s = (r, s') \<Longrightarrow> bounded_nominators T s'"
    "leave_candidates T origin s = (r, s') \<Longrightarrow> bounded_nominators T s'"
    "go_offline T origin s = (r, s') \<Longrightarrow> bounded_nominators T s'"
    "go_online T origin s = (r, s') \<Longrightarrow> bounded_nominators T s'"
    "candidate_bond_more T origin x s = (r, s') \<Longrightarrow> bounded_nominators T s'"
    "candidate_bond_less T origin x s = (r, s') \<Longrightarrow> bounded_nominators T s'"
  using assms
  by (auto elim!: join_candidates_cases leave_candidates_cases go_offline_cases go_online_cases
        candidate_bond_more_cases candidate_bond_less_cases
      simp: bounded_nominators_def new_validator_def new_set_def set_leaving_def set_offline_def set_online_def bond_more_def
      split: if_splits)

text \<open>An insertion below the limit stays within it.\<close>

lemma insert_within_limit:
  assumes "set_insert bond_cmp b xs = (True, ys)" "ascending owner xs" "length xs \<le> unat k" "k < 2 ^ 32 - 1"
    and "(of_nat (length ys) :: u32) \<le> k \<or> (of_nat (length xs) :: u32) < k"
  shows "length ys \<le> unat k"
proof -
  obtain a v where b: "b = \<lparr>owner = a, amount = v\<rparr>" by (cases b) auto
  have "amounts xs a = None" using insert_bond_dup[OF assms(2), of b] assms(1) b by fastforce
  then have "length ys = Suc (length xs)" using insert_bond(4)[OF assms(2), of a v] assms(1) b by simp
  moreover have "unat (of_nat (Suc (length xs)) :: u32) = Suc (length xs)"
    by (rule unat_of_nat_small[OF assms(3,4)])
  moreover from this have "unat (of_nat (length xs) :: u32) = length xs"
    using of_nat_inverse[of "length xs"] assms(3) unsigned_less[of k] by (metis le_less_trans)
  ultimately show ?thesis using assms(5) by (auto simp: word_le_nat_alt word_less_nat_alt)
qed

lemma joins_bounded:
  assumes "bounded_nominators T s" "MaxNominatorsPerValidator T < 2 ^ 32 - 1" "linked s"
  shows "join_nominators T origin c x s = (r, s') \<Longrightarrow> bounded_nominators T s'"
    "nominate_new T origin c x s = (r, s') \<Longrightarrow> bounded_nominators T s'"
proof -
  have within: "length ys \<le> unat (MaxNominatorsPerValidator T)"
    if "Candidates s c = Some v" "set_insert bond_cmp b (v_nominators v) = (True, ys)"
      "(of_nat (length ys) :: u32) \<le> MaxNominatorsPerValidator T \<or>
       (of_nat (length (v_nominators v)) :: u32) < MaxNominatorsPerValidator T" for v b ys
    using insert_within_limit[OF that(2) _ _ assms(2) that(3)] that(1) assms(1)
      valid_validatorD(1)[OF well_linkedD(1)[OF assms(3)[unfolded linked_def] that(1)]]
    by (simp add: bounded_nominators_def)
  { assume "join_nominators T origin c x s = (r, s')"
    then show "bounded_nominators T s'"
    proof (cases rule: join_nominators_cases)
      case (success n v noms v' l)
      then show ?thesis using within[OF success(6,7)] by (intro bounded_update[OF assms(1) success(11)]) auto
    qed (use assms(1) in simp) }
  { assume "nominate_new T origin c x s = (r, s')"
    then show "bounded_nominators T s'"
    proof (cases rule: nominate_new_cases)
      case (success n m v m' noms v' l)
      then show ?thesis using within[OF success(5,9)] by (intro bounded_update[OF assms(1) success(12)]) auto
    qed (use assms(1) in simp) }
qed

lemma length_update_first: "length (update_first P f xs) = length xs"
  by (induction xs) auto

lemma length_changed_nominators [simp]:
  "length (v_nominators (inc_nominator v n x)) = length (v_nominators v)"
  "length (v_nominators (dec_nominator v n x)) = length (v_nominators v)"
  by (simp_all add: inc_nominator_def dec_nominator_def length_update_first split: option.split)

lemma nominator_changes_bounded:
  assumes "bounded_nominators T s"
  shows "nominator_bond_more T origin c x s = (r, s') \<Longrightarrow> bounded_nominators T s'"
    "nominator_bond_less T origin c x s = (r, s') \<Longrightarrow> bounded_nominators T s'"
    "leave_nominators T origin s = (r, s') \<Longrightarrow> bounded_nominators T s'"
    "revoke_nomination T origin c s = (r, s') \<Longrightarrow> bounded_nominators T s'"
proof -
  { assume "nominator_bond_more T origin c x s = (r, s')"
    then show "bounded_nominators T s'"
    proof (cases rule: nominator_bond_more_cases)
      case (success n m v y m' v' l)
      then show ?thesis by (intro bounded_put[OF assms success(4,9)]) simp
    qed (use assms in simp) }
  { assume "nominator_bond_less T origin c x s = (r, s')"
    then show "bounded_nominators T s'"
    proof (cases rule: nominator_bond_less_cases)
      case (success n m v y m' v')
      then show ?thesis by (intro bounded_put[OF assms success(4,11)]) simp
    qed (use assms in simp) }
  { assume "leave_nominators T origin s = (r, s')"
    then show "bounded_nominators T s'" using assms leave_each_bounded
      by (auto simp: leave_nominators_def split: call_splits) }
  { assume "revoke_nomination T origin c s = (r, s')"
    then show "bounded_nominators T s'" using assms leaves_validator_bounded
      by (auto simp: revoke_nomination_def nominator_revokes_validator_def split: call_splits) }
qed

text \<open>C27: every call other than \<open>switch_nomination\<close> keeps the number of nominators of every candidate
  within \<open>MaxNominatorsPerValidator\<close>.\<close>

theorem calls_keep_nominator_limit:
  assumes "stake_inv T other s" "bounded_nominators T s" "MaxNominatorsPerValidator T < 2 ^ 32 - 1"
    and "\<forall>old new. call \<noteq> SwitchNomination old new" "dispatch_call T origin call s = Some (r, s')"
  shows "bounded_nominators T s'"
proof -
  note joins = joins_bounded[OF assms(2,3) stake_inv_linked[OF assms(1)]]
  have "bounded_nominators T s'" if "set_staking_expectations T origin e s = (r, s')" for e
    using that assms(2) by (auto simp: set_staking_expectations_def bounded_nominators_def split: call_splits)
  moreover have "bounded_nominators T s'" if "set_inflation T origin e s = Some (r, s')" for e
    using that assms(2) by (auto simp: set_inflation_def bounded_nominators_def split: call_splits)
  ultimately show ?thesis
    using assms(4,5) joins candidate_calls_bounded[OF assms(2)] nominator_changes_bounded[OF assms(2)]
    by (cases call) auto
qed

theorem calls_keep_nominator_limit_witness: "bounded_nominators mock demo_both"
proof -
  have "bounded_nominators mock demo" by (auto simp: bounded_nominators_def demo_def mock_def split: if_splits)
  moreover have "dispatch_call mock (Some 4) (NominateNew 3 6) demo = Some (fst (nominate_new mock (Some 4) 3 6 demo), demo_both)"
    by (simp add: demo_both_def)
  ultimately show ?thesis using calls_keep_nominator_limit[OF demo_inv, of "NominateNew 3 6" "Some 4"] by simp
qed

definition crowd_stakers :: "(nat \<times> nat option \<times> balance) list" where
  "crowd_stakers = [(2, None, 20), (3, None, 20), (4, Some 2, 10), (5, Some 3, 10), (6, Some 3, 10),
     (7, Some 3, 10), (8, Some 3, 10)]"

definition crowd :: "(nat ledger, nat) storage" where
  "crowd = the (genesis_build mock crowd_stakers demo_start)"


end
