(* ===== verification/Stake_Blocks.thy ===== *)
theory Stake_Blocks
  imports Stake_Example
begin

text \<open>
  The stake pallet over a sequence of blocks: \<open>roll_to\<close> of \<^verbatim>\<open>src/pallets/stake/src/mock.rs\<close> runs the
  hooks of one block after the other up to a given block. The hooks of the other pallets of the mock
  do not touch the storage of the stake pallet, and the stake pallet has no \<open>on_initialize\<close>. Block
  numbers are those of the runtime, 32 bits wide.
\<close>

lemma block_step: "b < n \<Longrightarrow> unat (b + 1 :: u32) = Suc (unat b)"
  using unat_plus_exact[of b 1] unsigned_less[of n, where 'a = nat] by (simp add: word_less_nat_alt)

function roll_to :: "('o, 'c, 'a::linorder) config \<Rightarrow> u32 \<Rightarrow> u32 \<Rightarrow> ('c, 'a) storage \<Rightarrow> (u32 \<times> ('c, 'a) storage) option" where
  "roll_to T n block s =
     (if block < n
      then (case on_finalize T block s of None \<Rightarrow> None | Some s' \<Rightarrow> roll_to T n (block + 1) s')
      else Some (block, s))"
  by pat_completeness auto
termination
  by (relation "measure (\<lambda>(T, n, b, s). unat n - unat b)") (auto simp: block_step word_less_nat_alt)

declare roll_to.simps [simp del]

text \<open>The blocks from \<open>b\<close> up to \<open>n\<close>, the latter excluded, that end a round.\<close>

definition round_ends :: "('o, 'c, 'a) config \<Rightarrow> u32 \<Rightarrow> u32 \<Rightarrow> nat set" where
  "round_ends T b n = {k. unat b \<le> k \<and> k < unat n \<and> unat (BlocksPerRound T) dvd k}"

lemma round_ends_step:
  assumes "b < n"
  shows "card (round_ends T b n) = (if b mod BlocksPerRound T = 0 then 1 else 0) + card (round_ends T (b + 1) n)"
proof -
  have "b mod BlocksPerRound T = 0 \<longleftrightarrow> unat (BlocksPerRound T) dvd unat b"
    by (simp add: dvd_eq_mod_eq_0 unat_mod_distrib[symmetric] unat_eq_0)
  moreover have "round_ends T b n = (if unat (BlocksPerRound T) dvd unat b then {unat b} else {}) \<union> round_ends T (b + 1) n"
    using assms block_step[OF assms] unfolding round_ends_def
    by (auto simp: word_less_nat_alt Suc_le_eq dest: le_neq_implies_less)
  moreover have "finite (round_ends T (b + 1) n)" "unat b \<notin> round_ends T (b + 1) n"
    using block_step[OF assms] by (auto simp: round_ends_def)
  ultimately show ?thesis by simp
qed

lemma roll_to_run:
  assumes "config_ok T" "sort_law T" "BlocksPerRound T \<noteq> 0" "stake_inv T other s" "b \<le> n"
  shows "\<exists>s'. roll_to T n b s = Some (n, s') \<and> stake_inv T other s' \<and>
    Round s' = Round s + of_nat (card (round_ends T b n))"
  using assms
proof (induction T n b s rule: roll_to.induct)
  case (1 T n b s)
  show ?case
  proof (cases "b < n")
    case False
    then have "b = n" using 1 by simp
    moreover from this have "round_ends T b n = {}" by (auto simp: round_ends_def)
    ultimately show ?thesis using 1 by (simp add: roll_to.simps)
  next
    case True
    then have le: "b + 1 \<le> n" using block_step[OF True] by (simp add: word_le_nat_alt word_less_nat_alt)
    obtain t where t: "on_finalize T b s = Some t" "stake_inv T other t"
      "Round t = Round s + (if b mod BlocksPerRound T = 0 then 1 else 0)"
    proof (cases "b mod BlocksPerRound T = 0")
      case True
      obtain u where "next_round T b s = Some u" "stake_inv T other u" "Round u = Round s + 1"
        by (rule next_round_run[OF "1.prems"(1,2,4), of b])
      then show ?thesis using that[of u] True "1.prems"(3) by (simp add: on_finalize_def)
    next
      case False
      then show ?thesis using that[of s] "1.prems" by (simp add: on_finalize_def)
    qed
    from "1.IH"[OF True t(1) "1.prems"(1-3) t(2) le] t round_ends_step[OF True, of T] True
    show ?thesis by (cases "b mod BlocksPerRound T = 0") (auto simp: roll_to.simps[of T n b s] algebra_simps)
  qed
qed

text \<open>C15: rolling the chain forward always ends at the requested block: no block end panics, the
  invariant of the pallet holds afterwards, and the round has advanced by the number of blocks on the
  way that are multiples of \<open>BlocksPerRound\<close>.\<close>

theorem roll_to_arrives:
  assumes "config_ok T" "sort_law T" "BlocksPerRound T \<noteq> 0" "stake_inv T other s" "b \<le> n"
  shows "\<exists>s'. roll_to T n b s = Some (n, s') \<and> stake_inv T other s' \<and>
    Round s' = Round s + of_nat (card {k. unat b \<le> k \<and> k < unat n \<and> unat (BlocksPerRound T) dvd k})"
  using roll_to_run[OF assms] by (simp add: round_ends_def)

theorem roll_to_arrives_witness: "\<exists>s'. roll_to mock 11 2 demo = Some (11, s') \<and> Round s' = 3"
proof -
  have "{k. 2 \<le> k \<and> k < 11 \<and> 5 dvd k} = {5, 10 :: nat}"
    by (auto simp: dvd_def)
  then show ?thesis using roll_to_arrives[OF mock_ok _ demo_inv, of 2 11] by (auto simp: demo_def)
qed

end
