(* ===== verification/Stake_Mock.thy ===== *)
theory Stake_Mock
  imports Stake_Blocks
begin

text \<open>
  The fixtures of \<^verbatim>\<open>src/pallets/stake/src/mock.rs\<close> and runs of the model on them. The genesis of the balances
  pallet is an argument; \<open>mock_endow\<close> is an instance of it on the ledger of \<open>Stake_Example\<close>. The system pallet drops
  the events of the genesis block, and the first block is block 1. The lemmas replay tests of
  \<^verbatim>\<open>src/pallets/stake/src/tests.rs\<close> and get the events that the tests expect.
\<close>

section \<open>Fixtures\<close>

definition mock_genesis ::
  "((nat \<times> balance) list \<Rightarrow> nat ledger) \<Rightarrow> (nat \<times> balance) list \<Rightarrow> (nat \<times> nat option \<times> balance) list
     \<Rightarrow> (u32 \<times> (nat ledger, nat) storage) option" where
  "mock_genesis balances_build balances stakers =
     (case genesis_build mock stakers (initial_storage mock_inflation (balances_build balances)) of
        None \<Rightarrow> None
      | Some s \<Rightarrow> Some (1, s\<lparr>Events := []\<rparr>))"

definition two_validators_four_nominators ::
  "((nat \<times> balance) list \<Rightarrow> nat ledger) \<Rightarrow> (u32 \<times> (nat ledger, nat) storage) option" where
  "two_validators_four_nominators balances_build = mock_genesis balances_build
     [(1, 1000), (2, 300), (3, 100), (4, 100), (5, 100), (6, 100), (7, 100), (8, 9), (9, 4)]
     [(1, None, 500), (2, None, 200), (3, Some 1, 100), (4, Some 1, 100), (5, Some 2, 100), (6, Some 2, 100)]"

definition five_validators_no_nominators ::
  "((nat \<times> balance) list \<Rightarrow> nat ledger) \<Rightarrow> (u32 \<times> (nat ledger, nat) storage) option" where
  "five_validators_no_nominators balances_build = mock_genesis balances_build
     [(1, 1000), (2, 1000), (3, 1000), (4, 1000), (5, 1000), (6, 1000), (7, 33), (8, 33), (9, 33)]
     [(1, None, 100), (2, None, 90), (3, None, 80), (4, None, 70), (5, None, 60), (6, None, 50)]"

definition five_validators_five_nominators ::
  "((nat \<times> balance) list \<Rightarrow> nat ledger) \<Rightarrow> (u32 \<times> (nat ledger, nat) storage) option" where
  "five_validators_five_nominators balances_build = mock_genesis balances_build
     [(1, 100), (2, 100), (3, 100), (4, 100), (5, 100), (6, 100), (7, 100), (8, 100), (9, 100), (10, 100)]
     [(1, None, 20), (2, None, 20), (3, None, 20), (4, None, 20), (5, None, 10),
      (6, Some 1, 10), (7, Some 1, 10), (8, Some 2, 10), (9, Some 2, 10), (10, Some 1, 10)]"

definition one_validator_two_nominators ::
  "((nat \<times> balance) list \<Rightarrow> nat ledger) \<Rightarrow> (u32 \<times> (nat ledger, nat) storage) option" where
  "one_validator_two_nominators balances_build = mock_genesis balances_build
     [(1, 100), (2, 100), (3, 100), (4, 100), (5, 100), (6, 100)]
     [(1, None, 20), (2, Some 1, 10), (3, Some 1, 10)]"

definition set_author_points :: "round_index \<Rightarrow> 'a \<Rightarrow> reward_point \<Rightarrow> ('c, 'a) storage \<Rightarrow> ('c, 'a) storage" where
  "set_author_points round acc pts s =
     (let s1 = s\<lparr>Points := (Points s)(round := Points s round + pts)\<rparr>
      in s1\<lparr>AwardedPts := (AwardedPts s1)(round := AList.update acc (awarded_pts s1 round acc + pts) (AwardedPts s1 round))\<rparr>)"

text \<open>The comment in the mock, that these are the changes of \<open>note_author\<close>, holds.\<close>

lemma set_author_points_note: "set_author_points (Round s) a 20 s = note_author a s"
  by (simp add: set_author_points_def note_author_def awarded_pts_def Let_def)

text \<open>The log of the system pallet holds the events of all pallets of the mock. \<open>last_event\<close> panics on an empty
  log, \<open>events\<close> keeps those of the stake pallet, which are the log of the model.\<close>

datatype ('s, 'b, 'a) MetaEvent = SystemEvent 's | BalancesEvent 'b | StakeEvent "'a Event"

definition last_event :: "('s, 'b, 'a) MetaEvent list \<Rightarrow> ('s, 'b, 'a) MetaEvent option" where
  "last_event log = (if log = [] then None else Some (last log))"

definition events :: "('s, 'b, 'a) MetaEvent list \<Rightarrow> 'a Event list" where
  "events log = List.map_filter (\<lambda>e. case e of StakeEvent inner \<Rightarrow> Some inner | _ \<Rightarrow> None) log"

lemma events_append: "events (xs @ ys) = events xs @ events ys"
  by (simp add: events_def List.map_filter_def)

lemma last_event_stake:
  "last_event log = Some (StakeEvent e) \<Longrightarrow> \<exists>es. events log = es @ [e]"
  by (cases log rule: rev_cases) (auto simp: last_event_def events_append events_def List.map_filter_def)

section \<open>Replayed tests\<close>

definition mock_endow :: "(nat \<times> balance) list \<Rightarrow> nat ledger" where
  "mock_endow bs = \<lparr>free_of = (\<lambda>a. case map_of bs a of None \<Rightarrow> 0 | Some x \<Rightarrow> x), reserved_of = (\<lambda>_. 0),
     issued = sum_list (map snd bs)\<rparr>"

lemmas fixtures = running mock_genesis_def mock_endow_def two_validators_four_nominators_def
  five_validators_no_nominators_def five_validators_five_nominators_def one_validator_two_nominators_def

lemmas rolling = fixtures next_round_def pay_stakers_def execute_delayed_validator_exits_def roll_to.simps
  on_finalize_def exit_candidate_def release_nominations.simps(2)

lemma geneses:
  "case two_validators_four_nominators mock_endow of None \<Rightarrow> False
   | Some (_, s) \<Rightarrow> Events s = [] \<and> is_candidate s 1 \<and> is_candidate s 2 \<and> list_all (is_nominator s) [3, 4, 5, 6] \<and>
       \<not> list_ex (is_nominator s) [7, 8, 9] \<and>
       map (reserved_of (Ledger s)) [1..<10] = [500, 200, 100, 100, 100, 100, 0, 0, 0] \<and>
       map (free_of (Ledger s)) [1..<10] = [500, 100, 0, 0, 0, 0, 100, 9, 4]"
  by (simp add: fixtures is_candidate_def is_nominator_def upt_rec)

lemma validator_exit_executes_after_delay:
  "map_option (Events \<circ> snd)
     (case two_validators_four_nominators mock_endow of None \<Rightarrow> None
      | Some (b, s) \<Rightarrow>
         (case roll_to mock 11 b s of None \<Rightarrow> None
          | Some (b, s) \<Rightarrow> roll_to mock 21 b (snd (leave_candidates mock (Some 2) s)))) = Some
     [ValidatorChosen 2 1 700, ValidatorChosen 2 2 400, NewRound 5 2 2 1100,
      ValidatorChosen 3 1 700, ValidatorChosen 3 2 400, NewRound 10 3 2 1100,
      ValidatorScheduledExit 3 2 5,
      ValidatorChosen 4 1 700, NewRound 15 4 1 700,
      ValidatorLeft 2 400 700, ValidatorChosen 5 1 700, NewRound 20 5 1 700]"
  by (simp add: rolling)

text \<open>The products that the payouts of the tests need.\<close>

lemma mock_shares:
  "from_rational_u32 mock_perbill 100 100 = 1000000000" "perbill_mul mock_perbill 50000000 6099 = 305"
  "perbill_mul mock_perbill 1000000000 305 = 305"
  by (simp_all add: mock_perbill_def nat_ratio_def nat_mul_def)

lemma payout_distribution_to_solo_validators:
  "map_option (Events \<circ> snd)
     (case five_validators_no_nominators mock_endow of None \<Rightarrow> None
      | Some (b, s) \<Rightarrow>
         (case roll_to mock 8 b s of None \<Rightarrow> None
          | Some (b, s) \<Rightarrow> roll_to mock 16 b (set_author_points 2 1 100 s))) = Some
     [ValidatorChosen 2 1 100, ValidatorChosen 2 2 90, ValidatorChosen 2 3 80, ValidatorChosen 2 4 70,
      ValidatorChosen 2 5 60, NewRound 5 2 5 400,
      ValidatorChosen 3 1 100, ValidatorChosen 3 2 90, ValidatorChosen 3 3 80, ValidatorChosen 3 4 70,
      ValidatorChosen 3 5 60, NewRound 10 3 5 400,
      Rewarded 1 305,
      ValidatorChosen 4 1 100, ValidatorChosen 4 2 90, ValidatorChosen 4 3 80, ValidatorChosen 4 4 70,
      ValidatorChosen 4 5 60, NewRound 15 4 5 400]"
  by (simp add: rolling set_author_points_def awarded_pts_def pay_validator_def take_at_stake_def mint_def
      compute_issuance_def round_issuance_range_def mock_shares) (simp add: word_le_nat_alt)


lemma join_validator_candidates:
  "case two_validators_four_nominators mock_endow of None \<Rightarrow> False
   | Some (_, s) \<Rightarrow>
      fst (join_candidates mock (Some 1) 20000000 11 s) = Inl (Stake CandidateExists) \<and>
      fst (join_candidates mock (Some 3) 20000000 11 s) = Inl (Stake NominatorExists) \<and>
      fst (join_candidates mock (Some 7) 20000000 9 s) = Inl (Stake ValBondBelowMin) \<and>
      fst (join_candidates mock (Some 8) 20000000 10 s) = Inl (Foreign (ModuleError ''InsufficientBalance'')) \<and>
      fst (join_candidates mock (Some 7) 510000000 10 s) = Inl (Stake FeeOverMax) \<and>
      Events (snd (join_candidates mock (Some 7) 30000000 10 s)) = [JoinedValidatorCandidates 7 10 1110]"
  by (simp add: fixtures)

lemma online_offline_works:
  "map_option (Events \<circ> snd)
     (case two_validators_four_nominators mock_endow of None \<Rightarrow> None
      | Some (b, s) \<Rightarrow>
         (case roll_to mock 11 b s of None \<Rightarrow> None
          | Some (b, s) \<Rightarrow>
             (case roll_to mock 21 b (snd (go_offline mock (Some 2) s)) of None \<Rightarrow> None
              | Some (b, s) \<Rightarrow> roll_to mock 26 b (snd (go_online mock (Some 2) s))))) = Some
     [ValidatorChosen 2 1 700, ValidatorChosen 2 2 400, NewRound 5 2 2 1100,
      ValidatorChosen 3 1 700, ValidatorChosen 3 2 400, NewRound 10 3 2 1100,
      ValidatorWentOffline 3 2,
      ValidatorChosen 4 1 700, NewRound 15 4 1 700,
      ValidatorChosen 5 1 700, NewRound 20 5 1 700,
      ValidatorBackOnline 5 2,
      ValidatorChosen 6 1 700, ValidatorChosen 6 2 400, NewRound 25 6 2 1100]"
  by (simp add: rolling)

end
