(* ===== verification/Author_Inherent.thy ===== *)
theory Author_Inherent
  imports Substrate
begin

text \<open>
  \<^verbatim>\<open>src/pallets/author-inherent/src/lib.rs\<close>: the pallet that lets a block author put its
  identity into a block. The pallets it is configured with (the author checks and the event
  handler), the \<open>ensure_none\<close> check and the SCALE codec are the fields of \<open>author_config\<close>. The
  checks and the handler read and write the storage \<open>'s\<close> of the other pallets; a check that
  panics is \<open>None\<close>.
\<close>

section \<open>State and configuration\<close>

type_synonym bytes = "u8 list"

datatype AuthorError = AuthorAlreadySet | CannotBeAuthor

datatype AuthorDispatchError = AuthorPallet AuthorError | AuthorForeign dispatch_error

datatype digest_item = Consensus bytes bytes

record 'a author_storage =
  Author :: "'a option"
  DigestLogs :: "digest_item list"

record ('o, 's, 'a) author_config =
  ensure_none :: "'o \<Rightarrow> dispatch_error + unit"
  FinalCanAuthor :: "'s \<Rightarrow> 'a \<Rightarrow> bool option"
  PreliminaryCanAuthor :: "'s \<Rightarrow> 'a \<Rightarrow> bool option"
  EventHandler :: "'a \<Rightarrow> 's \<Rightarrow> 's"
  encode_account :: "'a \<Rightarrow> bytes"
  decode_account :: "bytes \<Rightarrow> 'a option"

definition ENGINE_ID :: bytes where
  "ENGINE_ID = [97, 117, 116, 104]"

definition INHERENT_IDENTIFIER :: bytes where
  "INHERENT_IDENTIFIER = [97, 117, 116, 104, 111, 114, 95, 95]"

text \<open>The implementations of the two traits for the unit type.\<close>

definition unit_note_author :: "'a \<Rightarrow> 's \<Rightarrow> 's" where
  "unit_note_author author s = s"

definition unit_can_author :: "'s \<Rightarrow> 'a \<Rightarrow> bool option" where
  "unit_can_author s account = Some True"

section \<open>Hooks and the call\<close>

definition author_on_initialize :: "'a author_storage \<Rightarrow> 'a author_storage" where
  "author_on_initialize s = s\<lparr>Author := None\<rparr>"

definition set_author ::
  "('o, 's, 'a) author_config \<Rightarrow> 'o \<Rightarrow> 'a \<Rightarrow> 'a author_storage \<times> 's
     \<Rightarrow> ((AuthorDispatchError + unit) \<times> ('a author_storage \<times> 's)) option" where
  "set_author T origin author st =
     (let (s, rest) = st
      in case ensure_none T origin of
           Inl e \<Rightarrow> Some (Inl (AuthorForeign e), st)
         | Inr _ \<Rightarrow>
             if Author s \<noteq> None then Some (Inl (AuthorPallet AuthorAlreadySet), st)
             else (case FinalCanAuthor T rest author of
                     None \<Rightarrow> None
                   | Some False \<Rightarrow> Some (Inl (AuthorPallet CannotBeAuthor), st)
                   | Some True \<Rightarrow>
                       (let s1 = s\<lparr>Author := Some author\<rparr>;
                            s2 = s1\<lparr>DigestLogs := DigestLogs s1 @ [Consensus ENGINE_ID (encode_account T author)]\<rparr>
                        in Some (Inr (), (s2, EventHandler T author rest)))))"

definition author_on_finalize :: "'a author_storage \<Rightarrow> 'a author_storage option" where
  "author_on_finalize s = (if Author s \<noteq> None then Some s else None)"

definition find_author :: "'a author_storage \<Rightarrow> 'a option" where
  "find_author s = Author s"

section \<open>The inherent\<close>

datatype InherentError = Other string

definition is_fatal_error :: "InherentError \<Rightarrow> bool" where
  "is_fatal_error e = (case e of Other _ \<Rightarrow> True)"

text \<open>\<open>try_from\<close> decodes an error of this pallet; the derived decoder is the first argument.\<close>

definition try_from_inherent :: "(bytes \<Rightarrow> InherentError option) \<Rightarrow> bytes \<Rightarrow> bytes \<Rightarrow> InherentError option" where
  "try_from_inherent decode ident data = (if ident = INHERENT_IDENTIFIER then decode data else None)"

definition error_to_string :: "(bytes \<Rightarrow> InherentError option) \<Rightarrow> (InherentError \<Rightarrow> string) \<Rightarrow> bytes \<Rightarrow> string option" where
  "error_to_string decode debug_format error =
     map_option debug_format (try_from_inherent decode INHERENT_IDENTIFIER error)"

text \<open>\<open>InherentData\<close> of \<open>sp_inherents\<close> holds one value for every identifier; its two operations
  fail with a message.\<close>

record 'd inherent_data_ops =
  put_data :: "bytes \<Rightarrow> bytes \<Rightarrow> 'd \<Rightarrow> string + 'd"
  get_data :: "bytes \<Rightarrow> 'd \<Rightarrow> string + bytes option"

definition inherent_data_law :: "'d inherent_data_ops \<Rightarrow> bool" where
  "inherent_data_law D \<longleftrightarrow> (\<forall>k x d d'. put_data D k x d = Inr d' \<longrightarrow> get_data D k d' = Inr (Some x))"

datatype 'a author_call = SetAuthor 'a

definition provide_inherent_data :: "'d inherent_data_ops \<Rightarrow> bytes \<Rightarrow> 'd \<Rightarrow> string + 'd" where
  "provide_inherent_data D author data = put_data D INHERENT_IDENTIFIER author data"

definition is_inherent_required :: "'d \<Rightarrow> InherentError option" where
  "is_inherent_required data = Some (Other ''AuthorInherentRequired'')"

definition create_inherent ::
  "('o, 's, 'a) author_config \<Rightarrow> 'd inherent_data_ops \<Rightarrow> 'd \<Rightarrow> 'a author_call option option" where
  "create_inherent T D data =
     (case get_data D INHERENT_IDENTIFIER data of
        Inl _ \<Rightarrow> None
      | Inr None \<Rightarrow> Some None
      | Inr (Some author_raw) \<Rightarrow>
          (case decode_account T author_raw of
             None \<Rightarrow> None
           | Some author \<Rightarrow> Some (Some (SetAuthor author))))"

definition check_inherent ::
  "('o, 's, 'a) author_config \<Rightarrow> 'a author_call \<Rightarrow> 's \<Rightarrow> (InherentError + unit) option" where
  "check_inherent T call rest =
     (case call of SetAuthor claimed_author \<Rightarrow>
        (case PreliminaryCanAuthor T rest claimed_author of
           None \<Rightarrow> None
         | Some False \<Rightarrow> Some (Inl (Other ''Cannot Be Author''))
         | Some True \<Rightarrow> Some (Inr ())))"

section \<open>What the call does\<close>

lemma set_author_cases:
  assumes call: "set_author T origin a (s, rest) = Some (r, st)"
  obtains (fail) e where "r = Inl e" "st = (s, rest)"
  | (success) "r = Inr ()" "ensure_none T origin = Inr ()" "Author s = None"
      "FinalCanAuthor T rest a = Some True" "Author (fst st) = Some a"
      "DigestLogs (fst st) = DigestLogs s @ [Consensus ENGINE_ID (encode_account T a)]"
      "snd st = EventHandler T a rest"
proof -
  show thesis
    using call unfolding set_author_def
    by (auto split: sum.split_asm if_split_asm option.split_asm bool.split_asm intro: fail success)
qed

section \<open>Contracts of the author checks\<close>

text \<open>
  The documentation of the configuration asks that the final check is the stricter one: an
  author that the preliminary check rules out is ruled out by the final check, too. \<open>ready\<close>
  describes the storages on which the two checks run.
\<close>

locale author_checks =
  fixes preliminary :: "'s \<Rightarrow> 'a \<Rightarrow> bool option"
    and final :: "'s \<Rightarrow> 'a \<Rightarrow> bool option"
    and ready :: "'s \<Rightarrow> bool"
  assumes final_stricter: "ready s \<Longrightarrow> final s a = Some True \<Longrightarrow> preliminary s a = Some True"
begin

text \<open>A block whose author inherent executes passes the check of its inherents.\<close>

lemma executed_inherent_checked:
  assumes "PreliminaryCanAuthor T = preliminary" "FinalCanAuthor T = final" "ready rest"
    and "set_author T origin a (s, rest) = Some (Inr (), st)"
  shows "check_inherent T (SetAuthor a) rest = Some (Inr ())"
  using assms(4)
proof (cases rule: set_author_cases)
  case success
  with assms final_stricter[of rest a] show ?thesis by (simp add: check_inherent_def)
qed simp

end

text \<open>The default checks accept every author.\<close>

interpretation unit_checks: author_checks unit_can_author unit_can_author "\<lambda>_. True"
  by unfold_locales

end
