(* ===== verification/Pallet_Tests.thy ===== *)
theory Pallet_Tests
  imports Stake_Example Author_Inherent
begin

text \<open>
  The test modules inside \<^verbatim>\<open>src/pallets/stake/src/inflation.rs\<close> and \<^verbatim>\<open>src/pallets/author-inherent/src/lib.rs\<close>.
  The inflation tests do not run the code of the module but mocks of it; the lemmas show that the mocks compute
  what the code computes, and that the expected numbers follow from the documented rounding of \<open>Perbill\<close> alone.
  For the author inherent the test runtime and its \<open>roll_to\<close> are modelled and both tests are replayed.
\<close>

section \<open>Inflation\<close>

definition mock_annual_to_round :: "perbill_ops \<Rightarrow> perbill Range \<Rightarrow> u32 \<Rightarrow> perbill Range option" where
  "mock_annual_to_round P annual rounds =
     (if rounds = 0 then None
      else Some \<lparr>r_min = from_parts P (r_min annual div rounds),
                 r_ideal = from_parts P (r_ideal annual div rounds),
                 r_max = from_parts P (r_max annual div rounds)\<rparr>)"

definition mock_round_issuance_range :: "perbill_ops \<Rightarrow> balance \<Rightarrow> perbill Range \<Rightarrow> balance Range" where
  "mock_round_issuance_range P circulating round =
     \<lparr>r_min = perbill_mul P (r_min round) circulating,
      r_ideal = perbill_mul P (r_ideal round) circulating,
      r_max = perbill_mul P (r_max round) circulating\<rparr>"

lemma annual_to_round_mock:
  "annual_to_round P n annual = Option.bind (rounds_per_year n) (mock_annual_to_round P annual)"
  by (simp add: annual_to_round_def mock_annual_to_round_def split: option.split)

lemma round_issuance_range_mock: "round_issuance_range P circulating r = mock_round_issuance_range P circulating r"
  by (simp add: round_issuance_range_def mock_round_issuance_range_def)

lemma perbill_mul_nearest:
  assumes "perbill_mul_law P" "unat p \<le> billion"
    and "2 * (unat p * unat x) < 2 * billion * n + billion" "2 * billion * n < 2 * (unat p * unat x) + billion"
  shows "unat (perbill_mul P p x) = n"
proof -
  have "2 * billion * unat (perbill_mul P p x) \<le> 2 * (unat p * unat x) + billion"
    "2 * (unat p * unat x) \<le> 2 * billion * unat (perbill_mul P p x) + billion"
    using assms(1,2) unfolding perbill_mul_law_def by blast+
  with assms(3,4) show ?thesis by linarith
qed

text \<open>The test that the comment calls a simple conversion, and the one with the parameters of the runtime: with
  rounds of 600 blocks there are 8766 rounds in a year.\<close>

lemma issuance_test:
  assumes "perbill_mul_law P" "from_parts_law P" "unat rate \<le> billion" "rounds \<noteq> 0"
    and "2 * (unat (rate div rounds) * unat x) < 2 * billion * n + billion"
    and "2 * billion * n < 2 * (unat (rate div rounds) * unat x) + billion"
  shows "unat (perbill_mul P (from_parts P (rate div rounds)) x) = n"
proof -
  have "unat (rate div rounds) \<le> billion"
    using assms(3) order_trans[OF div_le_dividend] by (simp add: unat_div)
  then show ?thesis
    using perbill_mul_nearest[OF assms(1) _ assms(5,6)] from_parts_div[OF assms(2,3)] by simp
qed

lemma simple_issuance_conversion:
  assumes "perbill_mul_law P" "from_parts_law P"
  shows "map_option (mock_round_issuance_range P 10000000)
      (mock_annual_to_round P \<lparr>r_min = 50000000, r_ideal = 50000000, r_max = 50000000\<rparr> 10) =
    Some \<lparr>r_min = 50000, r_ideal = 50000, r_max = 50000\<rparr>"
proof -
  have "unat (perbill_mul P (from_parts P (50000000 div 10)) 10000000) = 50000"
    by (rule issuance_test[OF assms]) simp_all
  then have "perbill_mul P (from_parts P 5000000) 10000000 = 50000" by (simp add: word_unat_eq_iff)
  then show ?thesis by (simp add: mock_annual_to_round_def mock_round_issuance_range_def)
qed

lemma expected_parameterization:
  assumes "perbill_mul_law P" "from_parts_law P"
  shows "map_option (round_issuance_range P 10000000)
      (annual_to_round P 600 \<lparr>r_min = 40000000, r_ideal = 50000000, r_max = 50000000\<rparr>) =
    Some \<lparr>r_min = 46, r_ideal = 57, r_max = 57\<rparr>"
proof -
  have "unat (perbill_mul P (from_parts P (40000000 div 8766)) 10000000) = 46"
    "unat (perbill_mul P (from_parts P (50000000 div 8766)) 10000000) = 57"
    by (rule issuance_test[OF assms]; simp)+
  then have "perbill_mul P (from_parts P 4563) 10000000 = 46" "perbill_mul P (from_parts P 5703) 10000000 = 57"
    by (simp_all add: word_unat_eq_iff)
  moreover have "rounds_per_year 600 = Some 8766" by (simp add: rounds_per_year_def checked_div_def blocks_per_year)
  ultimately show ?thesis
    by (simp add: annual_to_round_mock round_issuance_range_mock mock_annual_to_round_def mock_round_issuance_range_def)
qed

section \<open>The author inherent\<close>

text \<open>The origin says whether it is none; the codec is an argument.\<close>

definition author_test :: "(u64 \<Rightarrow> bytes) \<Rightarrow> (bytes \<Rightarrow> u64 option) \<Rightarrow> (bool, unit, u64) author_config" where
  "author_test enc dec = \<lparr>ensure_none = (\<lambda>none. if none then Inr () else Inl (OtherError ''BadOrigin'')),
     FinalCanAuthor = unit_can_author, PreliminaryCanAuthor = unit_can_author, EventHandler = unit_note_author,
     encode_account = enc, decode_account = dec\<rparr>"

function author_roll_to :: "u64 \<Rightarrow> u64 \<times> 'a author_storage \<Rightarrow> u64 \<times> 'a author_storage" where
  "author_roll_to n (block, s) = (if block < n then author_roll_to n (block + 1, author_on_initialize s) else (block, s))"
  by pat_completeness auto
termination
proof (relation "measure (\<lambda>(n, b, s). unat n - unat b)")
  fix n b :: u64 assume "b < n"
  moreover from this have "unat (b + 1) = unat b + 1"
    using unat_plus_exact[of b 1] unsigned_less[of n, where 'a = nat] by (simp add: word_less_nat_alt)
  ultimately show "((n, b + 1, author_on_initialize s), n, b, s) \<in> measure (\<lambda>(n, b, s). unat n - unat b)"
    for s :: "'a author_storage" by (simp add: word_less_nat_alt)
qed simp

declare author_roll_to.simps [simp del]

text \<open>Rolling to a later block forgets the author and arrives there.\<close>

lemma author_roll_to_eq:
  "author_roll_to n (b, s) = (max n b, if b < n then author_on_initialize s else s)"
proof (induction n "(b, s)" arbitrary: b s rule: author_roll_to.induct)
  case (1 n b s)
  show ?case
  proof (cases "b < n")
    case True
    then have "b + 1 \<le> n" by (simp add: inc_le)
    with True 1 show ?thesis
      by (auto simp: author_roll_to.simps[of n b] author_on_initialize_def max_def)
  qed (auto simp: author_roll_to.simps max_def)
qed

lemma set_author_works:
  assumes "Author s = None"
  shows "\<exists>s1. set_author (author_test enc dec) True 1 (s, ()) = Some (Inr (), s1, ()) \<and>
    (\<exists>st. set_author (author_test enc dec) True 1 (snd (author_roll_to 1 (0, s1)), ()) = Some (Inr (), st))"
  using assms
  by (simp add: author_test_def set_author_def unit_can_author_def author_roll_to_eq author_on_initialize_def)

lemma double_author_fails:
  assumes "set_author (author_test enc dec) True 1 (s, ()) = Some (Inr (), s1, ())"
  shows "set_author (author_test enc dec) True 1 (s1, ()) = Some (Inl (AuthorPallet AuthorAlreadySet), s1, ())"
  using assms by (cases rule: set_author_cases) (auto simp: set_author_def author_test_def)

end
