(* ===== verification/Stake_Foundations.thy ===== *)
theory Stake_Foundations
  imports Stake_Example
begin

text \<open>
  Properties of the two modules under the stake pallet: the ordered set is a finite map from
  accounts to amounts, and the inflation module turns annual rates into rates of a round.
\<close>

section \<open>The ordered set\<close>

text \<open>C29: an ordered set of bonds implements a finite map from owners to amounts. \<open>from\<close> always builds
  an ordered set; on an ordered set \<open>contains\<close> is membership of the owner, \<open>insert\<close> adds an absent owner
  and refuses a present one without a change, \<open>remove\<close> deletes a present owner and reports an absent
  one, and all keep the order that the binary search needs.\<close>

theorem ordered_set_implements_map:
  fixes b :: "('a::linorder, 'b) bond"
  assumes "ascending owner xs"
  shows "(set_contains bond_cmp b xs \<longleftrightarrow> owner b \<in> dom (amounts xs)) \<and>
    (fst (set_insert bond_cmp b xs) \<longleftrightarrow> owner b \<notin> dom (amounts xs)) \<and>
    amounts (snd (set_insert bond_cmp b xs)) =
      (if owner b \<in> dom (amounts xs) then amounts xs else (amounts xs)(owner b \<mapsto> amount b)) \<and>
    (fst (set_remove bond_cmp b xs) \<longleftrightarrow> owner b \<in> dom (amounts xs)) \<and>
    amounts (snd (set_remove bond_cmp b xs)) = (amounts xs)(owner b := None) \<and>
    ascending owner (snd (set_insert bond_cmp b xs)) \<and> ascending owner (snd (set_remove bond_cmp b xs)) \<and>
    from_vec bond_cmp xs = xs \<and> ascending owner (from_vec bond_cmp ys)"
proof -
  have dup: "snd (set_insert bond_cmp b xs) = xs" if "owner b \<in> dom (amounts xs)"
    using insert_bond_dup[OF assms, of b] that by auto
  have new: "amounts (snd (set_insert bond_cmp b xs)) = (amounts xs)(owner b \<mapsto> amount b)"
    if "owner b \<notin> dom (amounts xs)"
    using bond_order.view_set_insert[OF assms, where x = b and val = amount] that by auto
  show ?thesis
    using bond_order.set_contains_iff[OF assms, where x = b] bond_order.set_insert_fst[OF assms, of b amount]
      bond_order.set_remove_fst[OF assms, where x = b and val = amount] bond_order.view_set_remove[OF assms, where x = b and val = amount]
      bond_order.ascending_set_insert[OF assms, of b] bond_order.ascending_set_remove[OF assms, of b]
      bond_order.from_vec_ascending[OF assms] bond_order.ascending_from_vec[of ys] dup new
    by (auto simp: dom_view domIff view_None_iff)
qed

theorem ordered_set_implements_map_witness:
  "amounts (snd (set_insert bond_cmp \<lparr>owner = 3, amount = 7\<rparr> (CandidatePool demo))) = amounts (CandidatePool demo)"
proof -
  have "ascending owner (CandidatePool demo)" by (simp add: demo_def)
  note ordered_set_implements_map[OF this, of "\<lparr>owner = 3, amount = 7\<rparr>" "[]"]
  moreover have "(3 :: nat) \<in> dom (amounts (CandidatePool demo))" by (simp add: demo_def)
  ultimately show ?thesis by auto
qed

section \<open>Inflation\<close>

text \<open>C31: the conversion of an annual range of rates to a range of rates per round panics exactly when a
  round is empty or longer than a year; otherwise it keeps the range valid and below the annual one.\<close>

theorem annual_to_round_valid:
  assumes "from_parts_law P" "is_valid annual" "unat (r_max annual) \<le> billion"
  shows "(annual_to_round P n annual = None \<longleftrightarrow> n = 0 \<or> 5259600 < unat n) \<and>
    (\<forall>r. annual_to_round P n annual = Some r \<longrightarrow> is_valid r \<and> r_max r \<le> r_max annual \<and>
       (\<exists>p. p \<noteq> 0 \<and> unat p = 5259600 div unat n \<and> r_ideal r = r_ideal annual div p))"
proof -
  have le: "unat (r_min annual) \<le> billion" "unat (r_ideal annual) \<le> billion"
    using assms(2,3) by (auto simp: is_valid_def word_le_nat_alt)
  have u: "unat (BLOCKS_PER_YEAR div n) = 5259600 div unat n" by (simp add: blocks_per_year unat_div)
  then have zero: "BLOCKS_PER_YEAR div n = 0 \<longleftrightarrow> n = 0 \<or> 5259600 < unat n"
    by (auto simp: unat_eq_0[symmetric] div_eq_0_iff)
  have "a div p \<le> a" for a p :: u32 by (simp add: word_le_nat_alt unat_div)
  then show ?thesis using assms(2) zero u from_parts_div[OF assms(1)] assms(3) le
    by (auto simp: annual_to_round_def rounds_per_year_def checked_div_def is_valid_def word_div_mono)
qed

theorem annual_to_round_valid_witness:
  "\<exists>r. annual_to_round mock_perbill 5 \<lparr>r_min = 40000000, r_ideal = 50000000, r_max = 50000000\<rparr> = Some r \<and> is_valid r"
  using annual_to_round_valid[OF mock_perbill_laws(2), of "\<lparr>r_min = 40000000, r_ideal = 50000000, r_max = 50000000\<rparr>" 5]
  by (auto simp: is_valid_def)

text \<open>C30: the issuance of a round stays within the range of the configured rates: it is at least the
  minimal and at most the maximal rate times the total issuance, up to half a unit of rounding, and it
  is the ideal rate when what is staked is within the expectations.\<close>

theorem issuance_within_rates:
  assumes "perbill_mul_law (PerbillOps T)" "is_valid (round_rates (InflationConfig s))"
    and "unat (r_max (round_rates (InflationConfig s))) \<le> billion"
    and "tot = unat (total_issuance (Currency T) (Ledger s))" "rates = round_rates (InflationConfig s)"
  shows "2 * billion * unat (compute_issuance T s staked) \<le> 2 * (unat (r_max rates) * tot) + billion \<and>
    2 * (unat (r_min rates) * tot) \<le> 2 * billion * unat (compute_issuance T s staked) + billion \<and>
    (r_min (expect (InflationConfig s)) \<le> staked \<and> staked \<le> r_max (expect (InflationConfig s)) \<longrightarrow>
       compute_issuance T s staked
         = perbill_mul (PerbillOps T) (r_ideal rates) (total_issuance (Currency T) (Ledger s)))"
proof -
  have le: "unat (r_min rates) \<le> unat (r_ideal rates)" "unat (r_ideal rates) \<le> unat (r_max rates)"
    using assms(2,5) by (simp_all add: is_valid_def word_le_nat_alt)
  define x where "x = total_issuance (Currency T) (Ledger s)"
  have mul: "2 * billion * unat (perbill_mul (PerbillOps T) p x) \<le> 2 * (unat p * unat x) + billion"
    "2 * (unat p * unat x) \<le> 2 * billion * unat (perbill_mul (PerbillOps T) p x) + billion" if "unat p \<le> billion" for p
    using assms(1) that unfolding perbill_mul_law_def by blast+
  define p where "p = (if staked < r_min (expect (InflationConfig s)) then r_min rates
      else if r_max (expect (InflationConfig s)) < staked then r_max rates else r_ideal rates)"
  have p: "compute_issuance T s staked = perbill_mul (PerbillOps T) p x"
    "unat (r_min rates) \<le> unat p" "unat p \<le> unat (r_max rates)"
    using le by (auto simp: p_def assms(5) compute_issuance_def round_issuance_range_def x_def)
  have "unat (r_min rates) * unat x \<le> unat p * unat x" "unat p * unat x \<le> unat (r_max rates) * unat x"
    using p by simp_all
  moreover have "unat p \<le> billion" using p(3) assms(3,5) by simp
  ultimately have "2 * billion * unat (compute_issuance T s staked) \<le> 2 * (unat (r_max rates) * unat x) + billion"
    "2 * (unat (r_min rates) * unat x) \<le> 2 * billion * unat (compute_issuance T s staked) + billion"
    using mul[of p] unfolding p(1) by linarith+
  moreover have "compute_issuance T s staked = perbill_mul (PerbillOps T) (r_ideal rates) x"
    if "r_min (expect (InflationConfig s)) \<le> staked" "staked \<le> r_max (expect (InflationConfig s))"
    using p(1) that by (auto simp: p_def dest: leD)
  ultimately show ?thesis by (simp add: assms(4) x_def)
qed

theorem issuance_within_rates_witness:
  "2 * billion * unat (compute_issuance mock demo 72) \<le> 2 * (unat (50000000 :: u32) * 2000) + billion"
proof -
  have "perbill_mul_law (PerbillOps mock)" using mock_perbill_laws(1) by (simp add: perbill_laws_def)
  from issuance_within_rates[OF this, of demo] show ?thesis
    by (simp add: demo_def mock_inflation_def is_valid_def mock_currency_def)
qed

end
