(* ===== verification/Stake_Exact.thy ===== *)
theory Stake_Exact
  imports Stake_Epochs
begin

text \<open>
  What holds of the single candidates. The locale \<open>candidate_terms\<close> says when a property of the fee and the
  state of a candidate is kept by every call; it is interpreted for the limit on fees and for the exit round
  of leaving candidates. On a ledger whose reserved balances are part of the total issuance, the total of a
  candidate is the sum of its bond and its nominations as natural numbers.
\<close>

section \<open>Fees and exit rounds of the candidates\<close>

text \<open>A property of the fee and the state of every candidate. The locale says what a property needs to be kept
  by all calls that are made in the round \<open>now\<close>.\<close>

definition each_candidate :: "(perbill \<Rightarrow> ValidatorStatus \<Rightarrow> bool) \<Rightarrow> ('c, 'a) storage \<Rightarrow> bool" where
  "each_candidate P s \<longleftrightarrow> (\<forall>c v. Candidates s c = Some v \<longrightarrow> P (v_fee v) (v_state v))"

lemma each_candidate_frame [simp]:
  "each_candidate P (put_nominator n m s) = each_candidate P s"
  "each_candidate P (deposit_event e s) = each_candidate P s"
  "each_candidate P (update_if_active c v x s) = each_candidate P s"
  "each_candidate P (s\<lparr>Ledger := l\<rparr>) = each_candidate P s" "each_candidate P (s\<lparr>Total := x\<rparr>) = each_candidate P s"
  "each_candidate P (s\<lparr>Nominators := N\<rparr>) = each_candidate P s"
  "each_candidate P (s\<lparr>CandidatePool := C\<rparr>) = each_candidate P s"
  "each_candidate P (s\<lparr>ExitQueue := Q\<rparr>) = each_candidate P s"
  "each_candidate P (s\<lparr>InflationConfig := i\<rparr>) = each_candidate P s"
  by (simp_all add: each_candidate_def update_if_active_eq put_nominator_def deposit_event_def)

lemma each_candidate_put:
  "each_candidate P s \<Longrightarrow> P (v_fee v) (v_state v) \<Longrightarrow> each_candidate P (put_candidate c v s)"
  by (simp add: each_candidate_def put_candidate_def)

lemma each_candidateD: "each_candidate P s \<Longrightarrow> Candidates s c = Some v \<Longrightarrow> P (v_fee v) (v_state v)"
  by (simp add: each_candidate_def)

lemma terms_kept [simp]:
  "v_fee (bond_more v x) = v_fee v" "v_state (bond_more v x) = v_state v"
  "v_fee (inc_nominator v n x) = v_fee v" "v_state (inc_nominator v n x) = v_state v"
  "v_fee (dec_nominator v n x) = v_fee v" "v_state (dec_nominator v n x) = v_state v"
  "v_fee (set_leaving v r) = v_fee v" "v_state (set_leaving v r) = Leaving r"
  "v_fee (set_offline v) = v_fee v" "v_state (set_offline v) = Idle"
  "v_fee (set_online v) = v_fee v" "v_state (set_online v) = Active"
  "v_fee (new_validator a f b) = f" "v_state (new_validator a f b) = Active"
  by (simp_all add: bond_more_def set_leaving_def set_offline_def set_online_def new_validator_def
      inc_nominator_def dec_nominator_def split: option.split)

lemma terms_kept_result:
  "bond_less v x = Some (y, w) \<Longrightarrow> v_fee w = v_fee v \<and> v_state w = v_state v"
  "rm_nominator v n = (y, w) \<Longrightarrow> v_fee w = v_fee v \<and> v_state w = v_state v"
  "add_nominator v n x = (y, w) \<Longrightarrow> v_fee w = v_fee v \<and> v_state w = v_state v"
  "update_nominator v n x = (y, w) \<Longrightarrow> v_fee w = v_fee v \<and> v_state w = v_state v"
  by (auto simp: bond_less_def rm_nominator_def add_nominator_def update_nominator_def split: if_splits prod.splits)

lemma nominator_joins_each:
  assumes "nominator_joins_validator T n x c s = (r, s')" and each: "each_candidate P s"
  shows "each_candidate P s'"
  using assms unfolding nominator_joins_validator_def
  by (auto simp: each_candidateD[OF each] split: call_splits intro!: each_candidate_put)

lemma leaves_validator_each:
  assumes "nominator_leaves_validator T n c s = (r, s')" and each: "each_candidate P s"
  shows "each_candidate P s'"
  using assms unfolding nominator_leaves_validator_def
  by (auto simp: each_candidateD[OF each] split: call_splits intro!: each_candidate_put)

lemma leave_each_each: "leave_each T n bs s = (r, s') \<Longrightarrow> each_candidate P s \<Longrightarrow> each_candidate P s'"
  by (induction bs arbitrary: s) (auto split: call_splits dest: leaves_validator_each)

locale candidate_terms =
  fixes T :: "('o, 'c, 'a::linorder) config"
    and now :: round_index
    and P :: "perbill \<Rightarrow> ValidatorStatus \<Rightarrow> bool"
  assumes joins: "fee \<le> MaxFee T \<Longrightarrow> P fee Active"
    and pauses: "P fee st \<Longrightarrow> P fee Idle"
    and resumes: "P fee st \<Longrightarrow> P fee Active"
    and leaves: "P fee st \<Longrightarrow> P fee (Leaving (now + BondDuration T))"
begin

lemma dispatch_call_terms:
  assumes call: "dispatch_call T origin call s = Some (r, s')" and each: "each_candidate P s" and now: "Round s = now"
  shows "each_candidate P s'"
proof -
  note own = each_candidateD[OF each]
  note states = pauses[OF own] resumes[OF own] leaves[OF own, folded now]
  show ?thesis
  proof (cases call)
    case (SwitchNomination old new)
    then show ?thesis using call each
      by (auto simp: switch_nomination_def own terms_kept_result split: call_splits intro!: each_candidate_put)
  next
    case (JoinNominators c x)
    then show ?thesis using call each
      by (auto simp: join_nominators_def split: call_splits dest: nominator_joins_each)
  next
    case LeaveNominators
    then show ?thesis using call each
      by (auto simp: leave_nominators_def split: call_splits dest: leave_each_each)
  next
    case (RevokeNomination c)
    then show ?thesis using call each
      by (auto simp: revoke_nomination_def nominator_revokes_validator_def split: call_splits
          dest: leaves_validator_each)
  next
    case (CandidateBondLess x)
    then show ?thesis using call each
      by (auto simp: candidate_bond_less_def own terms_kept_result(1) split: call_splits intro!: each_candidate_put)
  qed (use call each now in \<open>auto simp: set_staking_expectations_def set_inflation_def join_candidates_def
      leave_candidates_def go_offline_def go_online_def candidate_bond_more_def nominate_new_def
      nominator_bond_more_def nominator_bond_less_def own states joins split: call_splits intro!: each_candidate_put\<close>)
qed

end

text \<open>The fee is at most the configured maximum.\<close>

abbreviation fees_ok :: "('o, 'c, 'a) config \<Rightarrow> ('c, 'a) storage \<Rightarrow> bool" where
  "fees_ok T \<equiv> each_candidate (\<lambda>fee _. fee \<le> MaxFee T)"

interpretation fees: candidate_terms T now "\<lambda>fee _. fee \<le> MaxFee T"
  by unfold_locales

text \<open>The exit round of a leaving candidate is still to come, and not further away than the bond duration.\<close>

definition exit_ahead :: "('o, 'c, 'a) config \<Rightarrow> round_index \<Rightarrow> ValidatorStatus \<Rightarrow> bool" where
  "exit_ahead T now st \<longleftrightarrow> (case st of Leaving r \<Rightarrow> now < r \<and> unat r \<le> unat now + unat (BondDuration T) | _ \<Rightarrow> True)"

abbreviation exits_ahead :: "('o, 'c, 'a) config \<Rightarrow> ('c, 'a) storage \<Rightarrow> bool" where
  "exits_ahead T s \<equiv> each_candidate (\<lambda>_. exit_ahead T (Round s)) s"

lemma exit_ahead_simps [simp]: "exit_ahead T now Active" "exit_ahead T now Idle"
  by (simp_all add: exit_ahead_def)

lemma scheduled_exit_ahead:
  assumes "BondDuration T \<noteq> 0" "unat now + unat (BondDuration T) < 2 ^ 32"
  shows "exit_ahead T now (Leaving (now + BondDuration T))"
  using assms unat_plus_exact[of now "BondDuration T"]
  by (simp add: exit_ahead_def word_less_nat_alt unat_gt_0)

interpretation exits: candidate_terms T now
  "\<lambda>_ st. BondDuration T \<noteq> 0 \<and> unat now + unat (BondDuration T) < 2 ^ 32 \<longrightarrow> exit_ahead T now st"
  by unfold_locales (simp_all add: scheduled_exit_ahead)

lemma dispatch_call_exits:
  assumes "dispatch_call T origin call s = Some (r, s')" "exits_ahead T s" "BondDuration T \<noteq> 0"
    and "unat (Round s) + unat (BondDuration T) < 2 ^ 32"
  shows "exits_ahead T s'"
  using exits.dispatch_call_terms[OF assms(1) _ refl] assms(2-4) dispatch_call_epoch[OF assms(1)]
  by (simp add: each_candidate_def same_epoch_def)

lemma each_candidate_without_exits:
  "Candidates s' = without_exits r UNIV (Candidates s) \<Longrightarrow> each_candidate P s \<Longrightarrow> each_candidate P s'"
  by (auto simp: each_candidate_def without_exits_def split: option.splits if_splits)

lemma next_round_exits:
  assumes T: "config_ok T" "sort_law T" and inv: "stake_inv T other s" and run: "next_round T n s = Some s'"
    and ex: "exits_ahead T s" and R: "unat (Round s) + 1 < 2 ^ 32"
  shows "exits_ahead T s'"
proof -
  obtain "Candidates s' = without_exits (Round s + 1) UNIV (Candidates s)" "Round s' = Round s + 1"
    using next_round_run[OF T inv, of n] run by (metis option.inject)
  moreover have "unat (Round s + 1) = unat (Round s) + 1" using R unat_plus_exact[of "Round s" 1] by simp
  ultimately show ?thesis using ex
    by (auto simp: each_candidate_def without_exits_def exit_ahead_def exit_due_def intro: le_SucI
        split: option.splits if_splits ValidatorStatus.splits)
qed

section \<open>Totals without wrap-around\<close>

text \<open>What the currency promises of a ledger: all reserved balances together are part of the total
  issuance, which is a \<open>u128\<close>.\<close>

definition issuance_bound :: "('c, 'a) currency \<Rightarrow> 'c \<Rightarrow> bool" where
  "issuance_bound cur c \<longleftrightarrow>
     (\<forall>A. finite A \<longrightarrow> (\<Sum>a\<in>A. unat (reserved_balance cur c a)) \<le> unat (total_issuance cur c))"

lemma nat_sum_eq:
  assumes "distinct (map owner xs)"
  shows "nat_sum xs = (\<Sum>a\<in>owner ` set xs. unat (the (amounts xs a)))"
  using assms
proof (induction xs)
  case (Cons b bs)
  have "(\<Sum>a\<in>owner ` set bs. unat (the (amounts (b # bs) a))) = (\<Sum>a\<in>owner ` set bs. unat (the (amounts bs a)))"
    using Cons.prems by (intro sum.cong) (auto simp: image_iff)
  with Cons show ?case by simp
qed simp

lemma candidate_stake_bound:
  assumes w: "well_linked C N P E" and cov: "covers cur other C N c" and v: "C x = Some v"
  shows "unat (v_bond v) + nat_sum (v_nominators v)
    \<le> (\<Sum>a\<in>insert x (owner ` set (v_nominators v)). unat (reserved_balance cur c a))"
proof -
  let ?O = "owner ` set (v_nominators v)"
  let ?p = "\<lambda>a. if a \<in> ?O then unat (the (amounts (v_nominators v) a)) else 0"
  have dist: "distinct (map owner (v_nominators v))"
    using well_linkedD(1)[OF w v] by (simp add: valid_validatorD(1) ascending_distinct)
  have le: "(if a = x then unat (v_bond v) else 0) + ?p a \<le> unat (reserved_balance cur c a)" for a
  proof -
    have "?p a \<le> (case N a of None \<Rightarrow> 0 | Some m \<Rightarrow> nat_sum (n_nominations m))"
    proof (cases "a \<in> ?O")
      case True
      then obtain y where y: "amounts (v_nominators v) a = Some y" by (metis view_None_iff option.exhaust)
      moreover have "nominated N a x = Some y"
        using well_linkedD(4)[OF w, of x a] v y by (simp add: backing_def)
      ultimately show ?thesis
        using amount_le_nat_sum True by (auto simp: nominated_def split: option.splits)
    qed simp
    then show ?thesis using cov v by (auto simp: covers_def staked_by_def)
  qed
  have "unat (v_bond v) = (\<Sum>a\<in>insert x ?O. if a = x then unat (v_bond v) else 0)"
    by (simp add: sum.delta')
  moreover have "nat_sum (v_nominators v) = (\<Sum>a\<in>insert x ?O. ?p a)"
    unfolding nat_sum_eq[OF dist] by (rule sum.mono_neutral_cong_left) auto
  ultimately have "unat (v_bond v) + nat_sum (v_nominators v)
      = (\<Sum>a\<in>insert x ?O. (if a = x then unat (v_bond v) else 0) + ?p a)"
    by (simp only: sum.distrib)
  also have "\<dots> \<le> (\<Sum>a\<in>insert x ?O. unat (reserved_balance cur c a))" by (rule sum_mono) (rule le)
  finally show ?thesis .
qed

lemma candidate_total_exact:
  assumes inv: "stake_inv T other s" and bound: "issuance_bound (Currency T) (Ledger s)"
    and v: "Candidates s x = Some v"
  shows "unat (v_total v) = unat (v_bond v) + nat_sum (v_nominators v)"
    "unat (v_total v) \<le> unat (total_issuance (Currency T) (Ledger s))"
proof -
  let ?A = "insert x (owner ` set (v_nominators v))"
  note w = stake_invD(1)[OF inv]
  have "unat (v_bond v) + nat_sum (v_nominators v)
      \<le> (\<Sum>a\<in>?A. unat (reserved_balance (Currency T) (Ledger s) a))"
    by (rule candidate_stake_bound[OF w stake_invD(2)[OF inv] v])
  also have "\<dots> \<le> unat (total_issuance (Currency T) (Ledger s))" using bound by (simp add: issuance_bound_def)
  finally have le: "unat (v_bond v) + nat_sum (v_nominators v) \<le> unat (total_issuance (Currency T) (Ledger s))" .
  then have small: "unat (v_bond v) + nat_sum (v_nominators v) < 2 ^ LENGTH(128)"
    using unsigned_less[of "total_issuance (Currency T) (Ledger s)", where 'a = nat] by simp
  then have "unat (sum_amounts (v_nominators v)) = nat_sum (v_nominators v)"
    using unat_sum_list_exact[of amount "v_nominators v"] by simp
  then show eq: "unat (v_total v) = unat (v_bond v) + nat_sum (v_nominators v)"
    using valid_validatorD(2)[OF well_linkedD(1)[OF w v]] small unat_plus_exact by metis
  show "unat (v_total v) \<le> unat (total_issuance (Currency T) (Ledger s))" using le eq by simp
qed

end
