(* ===== verification/Stake_Books.thy ===== *)
theory Stake_Books
  imports Stake_Exact
begin

text \<open>
  The books of the rounds in closed form: after \<open>q\<close> complete rounds and \<open>m\<close> authors in the current one the points
  of every round and the sums of its awards are known (\<open>books\<close>). Author notes and round changes keep the form,
  the snapshots of all rounds are exact, and a round change pays at most the issuance of the round, up to
  rounding.
\<close>

section \<open>The books of the rounds\<close>

definition round_points :: "('o, 'c, 'a) config \<Rightarrow> nat \<Rightarrow> nat \<Rightarrow> round_index \<Rightarrow> nat" where
  "round_points T q m r =
     (if r = 0 \<or> Suc q < unat r then 0 else if unat r \<le> q then 20 * unat (BlocksPerRound T) else 20 * m)"

definition awards_ok :: "('o, 'c, 'a) config \<Rightarrow> nat \<Rightarrow> ('c, 'a) storage \<Rightarrow> round_index \<Rightarrow> bool" where
  "awards_ok T q s r \<longleftrightarrow>
     (if r = 0 \<or> Suc q < unat r \<or> unat r + unat (BondDuration T) \<le> Suc q then AwardedPts s r = []
      else distinct (map fst (AwardedPts s r)) \<and> sum_list (map (unat \<circ> snd) (AwardedPts s r)) = unat (Points s r))"

definition books :: "('o, 'c, 'a) config \<Rightarrow> nat \<Rightarrow> nat \<Rightarrow> ('c, 'a) storage \<Rightarrow> bool" where
  "books T q m s \<longleftrightarrow> unat (Round s) = Suc q \<and>
     (\<forall>r. unat (Points s r) = round_points T q m r) \<and> (\<forall>r. awards_ok T q s r)"

lemma booksD:
  assumes "books T q m s"
  shows "unat (Round s) = Suc q" "unat (Points s r) = round_points T q m r" "awards_ok T q s r"
  using assms by (auto simp: books_def)

lemma books_same_epoch: "same_epoch s s' \<Longrightarrow> books T q m s' = books T q m s"
  by (simp add: books_def awards_ok_def same_epoch_def)

lemma sum_unat_update:
  "sum_list (map (unat \<circ> snd) (AList.update k v xs)) + (case map_of xs k of None \<Rightarrow> 0 | Some u \<Rightarrow> unat u)
    = sum_list (map (unat \<circ> snd) xs) + unat v"
  by (induction xs) (auto split: option.split)

lemma awarded_le_sum: "map_of xs k = Some u \<Longrightarrow> unat u \<le> sum_list (map (unat \<circ> snd) xs)"
  by (induction xs) (auto split: if_splits)

lemma note_author_books:
  assumes b: "books T q m s" and D: "BondDuration T \<noteq> 0" and small: "20 * Suc m < 2 ^ 32"
  shows "books T q (Suc m) (note_author a s)"
proof -
  let ?R = "Round s" and ?s = "note_author a s"
  note R = booksD(1)[OF b]
  have R0: "?R \<noteq> 0" using R by auto
  have D': "0 < unat (BondDuration T)" using D by (simp add: unat_gt_0)
  have now: "unat (Points s ?R) = 20 * m" using booksD(2)[OF b, of ?R] R R0 by (simp add: round_points_def)
  have "unat (Points s ?R) + unat (20 :: u32) < 2 ^ LENGTH(32)" using now small by simp
  from unat_plus_exact[OF this] have pts: "unat (Points s ?R + 20) = 20 * Suc m" using now by simp
  have aw: "distinct (map fst (AwardedPts s ?R))" "sum_list (map (unat \<circ> snd) (AwardedPts s ?R)) = 20 * m"
    using booksD(3)[OF b, of ?R] R R0 D' now by (auto simp: awards_ok_def)
  have "unat (awarded_pts s ?R a) \<le> 20 * m"
    using aw(2) awarded_le_sum[of "AwardedPts s ?R" a] by (auto simp: awarded_pts_def split: option.split)
  then have "unat (awarded_pts s ?R a) + unat (20 :: u32) < 2 ^ LENGTH(32)" using small by simp
  from unat_plus_exact[OF this] have award: "unat (awarded_pts s ?R a + 20) = unat (awarded_pts s ?R a) + 20" by simp
  have sum: "sum_list (map (unat \<circ> snd) (AList.update a (awarded_pts s ?R a + 20) (AwardedPts s ?R))) = 20 * Suc m"
    using sum_unat_update[of a "awarded_pts s ?R a + 20" "AwardedPts s ?R"] aw(2) award
    by (auto simp: awarded_pts_def split: option.splits)
  have "awards_ok T q ?s r" for r
    using booksD(3)[OF b, of r] R R0 D' aw sum pts
    by (cases "r = ?R") (auto simp: awards_ok_def note_author_def distinct_update)
  moreover have "unat (Points ?s r) = round_points T q (Suc m) r" for r
  proof (cases "r = ?R")
    case True
    then show ?thesis using pts R R0 by (simp add: note_author_def round_points_def)
  next
    case False
    then have "unat r \<noteq> Suc q" using R by (metis word_unat_eq_iff)
    then show ?thesis using booksD(2)[OF b, of r] False by (auto simp: note_author_def round_points_def)
  qed
  ultimately show ?thesis using R by (simp add: books_def note_author_def)
qed

lemma next_round_keeps_books:
  assumes T: "config_ok T" "sort_law T" and inv: "stake_inv T other s" and run: "next_round T n s = Some s'"
    and b: "books T q (unat (BlocksPerRound T)) s" and q: "Suc (Suc q) < 2 ^ 32"
  shows "books T (Suc q) 0 s'"
proof -
  note R = booksD(1)[OF b] and nb = next_round_books[OF T inv run]
  have R': "Round s' = Round s + 1" using next_round_run[OF T inv, of n] run by (metis option.inject)
  have next': "unat (Round s + 1) = Suc (Suc q)" using R q unat_plus_exact[of "Round s" 1] by simp
  have pts: "unat (Points s' r) = round_points T (Suc q) 0 r" for r
    using booksD(2)[OF b, of r] nb(1) by (auto simp: round_points_def)
  have due: "BondDuration T < Round s + 1 \<and> r = Round s + 1 - BondDuration T \<longleftrightarrow>
      r \<noteq> 0 \<and> unat r + unat (BondDuration T) = Suc (Suc q)" (is "?pay \<longleftrightarrow> ?old") for r
  proof
    assume ?pay
    then show ?old using next' unat_sub[of "BondDuration T" "Round s + 1"] by (auto simp: word_less_nat_alt word_le_nat_alt)
  next
    assume old: ?old
    then have lt: "BondDuration T < Round s + 1" using next' unat_gt_0[of r] by (simp add: word_less_nat_alt)
    moreover have "unat r = unat (Round s + 1 - BondDuration T)" using old next' lt by (auto simp: unat_sub)
    ultimately show ?pay by (simp add: word_unat_eq_iff)
  qed
  have "awards_ok T (Suc q) s' r" for r
  proof (cases "r \<noteq> 0 \<and> unat r + unat (BondDuration T) = Suc (Suc q)")
    case True
    then have "AwardedPts s' r = []" using due[of r] nb(2) by (auto simp: unpaid_def)
    with True show ?thesis by (simp add: awards_ok_def)
  next
    case False
    then have "AwardedPts s' r = AwardedPts s r" using due[of r] nb(2) by (auto simp: unpaid_def)
    then show ?thesis using False booksD(3)[OF b, of r] booksD(2)[OF b, of r] nb(1)
      by (auto simp: awards_ok_def round_points_def split: if_splits)
  qed
  then show ?thesis using pts R' next' by (simp add: books_def)
qed

section \<open>Snapshots and payouts\<close>

definition snapshots_ok :: "('c, 'a) storage \<Rightarrow> bool" where
  "snapshots_ok s \<longleftrightarrow> (\<forall>k x. AtStake s k = Some x \<longrightarrow> valid_snapshot x)"

lemma to_snapshot_valid:
  assumes inv: "stake_inv T other s" and bound: "issuance_bound (Currency T) (Ledger s)"
    and fees: "fees_ok T s" "unat (MaxFee T) \<le> billion" and v: "Candidates s c = Some v"
  shows "valid_snapshot (to_snapshot v)"
proof (cases "v_nominators v")
  case (Cons b bs)
  have "amounts (v_nominators v) (owner b) = Some (amount b)" using Cons by simp
  then have "nominated (Nominators s) (owner b) c = Some (amount b)"
    using well_linkedD(4)[OF stake_invD(1)[OF inv], of c "owner b"] v by (simp add: backing_def)
  then have "amount b \<noteq> 0" using inv unfolding stake_inv_def positive_def positive_in_def by blast
  then have "v_total v \<noteq> 0" unfolding unat_gt_0[symmetric] using candidate_total_exact(1)[OF inv bound v] Cons by (simp add: unat_gt_0)
  moreover have "unat (v_fee v) \<le> billion"
    using each_candidateD[OF fees(1) v] fees(2) by (simp add: word_le_nat_alt)
  ultimately show ?thesis
    using candidate_total_exact(1)[OF inv bound v] by (simp add: valid_snapshot_def to_snapshot_def)
qed (simp add: valid_snapshot_def to_snapshot_def)

lemma next_round_snapshots:
  assumes T: "config_ok T" "sort_law T" and inv: "stake_inv T other s" and run: "next_round T n s = Some s'"
    and "snapshots_ok s" "fees_ok T s" "unat (MaxFee T) \<le> billion" "issuance_bound (Currency T) (Ledger s')"
  shows "snapshots_ok s'" "fees_ok T s'"
proof -
  obtain "stake_inv T other s'" "Candidates s' = without_exits (Round s + 1) UNIV (Candidates s)"
    using next_round_run[OF T inv, of n] run by (metis option.inject)
  then show fees: "fees_ok T s'" using each_candidate_without_exits assms(6) by blast
  show "snapshots_ok s'"
    unfolding snapshots_ok_def
    using next_round_books(3)[OF T inv run] to_snapshot_valid[OF \<open>stake_inv T other s'\<close> assms(8) fees assms(7)] assms(5)
    by (metis snapshots_ok_def)
qed

lemma paid_round:
  assumes b: "books T q (unat (BlocksPerRound T)) s" and q: "Suc (Suc q) < 2 ^ 32"
    and D: "BondDuration T \<noteq> 0" "unat (BondDuration T) < Suc (Suc q)" and r: "r = Round s + 1 - BondDuration T"
    and B: "BlocksPerRound T \<noteq> 0"
  shows "BondDuration T < Round s + 1" "distinct (map fst (AwardedPts s r))"
    "sum_list (map (unat \<circ> snd) (AwardedPts s r)) \<le> unat (Points s r)" "Points s r \<noteq> 0"
    "unat r = Suc (Suc q) - unat (BondDuration T)"
proof -
  have next': "unat (Round s + 1) = Suc (Suc q)"
    using booksD(1)[OF b] q unat_plus_exact[of "Round s" 1] by simp
  show lt: "BondDuration T < Round s + 1" using D(2) next' by (simp add: word_less_nat_alt)
  then show ur: "unat r = Suc (Suc q) - unat (BondDuration T)" using r next' by (simp add: unat_sub)
  have D': "0 < unat (BondDuration T)" using D(1) by (simp add: unat_gt_0)
  have "r \<noteq> 0" using ur D(2) by auto
  then have pts: "unat (Points s r) = 20 * unat (BlocksPerRound T)" and
    "distinct (map fst (AwardedPts s r)) \<and> sum_list (map (unat \<circ> snd) (AwardedPts s r)) = unat (Points s r)"
    using booksD(2,3)[OF b, of r] ur D(2) D' by (auto simp: round_points_def awards_ok_def)
  then show "distinct (map fst (AwardedPts s r))"
    "sum_list (map (unat \<circ> snd) (AwardedPts s r)) \<le> unat (Points s r)" by simp_all
  show "Points s r \<noteq> 0" using pts B unat_gt_0[of "BlocksPerRound T"] by auto
qed

lemma round_payout:
  assumes T: "config_ok T" "sort_law T" "perbill_laws (PerbillOps T)" "BlocksPerRound T \<noteq> 0"
    and inv: "stake_inv T other s" and run: "next_round T n s = Some s'"
    and b: "books T q (unat (BlocksPerRound T)) s" and q: "Suc (Suc q) < 2 ^ 32"
    and D: "BondDuration T \<noteq> 0" and r: "r = Round s + 1 - BondDuration T" and snaps: "snapshots_ok s"
  shows "2 * minted s' \<le> 2 * minted s + (if unat (BondDuration T) < Suc (Suc q)
    then 2 * unat (compute_issuance T s (Staked s r)) +
      sum_list (map (\<lambda>e. 2 + length (s_nominators (snapshot_at r (fst e) s))) (AwardedPts s r))
    else 0)"
proof (cases "unat (BondDuration T) < Suc (Suc q)")
  case True
  note pr = paid_round[OF b q D True r T(4)]
  have "\<forall>e\<in>set (AwardedPts s r). valid_snapshot (snapshot_at r (fst e) s)"
    using snaps by (auto simp: snapshots_ok_def snapshot_at_def valid_snapshot_def snapshot_default_def split: option.split)
  with pay_stakers_minted[OF config_okD(3)[OF T(1)] T(3) pr(1) r refl pr(2-4)] True show ?thesis
    by (simp add: next_round_books(4)[OF T(1,2) inv run])
next
  case False
  have "unat (Round s + 1) = Suc (Suc q)"
    using booksD(1)[OF b] q unat_plus_exact[of "Round s" 1] by simp
  with False have "\<not> BondDuration T < Round s + 1" by (simp add: word_less_nat_alt)
  with False show ?thesis by (simp add: next_round_books(4)[OF T(1,2) inv run] pay_stakers_def)
qed

section \<open>Genesis\<close>

lemma genesis_stakers_books:
  "genesis_stakers T stakers s = Some s' \<Longrightarrow> fees_ok T s \<Longrightarrow> same_epoch s s' \<and> fees_ok T s'"
proof (induction stakers arbitrary: s)
  case (Cons x rest)
  obtain actor opt_val bal where x: "x = (actor, opt_val, bal)" by (cases x)
  let ?o = "signed_origin T actor"
  define call where "call = (case opt_val of Some v \<Rightarrow> JoinNominators v bal | None \<Rightarrow> JoinCandidates 0 bal)"
  obtain r t where t: "dispatch_call T ?o call s = Some (r, t)" "genesis_stakers T rest t = Some s'"
  proof -
    have "\<exists>r t. dispatch_call T ?o call s = Some (r, t) \<and> t = snd (case opt_val of
        Some v \<Rightarrow> join_nominators T ?o v bal s | None \<Rightarrow> join_candidates T ?o 0 bal s)"
      by (auto simp: call_def prod_eq_iff split: option.split)
    then show thesis using that Cons.prems(1) by (auto simp: x split: if_split_asm)
  qed
  from Cons.IH[OF t(2) fees.dispatch_call_terms[OF t(1) Cons.prems(2) refl]] dispatch_call_epoch[OF t(1)]
  show ?case by (auto intro: same_epoch_trans)
qed simp

lemma update_if_active_exits [simp]: "ExitQueue (update_if_active c v x s) = ExitQueue s"
  by (simp add: update_if_active_eq)

lemma joins_exit_queue:
  "ExitQueue (snd (join_candidates T origin fee x s)) = ExitQueue s"
  "ExitQueue (snd (join_nominators T origin c x s)) = ExitQueue s"
  by (auto simp: join_candidates_def join_nominators_def nominator_joins_validator_def
      split: sum.split prod.split bool.split option.split)

lemma genesis_stakers_exit_queue:
  "genesis_stakers T stakers s = Some s' \<Longrightarrow> ExitQueue s' = ExitQueue s"
proof (induction stakers arbitrary: s)
  case (Cons x rest)
  then show ?case by (cases x) (auto simp: joins_exit_queue split: if_split_asm option.split_asm)
qed simp

lemma no_exits_ahead:
  assumes "stake_inv T other s" "ExitQueue s = []"
  shows "exits_ahead T s"
proof -
  have "v_state v \<noteq> Leaving r" if "Candidates s c = Some v" for c v r
    using well_linkedD(8)[OF stake_invD(1)[OF assms(1)], of c] assms(2) that by (auto simp: exit_entry_def)
  then show ?thesis by (auto simp: each_candidate_def exit_ahead_def split: ValidatorStatus.split)
qed

lemma genesis_books:
  assumes T: "config_ok T" "sort_law T" and g: "stake_genesis T other s"
    and bound: "issuance_bound (Currency T) (Ledger s)" and fee: "unat (MaxFee T) \<le> billion"
  shows "books T 0 0 s" "fees_ok T s" "snapshots_ok s" "sorted_wrt (<) (Validators s)"
    "exits_ahead T s"
proof -
  note inv = stake_genesis_inv[OF T g]
  obtain info c stakers where c: "\<And>a. unat (reserved_balance (Currency T) c a) = other a"
    and b: "genesis_build T stakers (initial_storage info c) = Some s"
    using g by (auto simp: stake_genesis_def)
  let ?s0 = "initial_storage info c"
  obtain s1 where s1: "genesis_stakers T stakers ?s0 = Some s1"
    using b by (auto simp: genesis_build_def split: option.splits)
  have "fees_ok T ?s0" by (simp add: each_candidate_def initial_storage_def)
  from genesis_stakers_books[OF s1 this] have e: "same_epoch ?s0 s1" "fees_ok T s1" by auto
  note inv1 = genesis_stakers_inv[OF T(1) initial_storage_inv[OF c] s1]
  from best_candidates_run[OF T(2) stake_inv_linked[OF inv1], of 1] obtain cnt tot s2 where
    s2: "best_candidates_become_validators T 1 s1 = Some ((cnt, tot), s2)" "election_frame s1 s2"
      "AtStake s2 = snapshots 1 s1 (top_candidates T s1)" "Validators s2 = sort_vec ord_cmp (top_candidates T s1)"
    by blast
  have s: "s = deposit_event (NewRound 0 1 cnt tot) (s2\<lparr>Round := 1, Staked := (Staked s2)(1 := Total s2)\<rparr>)"
    using b s1 s2(1) by (simp add: genesis_build_def)
  have "ExitQueue s = []"
    using s2(2) genesis_stakers_exit_queue[OF s1] by (simp add: s election_frame_def initial_storage_def)
  then show "exits_ahead T s" by (rule no_exits_ahead[OF inv])
  have C: "Candidates s = Candidates s1" using s2(2) by (simp add: s election_frame_def)
  with e(2) show fees: "fees_ok T s" by (simp add: each_candidate_def)
  show "books T 0 0 s"
    using e(1) s2(2) by (auto simp: s books_def awards_ok_def round_points_def same_epoch_def initial_storage_def
        election_frame_def deposit_event_def unat_eq_0)
  have "AtStake s1 = Map.empty" using e(1) by (simp add: same_epoch_def initial_storage_def)
  then have "\<exists>v. Candidates s (snd k) = Some v \<and> x = to_snapshot v" if "AtStake s k = Some x" for k x
    using that s2(3) by (auto simp: C) (auto simp: s snapshots_def split: if_split_asm)
  then show "snapshots_ok s" using to_snapshot_valid[OF inv bound fees fee] by (fastforce simp: snapshots_ok_def)
  show "sorted_wrt (<) (Validators s)"
    using sorted_validators(1)[OF top_candidates_electable(2)[OF T(2) stake_inv_linked[OF inv1]]] s2(4) by (simp add: s)
qed

end
