(* ===== verification/Author_Filter.thy ===== *)
theory Author_Filter
  imports Stake_Election Author_Inherent
begin

text \<open>
  \<^verbatim>\<open>src/pallets/author-filter/src/lib.rs\<close>: the pallet that draws the authors eligible at a
  height from the validators of the stake pallet. The randomness source, the hash type, the
  relay parent data of \<open>cumulus_parachain_system\<close> and \<open>Percent::mul_ceil\<close> are the fields of
  \<open>filter_config\<close>.
\<close>

type_synonym percent = u8

record ('o, 'h) filter_config =
  ensure_root :: "'o \<Rightarrow> dispatch_error + unit"
  random :: "bytes \<Rightarrow> 'h"
  to_low_u64_be :: "'h \<Rightarrow> u64"
  mul_ceil :: "percent \<Rightarrow> nat \<Rightarrow> nat"

datatype 'a FilterEvent = EligibleUpdated percent | Filtered u32 u32 "'a list"

record 'a filter_storage =
  EligibleRatio :: percent
  FilterEvents :: "'a FilterEvent list"

definition Half :: percent where
  "Half = 50"

text \<open>\<open>mul_ceil\<close> multiplies by the percentage and rounds up.\<close>

definition mul_ceil_law :: "('o, 'h) filter_config \<Rightarrow> bool" where
  "mul_ceil_law F \<longleftrightarrow>
     (\<forall>p n. unat p \<le> 100 \<longrightarrow>
        unat p * n \<le> 100 * mul_ceil F p n \<and> 100 * mul_ceil F p n < unat p * n + 100)"

definition set_eligible ::
  "('o, 'h) filter_config \<Rightarrow> 'o \<Rightarrow> percent \<Rightarrow> 'a filter_storage \<Rightarrow> (dispatch_error + unit) \<times> 'a filter_storage" where
  "set_eligible F origin new s =
     (case ensure_root F origin of
        Inl e \<Rightarrow> (Inl e, s)
      | Inr _ \<Rightarrow> (Inr (), s\<lparr>EligibleRatio := new, FilterEvents := FilterEvents s @ [EligibleUpdated new]\<rparr>))"

section \<open>Drawing the eligible authors\<close>

definition subject :: "nat \<Rightarrow> u32 \<Rightarrow> bytes" where
  "subject i relay_height = [102, 105, 108, 116, 101, 114, of_nat i, ucast relay_height]"

definition draw_index :: "('o, 'h) filter_config \<Rightarrow> nat \<Rightarrow> u32 \<Rightarrow> nat" where
  "draw_index F i relay_height =
     unat (ucast (to_low_u64_be F (random F (subject i relay_height))) :: u32)"

text \<open>The loop over \<open>i\<close>: \<open>n\<close> authors remain to be drawn. \<open>None\<close> is the panic of a remainder by
  zero when no author is left.\<close>

fun draw ::
  "('o, 'h) filter_config \<Rightarrow> u32 \<Rightarrow> nat \<Rightarrow> nat \<Rightarrow> 'a list \<Rightarrow> 'a list \<Rightarrow> ('a list \<times> 'a list) option" where
  "draw F relay_height i 0 staked eligible = Some (staked, eligible)"
| "draw F relay_height i (Suc n) staked eligible =
     (if length staked = 0 then None
      else (let k = draw_index F i relay_height mod length staked
            in draw F relay_height (Suc i) n (take k staked @ drop (Suc k) staked)
                 (eligible @ [staked ! k])))"

definition filter_can_author ::
  "('o, 'h) filter_config \<Rightarrow> percent \<Rightarrow> u32 option \<Rightarrow> 'a list \<Rightarrow> 'a \<Rightarrow> bool option" where
  "filter_can_author F ratio validation_data staked account =
     (let num_eligible = mul_ceil F ratio (length staked)
      in case validation_data of
           None \<Rightarrow> None
         | Some relay_height \<Rightarrow>
             (case draw F relay_height 0 num_eligible staked [] of
                None \<Rightarrow> None
              | Some (_, eligible) \<Rightarrow> Some (account \<in> set eligible)))"

section \<open>Correctness of the draw\<close>

lemma mset_remove_nth: "k < length xs \<Longrightarrow> add_mset (xs ! k) (mset (take k xs @ drop (Suc k) xs)) = mset xs"
  by (metis id_take_nth_drop mset.simps(2) mset_append union_mset_add_mset_right)

lemma draw_partition:
  assumes "n \<le> length staked"
  obtains out drawn where "draw F h i n staked eligible = Some (out, eligible @ drawn)"
    "length drawn = n" "mset drawn + mset out = mset staked"
  using assms
proof (induction n arbitrary: i staked eligible thesis)
  case 0
  then show ?case by simp
next
  case (Suc n)
  define k where "k = draw_index F i h mod length staked"
  define rest where "rest = take k staked @ drop (Suc k) staked"
  have k: "k < length staked" using Suc.prems(2) unfolding k_def by (intro mod_less_divisor) linarith
  have "n \<le> length rest" using Suc.prems(2) k by (simp add: rest_def)
  then obtain out drawn where d: "draw F h (Suc i) n rest (eligible @ [staked ! k])
      = Some (out, (eligible @ [staked ! k]) @ drawn)" "length drawn = n" "mset drawn + mset out = mset rest"
    using Suc.IH by metis
  have "mset (staked ! k # drawn) + mset out = mset staked"
    using d(3) mset_remove_nth[OF k] by (simp add: rest_def)
  with d Suc.prems show ?case
    by (intro Suc.prems(1)[of out "staked ! k # drawn"]) (auto simp: k_def rest_def)
qed

lemma mul_ceil_le:
  assumes "mul_ceil_law F" "unat p \<le> 100"
  shows "mul_ceil F p n \<le> n"
proof -
  have "100 * mul_ceil F p n < unat p * n + 100" using assms by (simp add: mul_ceil_law_def)
  moreover have "unat p * n \<le> 100 * n" using assms(2) by simp
  ultimately show ?thesis by linarith
qed

lemma filter_can_author_run:
  assumes "mul_ceil_law F" "unat p \<le> 100"
  obtains drawn out where "\<And>a. filter_can_author F p (Some h) staked a = Some (a \<in> set drawn)"
    "length drawn = mul_ceil F p (length staked)" "mset drawn + mset out = mset staked"
proof -
  obtain out drawn where "draw F h 0 (mul_ceil F p (length staked)) staked [] = Some (out, [] @ drawn)"
    "length drawn = mul_ceil F p (length staked)" "mset drawn + mset out = mset staked"
    using draw_partition[OF mul_ceil_le[OF assms]] by metis
  then show thesis using that by (simp add: filter_can_author_def)
qed

lemma drawn_subset: "mset drawn + mset out = mset staked \<Longrightarrow> set drawn \<subseteq> set staked"
  by (metis mset_subset_eq_add_left set_mset_mset set_mset_mono)

lemma filter_subset:
  assumes "mul_ceil_law F" "unat p \<le> 100" "filter_can_author F p v staked a = Some True"
  shows "a \<in> set staked"
proof (cases v)
  case None
  with assms(3) show ?thesis by (simp add: filter_can_author_def)
next
  case (Some h)
  obtain drawn out where "\<And>a. filter_can_author F p (Some h) staked a = Some (a \<in> set drawn)"
    "mset drawn + mset out = mset staked"
    using filter_can_author_run[OF assms(1,2)] by metis
  with assms(3) Some drawn_subset[of drawn out staked] show ?thesis by auto
qed

text \<open>Someone can author unless nobody is staked or the ratio is zero.\<close>

lemma filter_someone:
  assumes "mul_ceil_law F" "unat p \<le> 100"
  shows "(\<exists>a. filter_can_author F p (Some h) staked a = Some True) \<longleftrightarrow> staked \<noteq> [] \<and> p \<noteq> 0"
proof -
  obtain drawn out where d: "\<And>a. filter_can_author F p (Some h) staked a = Some (a \<in> set drawn)"
    "length drawn = mul_ceil F p (length staked)" "mset drawn + mset out = mset staked"
    using filter_can_author_run[OF assms] by metis
  define x where "x = unat p * length staked"
  have "x \<le> 100 * length drawn" "100 * length drawn < x + 100"
    using assms d(2) by (simp_all add: mul_ceil_law_def x_def)
  then have "length drawn = 0 \<longleftrightarrow> x = 0" by arith
  then show ?thesis by (auto simp: d(1) x_def unat_eq_0 ex_in_conv)
qed

section \<open>The checks of the runtime\<close>

text \<open>The storage the checks read: the stake pallet, the filter and the relay parent height that
  the validation data inherent has set (or not yet).\<close>

record ('c, 'a) authoring_storage =
  StakeStorage :: "('c, 'a) storage"
  FilterStorage :: "'a filter_storage"
  RelayHeight :: "u32 option"

definition stake_check :: "('c, 'a::linorder) authoring_storage \<Rightarrow> 'a \<Rightarrow> bool option" where
  "stake_check rt a = Some (can_author (StakeStorage rt) a)"

definition filter_check :: "('o, 'h) filter_config \<Rightarrow> ('c, 'a) authoring_storage \<Rightarrow> 'a \<Rightarrow> bool option" where
  "filter_check F rt a =
     filter_can_author F (EligibleRatio (FilterStorage rt)) (RelayHeight rt) (Validators (StakeStorage rt)) a"

definition checks_ready :: "('o, 'h) filter_config \<Rightarrow> ('c, 'a::linorder) authoring_storage \<Rightarrow> bool" where
  "checks_ready F rt \<longleftrightarrow> mul_ceil_law F \<and> unat (EligibleRatio (FilterStorage rt)) \<le> 100 \<and>
     sorted_wrt (<) (Validators (StakeStorage rt))"

lemma stake_check_iff:
  "checks_ready F rt \<Longrightarrow> stake_check rt a = Some (a \<in> set (Validators (StakeStorage rt)))"
  by (simp add: stake_check_def can_author_def is_validator_iff checks_ready_def)

lemma filter_stricter:
  assumes "checks_ready F rt" "filter_check F rt a = Some True"
  shows "stake_check rt a = Some True"
  unfolding stake_check_iff[OF assms(1)]
  using filter_subset[of F "EligibleRatio (FilterStorage rt)" "RelayHeight rt" "Validators (StakeStorage rt)" a]
    assms by (simp add: checks_ready_def filter_check_def)

interpretation runtime_checks: author_checks stake_check "filter_check F" "checks_ready F"
  by unfold_locales (rule filter_stricter)

text \<open>The configuration of the author inherent in \<^verbatim>\<open>src/runtime/src/lib.rs\<close>.\<close>

definition runtime_author_config ::
  "('o \<Rightarrow> dispatch_error + unit) \<Rightarrow> ('a \<Rightarrow> bytes) \<Rightarrow> (bytes \<Rightarrow> 'a option) \<Rightarrow> ('o, 'h) filter_config
     \<Rightarrow> ('o, ('c, 'a::linorder) authoring_storage, 'a) author_config" where
  "runtime_author_config none enc dec F =
     \<lparr>ensure_none = none, FinalCanAuthor = filter_check F, PreliminaryCanAuthor = stake_check,
      EventHandler = (\<lambda>a rt. rt\<lparr>StakeStorage := note_author a (StakeStorage rt)\<rparr>),
      encode_account = enc, decode_account = dec\<rparr>"

end
