(* ===== verification/Runtime_Config.thy ===== *)
theory Runtime_Config
  imports Stake_Machine
begin

text \<open>
  The constants and small components of \<^verbatim>\<open>src/runtime/src/lib.rs\<close>: the mapping between gas and
  weight, the block limits, the configuration of the stake pallet in the Moonbeam runtime, and the
  filter for Ethereum transactions that the transaction pool RPC calls. \<open>WEIGHT_PER_SECOND\<close> is a
  constant of \<open>frame_support\<close> and an argument here.
\<close>

section \<open>Constants\<close>

definition MINIMUM_PERIOD :: u64 where "MINIMUM_PERIOD = 3000"

definition MAXIMUM_BLOCK_WEIGHT :: "u64 \<Rightarrow> u64" where
  "MAXIMUM_BLOCK_WEIGHT weight_per_second = weight_per_second div 2"

definition GLMR :: balance where "GLMR = 1000000000000000000"

definition BLOCKS_PER_DAY :: u32 where "BLOCKS_PER_DAY = 24 * 60 * 10"

definition GAS_PER_SECOND :: u64 where "GAS_PER_SECOND = 40000000"

definition WEIGHT_PER_GAS :: "u64 \<Rightarrow> u64" where
  "WEIGHT_PER_GAS weight_per_second = weight_per_second div GAS_PER_SECOND"

record democracy_periods =
  LaunchPeriod :: u32
  VotingPeriod :: u32
  FastTrackVotingPeriod :: u32
  EnactmentPeriod :: u32
  CooloffPeriod :: u32
  MinimumDeposit :: balance
  MaxVotes :: u32
  MaxProposals :: u32
  PreimageByteDeposit :: balance
  InstantAllowed :: bool

definition runtime_democracy :: democracy_periods where
  "runtime_democracy =
     \<lparr>LaunchPeriod = BLOCKS_PER_DAY, VotingPeriod = 5 * BLOCKS_PER_DAY,
      FastTrackVotingPeriod = BLOCKS_PER_DAY, EnactmentPeriod = BLOCKS_PER_DAY,
      CooloffPeriod = 7 * BLOCKS_PER_DAY, MinimumDeposit = 4 * GLMR, MaxVotes = 100,
      MaxProposals = 100, PreimageByteDeposit = GLMR div 1000, InstantAllowed = False\<rparr>"

section \<open>Gas and weight\<close>

definition saturating_mul :: "u64 \<Rightarrow> u64 \<Rightarrow> u64" where
  "saturating_mul a b = (if unat a * unat b < 2 ^ 64 then a * b else - 1)"

definition gas_to_weight :: "u64 \<Rightarrow> u64 \<Rightarrow> u64" where
  "gas_to_weight weight_per_second gas = saturating_mul gas (WEIGHT_PER_GAS weight_per_second)"

text \<open>\<open>wrapping_div\<close> of an unsigned number is the division, which panics on zero; the conversion
  \<open>u64::try_from\<close> of a \<open>u64\<close> does not fail.\<close>

definition weight_to_gas :: "u64 \<Rightarrow> u64 \<Rightarrow> u64 option" where
  "weight_to_gas weight_per_second weight =
     (if WEIGHT_PER_GAS weight_per_second = 0 then None
      else Some (weight div WEIGHT_PER_GAS weight_per_second))"

text \<open>\<open>NORMAL_DISPATCH_RATIO\<close> is 75 percent; the multiplication of the \<open>Perbill\<close> with a weight is an
  argument.\<close>

definition BlockGasLimit :: "(perbill \<Rightarrow> u64 \<Rightarrow> u64) \<Rightarrow> u64 \<Rightarrow> u64 option" where
  "BlockGasLimit ratio_mul weight_per_second =
     (if WEIGHT_PER_GAS weight_per_second = 0 then None
      else Some (ratio_mul 750000000 (MAXIMUM_BLOCK_WEIGHT weight_per_second)
                   div WEIGHT_PER_GAS weight_per_second))"

lemma unat_saturating_mul: "unat (saturating_mul a b) = min (unat a * unat b) (2 ^ 64 - 1)"
proof (cases "unat a * unat b < 2 ^ 64")
  case True
  then have "unat (a * b) = unat a * unat b" using unat_mult_lem[of a b] by simp
  with True show ?thesis by (simp add: saturating_mul_def)
next
  case False
  then show ?thesis by (simp add: saturating_mul_def unsigned_minus_1_eq_mask mask_eq_exp_minus_1)
qed

section \<open>The stake pallet in the runtime\<close>

text \<open>The constants of the runtime with its currency, origins and arithmetic as arguments. The
  minimal nomination is configured to be the minimal stake of a nominator.\<close>

definition runtime_stake_config ::
  "('o \<Rightarrow> dispatch_error + 'a) \<Rightarrow> ('o \<Rightarrow> dispatch_error + unit) \<Rightarrow> ('a \<Rightarrow> 'o) \<Rightarrow> ('c, 'a) currency
     \<Rightarrow> perbill_ops \<Rightarrow> ('a \<Rightarrow> nat) \<Rightarrow> (('a, balance) bond list \<Rightarrow> ('a, balance) bond list)
     \<Rightarrow> ('o, 'c, 'a) config" where
  "runtime_stake_config chk_signed root mk_signed cur P skey srt =
     \<lparr>ensure_signed = chk_signed, SetMonetaryPolicyOrigin = root, signed_origin = mk_signed, Currency = cur,
      PerbillOps = P, storage_key = skey, sort_unstable_by_amount = srt,
      BlocksPerRound = 600, BondDuration = 2, MaxValidators = 8, MaxNominatorsPerValidator = 10,
      MaxValidatorsPerNominator = 8, MaxFee = 500000000, MinValidatorStk = 1000 * GLMR,
      MinNomination = 5 * GLMR, MinNominatorStk = 5 * GLMR\<rparr>"

lemma runtime_stake_ok:
  assumes "currency_laws cur"
  shows "config_ok (runtime_stake_config chk_signed root mk_signed cur P skey srt)"
    "BlocksPerRound (runtime_stake_config chk_signed root mk_signed cur P skey srt) \<noteq> 0"
  using assms by (simp_all add: config_ok_def runtime_stake_config_def GLMR_def)

section \<open>The transaction pool API of the runtime\<close>

text \<open>The calls of the runtime, as far as the filter looks at them.\<close>

datatype 't runtime_call = EthereumTransact 't | OtherCall

definition extrinsic_filter :: "'t runtime_call list \<Rightarrow> 't list" where
  "extrinsic_filter xts =
     List.map_filter (\<lambda>xt. case xt of EthereumTransact t \<Rightarrow> Some t | OtherCall \<Rightarrow> None) xts"

lemma extrinsic_filter_simps [simp]:
  "extrinsic_filter [] = []"
  "extrinsic_filter (EthereumTransact t # xs) = t # extrinsic_filter xs"
  "extrinsic_filter (OtherCall # xs) = extrinsic_filter xs"
  by (simp_all add: extrinsic_filter_def)

text \<open>The conversion of an Ethereum transaction into an unsigned extrinsic, and into its opaque
  form by encoding and decoding; the codec is an argument and a failed decoding is a panic.\<close>

definition convert_transaction :: "'t \<Rightarrow> 't runtime_call" where
  "convert_transaction transaction = EthereumTransact transaction"

definition convert_transaction_opaque ::
  "('t runtime_call \<Rightarrow> 'b) \<Rightarrow> ('b \<Rightarrow> 'x option) \<Rightarrow> 't \<Rightarrow> 'x option" where
  "convert_transaction_opaque encode decode transaction =
     (let encoded = encode (convert_transaction transaction) in decode encoded)"

end
