(* ===== verification/Runtime_Chain.thy ===== *)
theory Runtime_Chain
  imports Stake_Books Author_Filter Runtime_Config
begin

text \<open>
  The runtime of \<^verbatim>\<open>src/runtime/src/lib.rs\<close> as a whole: the pallets in the order of \<open>construct_runtime!\<close>, the
  execution of a block by the pallets of this repository, and chains of blocks. \<open>Executive\<close> of Substrate runs
  the \<open>on_initialize\<close> hooks, the extrinsics in the order of the block, and the \<open>on_finalize\<close> hooks; the hooks of
  the stake and the author pallet commute (\<open>finalize_block_commutes\<close>), so their order is left open. What the
  parachain system pallet leaves of the validation data when a block starts is the argument \<open>relay_init\<close>. The
  author inherent is a mandatory dispatch, so a block in which it returns an error is invalid. All other extrinsics are changes of the ledger that keep what is staked reserved.
\<close>

section \<open>The pallets of the runtime\<close>

datatype pallet =
    System | Timestamp | Balances | Sudo | RandomnessCollectiveFlip | ParachainSystem | TransactionPayment
  | ParachainInfo | EthereumChainId | EVM | Ethereum | Stake | Scheduler | Democracy | AuthorInherent | AuthorFilter

datatype pallet_part = ModulePart | CallPart | StoragePart | ConfigPart | EventPart | InherentPart | ValidateUnsignedPart

definition construct_runtime :: "(pallet \<times> pallet_part list) list" where
  "construct_runtime =
     [(System, [ModulePart, CallPart, StoragePart, ConfigPart, EventPart]),
      (Timestamp, [ModulePart, CallPart, StoragePart, InherentPart]),
      (Balances, [ModulePart, CallPart, StoragePart, ConfigPart, EventPart]),
      (Sudo, [ModulePart, CallPart, StoragePart, ConfigPart, EventPart]),
      (RandomnessCollectiveFlip, [ModulePart, CallPart, StoragePart]),
      (ParachainSystem, [ModulePart, CallPart, StoragePart, InherentPart, EventPart]),
      (TransactionPayment, [ModulePart, StoragePart]),
      (ParachainInfo, [ModulePart, StoragePart, ConfigPart]),
      (EthereumChainId, [ModulePart, StoragePart, ConfigPart]),
      (EVM, [ModulePart, ConfigPart, CallPart, StoragePart, EventPart]),
      (Ethereum, [ModulePart, CallPart, StoragePart, EventPart, ConfigPart, ValidateUnsignedPart]),
      (Stake, [ModulePart, CallPart, StoragePart, EventPart, ConfigPart]),
      (Scheduler, [ModulePart, StoragePart, ConfigPart, EventPart, CallPart]),
      (Democracy, [ModulePart, StoragePart, ConfigPart, EventPart, CallPart]),
      (AuthorInherent, [ModulePart, CallPart, StoragePart, InherentPart]),
      (AuthorFilter, [ModulePart, CallPart, StoragePart, EventPart])]"

definition inherent_order :: "pallet list" where
  "inherent_order = map fst (filter (\<lambda>(_, parts). InherentPart \<in> set parts) construct_runtime)"

section \<open>Blocks\<close>

record ('o, 'h, 'c, 'a) runtime =
  StakeConfig :: "('o, 'c, 'a) config"
  FilterConfig :: "('o, 'h) filter_config"
  AuthorConfig :: "('o, ('c, 'a) authoring_storage, 'a) author_config"
  none_origin :: 'o

type_synonym ('c, 'a) runtime_state = "'a author_storage \<times> ('c, 'a) authoring_storage"

datatype ('o, 'c, 'a) extrinsic =
    SetValidationData u32
  | SetAuthorCall 'o 'a
  | StakeCall 'o "'a stake_call"
  | SetEligible 'o percent
  | OtherExtrinsic 'c

fun apply_extrinsic ::
  "('o, 'h, 'c, 'a::linorder) runtime \<Rightarrow> ('o, 'c, 'a) extrinsic \<Rightarrow> ('c, 'a) runtime_state \<Rightarrow> ('c, 'a) runtime_state option" where
  "apply_extrinsic R (SetValidationData h) (as, rt) = Some (as, rt\<lparr>RelayHeight := Some h\<rparr>)"
| "apply_extrinsic R (SetAuthorCall origin a) st =
     (case set_author (AuthorConfig R) origin a st of Some (Inr _, st') \<Rightarrow> Some st' | _ \<Rightarrow> None)"
| "apply_extrinsic R (StakeCall origin call) (as, rt) =
     map_option (\<lambda>(_, s). (as, rt\<lparr>StakeStorage := s\<rparr>)) (dispatch_call (StakeConfig R) origin call (StakeStorage rt))"
| "apply_extrinsic R (SetEligible origin p) (as, rt) =
     Some (as, rt\<lparr>FilterStorage := snd (set_eligible (FilterConfig R) origin p (FilterStorage rt))\<rparr>)"
| "apply_extrinsic R (OtherExtrinsic c) (as, rt) =
     Some (as, rt\<lparr>StakeStorage := (StakeStorage rt)\<lparr>Ledger := c\<rparr>\<rparr>)"

fun apply_extrinsics ::
  "('o, 'h, 'c, 'a::linorder) runtime \<Rightarrow> ('o, 'c, 'a) extrinsic list \<Rightarrow> ('c, 'a) runtime_state \<Rightarrow> ('c, 'a) runtime_state option" where
  "apply_extrinsics R [] st = Some st"
| "apply_extrinsics R (x # xs) st =
     (case apply_extrinsic R x st of None \<Rightarrow> None | Some st' \<Rightarrow> apply_extrinsics R xs st')"

definition initialize_block :: "(u32 option \<Rightarrow> u32 option) \<Rightarrow> ('c, 'a) runtime_state \<Rightarrow> ('c, 'a) runtime_state" where
  "initialize_block relay_init st =
     (let (as, rt) = st in (author_on_initialize as, rt\<lparr>RelayHeight := relay_init (RelayHeight rt)\<rparr>))"

definition finalize_block ::
  "('o, 'h, 'c, 'a::linorder) runtime \<Rightarrow> u32 \<Rightarrow> ('c, 'a) runtime_state \<Rightarrow> ('c, 'a) runtime_state option" where
  "finalize_block R n st =
     (let (as, rt) = st
      in case on_finalize (StakeConfig R) n (StakeStorage rt) of
           None \<Rightarrow> None
         | Some s \<Rightarrow>
             (case author_on_finalize as of
                None \<Rightarrow> None
              | Some as' \<Rightarrow> Some (as', rt\<lparr>StakeStorage := s\<rparr>)))"

definition execute_block ::
  "('o, 'h, 'c, 'a::linorder) runtime \<Rightarrow> (u32 option \<Rightarrow> u32 option) \<Rightarrow> u32 \<Rightarrow> ('o, 'c, 'a) extrinsic list
     \<Rightarrow> ('c, 'a) runtime_state \<Rightarrow> ('c, 'a) runtime_state option" where
  "execute_block R relay_init n xs st =
     (case apply_extrinsics R xs (initialize_block relay_init st) of
        None \<Rightarrow> None
      | Some st' \<Rightarrow> finalize_block R n st')"

definition block_inherents :: "('o, 'h, 'c, 'a) runtime \<Rightarrow> u32 \<Rightarrow> 'a \<Rightarrow> ('o, 'c, 'a) extrinsic list" where
  "block_inherents R h a =
     concat (map (\<lambda>p. if p = ParachainSystem then [SetValidationData h]
                      else if p = AuthorInherent then [SetAuthorCall (none_origin R) a] else []) inherent_order)"

lemma block_inherents_order: "block_inherents R h a = [SetValidationData h, SetAuthorCall (none_origin R) a]"
  by (simp add: block_inherents_def inherent_order_def construct_runtime_def)

section \<open>The chain\<close>

fun extrinsic_ok :: "('o, 'h, 'c, 'a) runtime \<Rightarrow> ('o, 'c, 'a) extrinsic \<Rightarrow> ('c, 'a) runtime_state \<Rightarrow> bool" where
  "extrinsic_ok R (StakeCall origin call) (as, rt) = admissible (StakeConfig R) origin call (StakeStorage rt)"
| "extrinsic_ok R (SetEligible origin p) st = (unat p \<le> 100)"
| "extrinsic_ok R (OtherExtrinsic c) (as, rt) =
     (\<forall>a. staked_by (Candidates (StakeStorage rt)) (Nominators (StakeStorage rt)) a
        \<le> unat (reserved_balance (Currency (StakeConfig R)) c a))"
| "extrinsic_ok R _ st = True"

fun extrinsics_ok :: "('o, 'h, 'c, 'a::linorder) runtime \<Rightarrow> ('o, 'c, 'a) extrinsic list \<Rightarrow> ('c, 'a) runtime_state \<Rightarrow> bool" where
  "extrinsics_ok R [] st = True"
| "extrinsics_ok R (x # xs) st =
     (extrinsic_ok R x st \<and> (case apply_extrinsic R x st of None \<Rightarrow> True | Some st' \<Rightarrow> extrinsics_ok R xs st'))"

inductive chain_step ::
  "('o, 'h, 'c, 'a::linorder) runtime \<Rightarrow> (u32 option \<Rightarrow> u32 option) \<Rightarrow> nat \<times> ('c, 'a) runtime_state
     \<Rightarrow> nat \<times> ('c, 'a) runtime_state \<Rightarrow> bool" for R relay_init where
  block: "Suc n < 2 ^ 32 \<Longrightarrow> extrinsics_ok R xs (initialize_block relay_init st) \<Longrightarrow>
    execute_block R relay_init (of_nat (Suc n)) xs st = Some (as, rt) \<Longrightarrow>
    issuance_bound (Currency (StakeConfig R)) (Ledger (StakeStorage rt)) \<Longrightarrow>
    chain_step R relay_init (n, st) (Suc n, (as, rt))"

definition chain_genesis :: "('o, 'h, 'c, 'a::linorder) runtime \<Rightarrow> nat \<times> ('c, 'a) runtime_state \<Rightarrow> bool" where
  "chain_genesis R st \<longleftrightarrow>
     (\<exists>rt. st = (0, \<lparr>Author = None, DigestLogs = []\<rparr>, rt) \<and>
        FilterStorage rt = \<lparr>EligibleRatio = Half, FilterEvents = []\<rparr> \<and> RelayHeight rt = None \<and>
        stake_genesis (StakeConfig R) (\<lambda>_. 0) (StakeStorage rt) \<and>
        issuance_bound (Currency (StakeConfig R)) (Ledger (StakeStorage rt)))"

text \<open>What is assumed of the configuration.\<close>

definition runtime_ok :: "('o, 'h, 'c, 'a::linorder) runtime \<Rightarrow> bool" where
  "runtime_ok R \<longleftrightarrow>
     (\<exists>chk root mk cur P skey srt. StakeConfig R = runtime_stake_config chk root mk cur P skey srt \<and>
        currency_laws cur \<and> perbill_laws P \<and> sort_law (StakeConfig R)) \<and>
     (\<exists>none enc dec. AuthorConfig R = runtime_author_config none enc dec (FilterConfig R)) \<and>
     mul_ceil_law (FilterConfig R) \<and> ensure_none (AuthorConfig R) (none_origin R) = Inr ()"

lemma runtime_okD:
  assumes "runtime_ok R"
  shows "config_ok (StakeConfig R)" "sort_law (StakeConfig R)" "perbill_laws (PerbillOps (StakeConfig R))"
    "BlocksPerRound (StakeConfig R) = 600" "BondDuration (StakeConfig R) = 2" "MaxFee (StakeConfig R) = 500000000"
    "mul_ceil_law (FilterConfig R)" "FinalCanAuthor (AuthorConfig R) = filter_check (FilterConfig R)"
    "EventHandler (AuthorConfig R) = (\<lambda>a rt. rt\<lparr>StakeStorage := note_author a (StakeStorage rt)\<rparr>)"
    "ensure_none (AuthorConfig R) (none_origin R) = Inr ()"
  using assms runtime_stake_ok(1)
  by (auto simp: runtime_ok_def runtime_stake_config_def runtime_author_config_def config_ok_def GLMR_def)

section \<open>What every block keeps\<close>

definition stake_ok :: "('o, 'h, 'c, 'a::linorder) runtime \<Rightarrow> ('c, 'a) storage \<Rightarrow> bool" where
  "stake_ok R s \<longleftrightarrow> (\<exists>other. stake_inv (StakeConfig R) other s) \<and> fees_ok (StakeConfig R) s \<and> snapshots_ok s \<and>
     sorted_wrt (<) (Validators s) \<and> exits_ahead (StakeConfig R) s"

fun block_inv :: "('o, 'h, 'c, 'a::linorder) runtime \<Rightarrow> nat \<Rightarrow> nat \<Rightarrow> ('c, 'a) runtime_state \<Rightarrow> bool" where
  "block_inv R q m (as, rt) \<longleftrightarrow> stake_ok R (StakeStorage rt) \<and> unat (EligibleRatio (FilterStorage rt)) \<le> 100 \<and>
     books (StakeConfig R) q (if Author as = None then m else Suc m) (StakeStorage rt)"

lemma stake_ok_call:
  assumes R: "runtime_ok R" and "stake_ok R s" "admissible (StakeConfig R) origin call s"
    and call: "dispatch_call (StakeConfig R) origin call s = Some (r, s')" and round: "unat (Round s) + 2 < 2 ^ 32"
  shows "stake_ok R s'" "books (StakeConfig R) q m s' = books (StakeConfig R) q m s"
proof -
  have e: "same_epoch s s'" by (rule dispatch_call_epoch[OF call])
  then show "books (StakeConfig R) q m s' = books (StakeConfig R) q m s" by (rule books_same_epoch)
  have "snapshots_ok s' = snapshots_ok s" "Validators s' = Validators s"
    using e by (simp_all add: same_epoch_def snapshots_ok_def)
  then show "stake_ok R s'"
    using assms(2,3) dispatch_call_inv[OF runtime_okD(1)[OF R] _ _ call] fees.dispatch_call_terms[OF call _ refl]
      dispatch_call_exits[OF call] round runtime_okD(5)[OF R]
    unfolding stake_ok_def by auto
qed

lemma stake_ok_environment:
  assumes "stake_ok R s" "\<And>a. staked_by (Candidates s) (Nominators s) a \<le> unat (reserved_balance (Currency (StakeConfig R)) c a)"
  shows "stake_ok R (s\<lparr>Ledger := c\<rparr>)"
proof -
  let ?other = "\<lambda>a. unat (reserved_balance (Currency (StakeConfig R)) c a) - staked_by (Candidates s) (Nominators s) a"
  have "stake_inv (StakeConfig R) ?other (s\<lparr>Ledger := c\<rparr>)"
    using assms by (auto simp: stake_ok_def inv_defs covers_def)
  then show ?thesis using assms(1) by (auto simp: stake_ok_def snapshots_ok_def)
qed

lemma books_ledger [simp]: "books T q m (s\<lparr>Ledger := c\<rparr>) = books T q m s"
  by (rule books_same_epoch) (simp add: same_epoch_def)

lemma stake_ok_author: "stake_ok R s \<Longrightarrow> stake_ok R (note_author a s)"
  by (auto simp: stake_ok_def snapshots_ok_def each_candidate_def note_author_def inv_defs)

lemma set_author_run:
  assumes R: "runtime_ok R" and "set_author (AuthorConfig R) origin a (as, rt) = Some (r, st')"
  obtains (fail) "st' = (as, rt)"
  | (success) as' where "r = Inr ()" "Author as = None" "Author as' = Some a"
      "st' = (as', rt\<lparr>StakeStorage := note_author a (StakeStorage rt)\<rparr>)"
  using assms(2)
proof (cases rule: set_author_cases)
  case fail
  then show ?thesis using that(1) by simp
next
  case success
  then show ?thesis using that(2)[of "fst st'"] runtime_okD(9)[OF R] by (metis prod.collapse)
qed

lemma apply_extrinsic_inv:
  assumes R: "runtime_ok R" and inv: "block_inv R q m st" and m: "m < 600" and q: "q + 3 < 2 ^ 32"
    and ok: "extrinsic_ok R x st" and run: "apply_extrinsic R x st = Some st'"
  shows "block_inv R q m st'"
proof -
  obtain as rt where st: "st = (as, rt)" by (cases st)
  let ?T = "StakeConfig R" and ?s = "StakeStorage rt"
  have s: "stake_ok R ?s" "unat (EligibleRatio (FilterStorage rt)) \<le> 100"
    "books ?T q (if Author as = None then m else Suc m) ?s" using inv by (simp_all add: st)
  show ?thesis
  proof (cases x)
    case (SetValidationData h)
    then show ?thesis using run s by (auto simp: st)
  next
    case (SetAuthorCall origin a)
    then obtain r where "set_author (AuthorConfig R) origin a (as, rt) = Some (r, st')"
      using run by (auto simp: st split: option.splits sum.splits)
    with R show ?thesis
    proof (cases rule: set_author_run)
      case fail
      then show ?thesis using inv st by simp
    next
      case (success as')
      then show ?thesis
        using s stake_ok_author[of R ?s a] note_author_books[of ?T q m ?s a] m runtime_okD(5)[OF R] by simp
    qed
  next
    case (StakeCall origin call)
    then obtain r s' where call: "dispatch_call ?T origin call ?s = Some (r, s')"
      and st': "st' = (as, rt\<lparr>StakeStorage := s'\<rparr>)" using run by (auto simp: st)
    have "admissible ?T origin call ?s" using ok StakeCall by (simp add: st)
    moreover have "unat (Round ?s) + 2 < 2 ^ 32" using booksD(1)[OF s(3)] q by simp
    ultimately have "stake_ok R s'" "\<And>m. books ?T q m s' = books ?T q m ?s"
      using stake_ok_call[OF R s(1) _ call] by blast+
    with s show ?thesis by (simp add: st')
  next
    case (SetEligible origin p)
    then have "unat (EligibleRatio (snd (set_eligible (FilterConfig R) origin p (FilterStorage rt)))) \<le> 100"
      using ok s(2) by (auto simp: st set_eligible_def split: sum.split)
    then show ?thesis using run s SetEligible by (auto simp: st)
  next
    case (OtherExtrinsic c)
    then show ?thesis using run s ok stake_ok_environment[OF s(1), of c] by (auto simp: st)
  qed
qed

lemma apply_extrinsics_inv:
  "runtime_ok R \<Longrightarrow> m < 600 \<Longrightarrow> q + 3 < 2 ^ 32 \<Longrightarrow> block_inv R q m st \<Longrightarrow> extrinsics_ok R xs st \<Longrightarrow>
     apply_extrinsics R xs st = Some st' \<Longrightarrow> block_inv R q m st'"
proof (induction xs arbitrary: st)
  case (Cons x xs)
  then obtain st1 where "apply_extrinsic R x st = Some st1" "apply_extrinsics R xs st1 = Some st'"
    by (auto split: option.split_asm)
  then show ?case using Cons.IH[of st1] Cons.prems apply_extrinsic_inv[of R q m st x st1] by simp
qed simp

section \<open>The end of a block\<close>

lemma div_mod_Suc:
  "0 < (b::nat) \<Longrightarrow> Suc n mod b = 0 \<Longrightarrow> Suc (n mod b) = b \<and> Suc n div b = Suc (n div b)"
  "0 < b \<Longrightarrow> Suc n mod b \<noteq> 0 \<Longrightarrow> Suc n mod b = Suc (n mod b) \<and> Suc n div b = n div b"
  by (auto simp: mod_Suc div_Suc split: if_splits)

lemma block_number_mod:
  "Suc n < 2 ^ 32 \<Longrightarrow> (of_nat (Suc n) :: u32) mod 600 = 0 \<longleftrightarrow> Suc n mod 600 = 0"
proof -
  assume n: "Suc n < 2 ^ 32"
  have "unat ((of_nat (Suc n) :: u32) mod 600) = Suc n mod 600"
    using n by (simp only: unat_mod_distrib) (simp add: of_nat_inverse[OF refl] del: of_nat_Suc)
  then show ?thesis by (metis unat_eq_0)
qed

lemma round_small: "Suc n < 2 ^ 32 \<Longrightarrow> Suc (Suc (n div 600)) < 2 ^ 32" "Suc n < 2 ^ 32 \<Longrightarrow> n div 600 + 3 < 2 ^ 32"
  by simp_all

lemma finalize_block_commutes:
  "finalize_block R n (as, rt) =
     (case author_on_finalize as of
        None \<Rightarrow> None
      | Some as' \<Rightarrow> map_option (\<lambda>s. (as', rt\<lparr>StakeStorage := s\<rparr>)) (on_finalize (StakeConfig R) n (StakeStorage rt)))"
  by (simp add: finalize_block_def split: option.split)

lemma finalize_block_cases:
  assumes R: "runtime_ok R" and n: "Suc n < 2 ^ 32" and inv: "block_inv R (n div 600) (n mod 600) (as, rt)"
    and run: "finalize_block R (of_nat (Suc n)) (as, rt) = Some st'"
  obtains (same) "Suc n mod 600 \<noteq> 0" "st' = (as, rt)" "Author as \<noteq> None"
  | (change) other s' where "Suc n mod 600 = 0" "st' = (as, rt\<lparr>StakeStorage := s'\<rparr>)" "Author as \<noteq> None"
      "stake_inv (StakeConfig R) other (StakeStorage rt)" "stake_inv (StakeConfig R) other s'"
      "next_round (StakeConfig R) (of_nat (Suc n)) (StakeStorage rt) = Some s'"
proof -
  let ?T = "StakeConfig R" and ?s = "StakeStorage rt" and ?n = "of_nat (Suc n) :: u32"
  note T = runtime_okD(1,2)[OF R]
  obtain other where other: "stake_inv ?T other ?s" using inv by (auto simp: stake_ok_def)
  obtain s' where fin: "on_finalize ?T ?n ?s = Some s'" "st' = (as, rt\<lparr>StakeStorage := s'\<rparr>)" "Author as \<noteq> None"
    using run by (auto simp: finalize_block_def author_on_finalize_def split: option.split_asm if_split_asm)
  have "BlocksPerRound ?T \<noteq> 0" using runtime_okD(4)[OF R] by simp
  with T have "config_ok ?T" "sort_law ?T" "BlocksPerRound ?T \<noteq> 0" by simp_all
  from this other show thesis
  proof (cases rule: on_finalize_cases[where n = ?n])
    case same
    then show ?thesis using that(1) fin block_number_mod[OF n] runtime_okD(4)[OF R] by simp
  next
    case (change s')
    then show ?thesis using that(2) fin block_number_mod[OF n] runtime_okD(4)[OF R] other by simp
  qed
qed

lemma elected_sorted:
  assumes T: "config_ok T" "sort_law T" and inv: "stake_inv T other s" and run: "next_round T n s = Some s'"
  shows "sorted_wrt (<) (Validators s')"
proof -
  obtain "stake_inv T other s'" "Validators s' = sort_vec ord_cmp (top_candidates T s')"
    using next_round_run[OF T inv, of n] run by (metis option.inject)
  then show ?thesis
    using sorted_validators(1)[OF top_candidates_electable(2)[OF T(2) stake_inv_linked]] by simp
qed

lemma finalize_block_inv:
  assumes R: "runtime_ok R" and n: "Suc n < 2 ^ 32" and inv: "block_inv R (n div 600) (n mod 600) (as, rt)"
    and run: "finalize_block R (of_nat (Suc n)) (as, rt) = Some (as', rt')"
    and bound: "issuance_bound (Currency (StakeConfig R)) (Ledger (StakeStorage rt'))"
  shows "stake_ok R (StakeStorage rt')" "unat (EligibleRatio (FilterStorage rt')) \<le> 100"
    "books (StakeConfig R) (Suc n div 600) (Suc n mod 600) (StakeStorage rt')"
proof -
  let ?T = "StakeConfig R" and ?s = "StakeStorage rt"
  note D = runtime_okD[OF R]
  have s: "stake_ok R ?s" "unat (EligibleRatio (FilterStorage rt)) \<le> 100"
    "books ?T (n div 600) (if Author as = None then n mod 600 else Suc (n mod 600)) ?s" using inv by simp_all
  have "stake_ok R (StakeStorage rt') \<and> unat (EligibleRatio (FilterStorage rt')) \<le> 100 \<and>
    books ?T (Suc n div 600) (Suc n mod 600) (StakeStorage rt')"
    using R n inv run
  proof (cases rule: finalize_block_cases)
    case same
    then show ?thesis using s div_mod_Suc(2)[of 600 n] by auto
  next
    case (change other s')
    have fin: "Suc (n mod 600) = 600" "Suc n div 600 = Suc (n div 600)" using div_mod_Suc(1)[of 600 n] change(1) by simp_all
    have "issuance_bound (Currency ?T) (Ledger s')" using bound change(2) by simp
    from next_round_snapshots[OF D(1,2) change(4,6) _ _ _ this] s(1) D(6)
    have "snapshots_ok s'" "fees_ok ?T s'" by (simp_all add: stake_ok_def)
    moreover have "exits_ahead ?T s'"
      using next_round_exits[OF D(1,2) change(4,6)] s(1) booksD(1)[OF s(3)] round_small[OF n] by (simp add: stake_ok_def)
    ultimately have "stake_ok R s'"
      using change(5) elected_sorted[OF D(1,2) change(4,6)] by (auto simp: stake_ok_def)
    moreover have "books ?T (n div 600) (unat (BlocksPerRound ?T)) ?s"
      using s(3) change(3) fin(1) D(4) by simp
    from next_round_keeps_books[OF D(1,2) change(4,6) this round_small(1)[OF n]]
    have "books ?T (Suc n div 600) (Suc n mod 600) s'" using change(1) fin(2) by simp
    ultimately show ?thesis using change(2) s(2) by simp
  qed
  then show "stake_ok R (StakeStorage rt')" "unat (EligibleRatio (FilterStorage rt')) \<le> 100"
    "books ?T (Suc n div 600) (Suc n mod 600) (StakeStorage rt')" by blast+
qed

section \<open>The invariant of the chain\<close>

fun chain_inv :: "('o, 'h, 'c, 'a::linorder) runtime \<Rightarrow> nat \<times> ('c, 'a) runtime_state \<Rightarrow> bool" where
  "chain_inv R (n, as, rt) \<longleftrightarrow> stake_ok R (StakeStorage rt) \<and> unat (EligibleRatio (FilterStorage rt)) \<le> 100 \<and>
     books (StakeConfig R) (n div 600) (n mod 600) (StakeStorage rt)"

lemma initialize_block_inv:
  "chain_inv R (n, st) \<Longrightarrow> block_inv R (n div 600) (n mod 600) (initialize_block relay_init st)"
  by (cases st) (auto simp: initialize_block_def author_on_initialize_def)

text \<open>A step of the chain up to its last hooks.\<close>

lemma chain_stepE:
  assumes R: "runtime_ok R" and inv: "chain_inv R c" and step: "chain_step R relay_init c c'"
  obtains n as1 rt1 as rt where "c' = (Suc n, as, rt)" "Suc n < 2 ^ 32" "block_inv R (n div 600) (n mod 600) (as1, rt1)"
    "finalize_block R (of_nat (Suc n)) (as1, rt1) = Some (as, rt)"
    "issuance_bound (Currency (StakeConfig R)) (Ledger (StakeStorage rt))"
  using step
proof cases
  case (block n xs st as rt)
  obtain as1 rt1 where run: "apply_extrinsics R xs (initialize_block relay_init st) = Some (as1, rt1)"
    "finalize_block R (of_nat (Suc n)) (as1, rt1) = Some (as, rt)"
    using block(5) by (auto simp: execute_block_def split: option.split_asm)
  have "block_inv R (n div 600) (n mod 600) (as1, rt1)"
    by (rule apply_extrinsics_inv[OF R _ round_small(2)[OF block(3)] initialize_block_inv block(4) run(1)])
      (use inv block(1) in simp_all)
  from that[OF block(2,3) this run(2) block(6)] show thesis .
qed

lemma chain_step_inv:
  assumes "runtime_ok R" "chain_inv R c" "chain_step R relay_init c c'"
  shows "chain_inv R c'"
  using chain_stepE[OF assms] finalize_block_inv[OF assms(1)] by (metis chain_inv.simps)

lemma genesis_inv:
  assumes R: "runtime_ok R" and "chain_genesis R c"
  shows "chain_inv R c"
proof -
  obtain rt where c: "c = (0, \<lparr>Author = None, DigestLogs = []\<rparr>, rt)"
    "FilterStorage rt = \<lparr>EligibleRatio = Half, FilterEvents = []\<rparr>"
    "stake_genesis (StakeConfig R) (\<lambda>_. 0) (StakeStorage rt)"
    "issuance_bound (Currency (StakeConfig R)) (Ledger (StakeStorage rt))"
    using assms(2) by (auto simp: chain_genesis_def)
  note T = runtime_okD(1,2)[OF R]
  have "unat (MaxFee (StakeConfig R)) \<le> billion" using runtime_okD(6)[OF R] by simp
  from genesis_books[OF T c(3,4) this] stake_genesis_inv[OF T c(3)] show ?thesis
    by (auto simp: c(1,2) Half_def stake_ok_def)
qed

interpretation chain: invariant_machine
  "chain_genesis R" "chain_step R relay_init" "\<lambda>c. runtime_ok R \<longrightarrow> chain_inv R c"
  by unfold_locales (auto intro: genesis_inv chain_step_inv)

end
