(* ===== verification/Chain_Info.thy ===== *)
theory Chain_Info
  imports Prelude
begin

text \<open>
  The two pallets that hold one number of the genesis configuration:
  \<^verbatim>\<open>src/pallets/ethereum-chain-id/src/lib.rs\<close> and \<^verbatim>\<open>src/pallets/parachain-info/src/lib.rs\<close>. A
  \<open>ValueQuery\<close> storage value that was never written reads as its default. Neither pallet has a call,
  so the values of genesis stay.
\<close>

type_synonym para_id = u32

record info_storage =
  ChainId :: "u64 option"
  ParachainId :: "para_id option"

definition chain_id :: "info_storage \<Rightarrow> u64" where
  "chain_id s = (case ChainId s of None \<Rightarrow> 0 | Some x \<Rightarrow> x)"

definition chain_id_build :: "u64 \<Rightarrow> info_storage \<Rightarrow> info_storage" where
  "chain_id_build config_chain_id s = s\<lparr>ChainId := Some config_chain_id\<rparr>"

definition parachain_id :: "info_storage \<Rightarrow> para_id" where
  "parachain_id s = (case ParachainId s of None \<Rightarrow> 200 | Some x \<Rightarrow> x)"

definition parachain_info_build :: "para_id \<Rightarrow> info_storage \<Rightarrow> info_storage" where
  "parachain_info_build config_parachain_id s = s\<lparr>ParachainId := Some config_parachain_id\<rparr>"

end
