(* ===== verification/Node_Cli.thy ===== *)
theory Node_Cli
  imports Prelude
begin

text \<open>
  The command line of the node: \<^verbatim>\<open>src/node/src/cli.rs\<close>, and from \<^verbatim>\<open>src/node/src/command.rs\<close> which
  chain specification an identifier selects and what the relay chain side of the node takes from
  its own arguments. Parsing of the arguments by the command line libraries is outside the model.
\<close>

type_synonym address20 = "160 word"

section \<open>Sealing\<close>

datatype Sealing = Instant | Manual | Interval u64

text \<open>\<open>u64::from_str_radix\<close> with radix ten: an optional plus sign and at least one digit; every
  other character and every overflow is an error.\<close>

definition to_digit :: "char \<Rightarrow> nat option" where
  "to_digit c = (if 48 \<le> (of_char c :: nat) \<and> (of_char c :: nat) \<le> 57 then Some (of_char c - 48) else None)"

fun parse_digits :: "nat \<Rightarrow> string \<Rightarrow> nat option" where
  "parse_digits acc [] = Some acc"
| "parse_digits acc (c # cs) =
     (case to_digit c of
        None \<Rightarrow> None
      | Some d \<Rightarrow> if 2 ^ 64 \<le> acc * 10 then None
                  else if 2 ^ 64 \<le> acc * 10 + d then None
                  else parse_digits (acc * 10 + d) cs)"

definition u64_from_str :: "string \<Rightarrow> u64 option" where
  "u64_from_str s =
     (let digits = (case s of [] \<Rightarrow> [] | c # cs \<Rightarrow> if c = CHR ''+'' then cs else s)
      in if digits = [] then None else map_option of_nat (parse_digits 0 digits))"

definition sealing_from_str :: "string \<Rightarrow> string + Sealing" where
  "sealing_from_str s =
     (if s = ''instant'' then Inr Instant
      else if s = ''manual'' then Inr Manual
      else (case u64_from_str s of
              None \<Rightarrow> Inl ''couldn't decode sealing param''
            | Some millis \<Rightarrow> Inr (Interval millis)))"

section \<open>Commands\<close>

record ExportGenesisStateCommand =
  gs_output :: "string option"
  gs_parachain_id :: u32
  gs_raw :: bool
  gs_chain :: "string option"

record ExportGenesisWasmCommand =
  gw_output :: "string option"
  gw_raw :: bool
  gw_chain :: "string option"

datatype Subcommand =
    ExportGenesisState ExportGenesisStateCommand
  | ExportGenesisWasm ExportGenesisWasmCommand
  | BuildSpec | CheckBlock | ExportBlocks | ExportState | ImportBlocks | PurgeChain | Revert

text \<open>\<open>validator\<close> and \<open>dev\<close> are flags of the Substrate \<open>RunCmd\<close> that the command embeds.\<close>

record RunCmd =
  base_validator :: bool
  base_dev :: bool
  run_parachain_id :: "u32 option"
  dev_service :: bool
  sealing :: Sealing
  author_id :: "address20 option"

record Cli =
  subcommand :: "Subcommand option"
  run_cmd :: RunCmd
  collator_flag :: bool
  relaychain_args :: "string list"

definition parse_h160 :: "(string \<Rightarrow> address20 option) \<Rightarrow> string \<Rightarrow> string + address20" where
  "parse_h160 parse inp = (case parse inp of None \<Rightarrow> Inl ''Failed to parse H160'' | Some h \<Rightarrow> Inr h)"

section \<open>Chain specifications\<close>

datatype chain_source =
    EmbeddedSpec string
  | DevelopmentSpec
  | LocalSpec u32
  | JsonFile string

definition load_spec :: "string \<Rightarrow> u32 \<Rightarrow> string + chain_source" where
  "load_spec ident para_id =
     (if ident = ''alphanet'' then Inr (EmbeddedSpec ''specs/alphanet/parachain-embedded-specs-v6.json'')
      else if ident = ''stagenet'' then Inr (EmbeddedSpec ''specs/stagenet/parachain-embedded-specs-v6.json'')
      else if ident = ''dev'' \<or> ident = ''development'' then Inr DevelopmentSpec
      else if ident = ''local'' then Inr (LocalSpec para_id)
      else if ident = '''' then
        Inl (''You have not specified what chain to sync. In the future, this will default to '' @
             ''Moonbeam mainnet. Mainnet is not yet live so you must choose a spec.'')
      else Inr (JsonFile ident))"

definition cli_load_spec :: "Cli \<Rightarrow> string \<Rightarrow> string + chain_source" where
  "cli_load_spec cli ident =
     load_spec ident (case run_parachain_id (run_cmd cli) of None \<Rightarrow> 1000 | Some p \<Rightarrow> p)"

text \<open>The relay chain identifiers with an embedded specification; all others go to the Polkadot
  command line.\<close>

datatype relay_source = EmbeddedRelay string | PolkadotSpec string

definition relay_load_spec :: "string \<Rightarrow> relay_source" where
  "relay_load_spec ident =
     (if ident = ''moonbase_alpha_relay'' then EmbeddedRelay ''specs/alphanet/rococo-embedded-specs-v6.json''
      else if ident = ''moonbase_stage_relay'' then EmbeddedRelay ''specs/stagenet/rococo-embedded-specs-v6.json''
      else PolkadotSpec ident)"

record RelayChainCli =
  relay_base :: "string list"
  relay_chain_id :: "string option"
  relay_base_path :: "string option"

definition new_relay_chain_cli :: "string option \<Rightarrow> string option \<Rightarrow> string list \<Rightarrow> RelayChainCli" where
  "new_relay_chain_cli path ident args = \<lparr>relay_base = args, relay_chain_id = ident, relay_base_path = path\<rparr>"

text \<open>The chain identifier and the base path of the relay chain: what its own arguments say, and
  the value from the parachain side when they say nothing. The arguments are read by the first
  parameter.\<close>

definition relay_chain_id_of :: "(string list \<Rightarrow> bool \<Rightarrow> string + string) \<Rightarrow> RelayChainCli \<Rightarrow> bool \<Rightarrow> string + string" where
  "relay_chain_id_of base_chain_id r is_dev =
     (case base_chain_id (relay_base r) is_dev of
        Inl e \<Rightarrow> Inl e
      | Inr ident \<Rightarrow>
          Inr (if ident = '''' then (case relay_chain_id r of None \<Rightarrow> '''' | Some x \<Rightarrow> x) else ident))"

definition relay_base_path_of :: "(string list \<Rightarrow> string option) \<Rightarrow> RelayChainCli \<Rightarrow> string option" where
  "relay_base_path_of shared_base_path r =
     (case shared_base_path (relay_base r) of Some p \<Rightarrow> Some p | None \<Rightarrow> relay_base_path r)"

record relay_ports =
  p2p_listen_port :: u16
  rpc_ws_listen_port :: u16
  rpc_http_listen_port :: u16
  prometheus_listen_port :: u16

definition relay_default_ports :: relay_ports where
  "relay_default_ports =
     \<lparr>p2p_listen_port = 30334, rpc_ws_listen_port = 9945, rpc_http_listen_port = 9934,
      prometheus_listen_port = 9616\<rparr>"

text \<open>The extension of a chain specification, and Gerald, the account that is staked in the
  development specification.\<close>

record Extensions =
  relay_chain :: string
  ext_para_id :: u32

definition gerald :: address20 where
  "gerald = 0x6Be02d1d3665660d22FF9624b7BE0551ee1Ac91b"

section \<open>Decimal numbers are accepted\<close>

text \<open>The decimal representation of a number, most significant digit first.\<close>

definition digit_char :: "nat \<Rightarrow> char" where
  "digit_char d = char_of (48 + d)"

fun decimal :: "nat \<Rightarrow> string" where
  "decimal n = (if n < 10 then [digit_char n] else decimal (n div 10) @ [digit_char (n mod 10)])"

declare decimal.simps [simp del]

lemma to_digit_char: "d < 10 \<Longrightarrow> to_digit (digit_char d) = Some d"
  by (simp add: to_digit_def digit_char_def)

lemma parse_digits_append:
  "parse_digits acc (xs @ ys) = Option.bind (parse_digits acc xs) (\<lambda>a. parse_digits a ys)"
  by (induction xs arbitrary: acc) (auto split: option.split)

lemma parse_decimal: "n < 2 ^ 64 \<Longrightarrow> parse_digits 0 (decimal n) = Some n"
proof (induction n rule: less_induct)
  case (less n)
  show ?case
  proof (cases "n < 10")
    case True
    then show ?thesis by (simp add: decimal.simps[of n] to_digit_char)
  next
    case False
    then have "parse_digits 0 (decimal (n div 10)) = Some (n div 10)"
      using less by simp
    moreover have "n div 10 * 10 + n mod 10 = n" by (rule div_mult_mod_eq)
    ultimately show ?thesis using False less.prems
      by (simp add: decimal.simps[of n] parse_digits_append to_digit_char)
  qed
qed

lemma decimal_first: "\<exists>c cs. decimal n = c # cs \<and> c \<in> digit_char ` {..<10}"
proof (induction n rule: less_induct)
  case (less n)
  show ?case
  proof (cases "n < 10")
    case True
    then show ?thesis by (auto simp: decimal.simps[of n])
  next
    case False
    then have "\<exists>c cs. decimal (n div 10) = c # cs \<and> c \<in> digit_char ` {..<10}" using less by simp
    with False show ?thesis by (auto simp: decimal.simps[of n])
  qed
qed

lemma digit_char_code: "d < 10 \<Longrightarrow> (of_char (digit_char d) :: nat) = 48 + d"
  by (simp add: digit_char_def)

lemma u64_from_decimal: "n < 2 ^ 64 \<Longrightarrow> u64_from_str (decimal n) = Some (of_nat n)"
proof -
  assume n: "n < 2 ^ 64"
  obtain c cs where c: "decimal n = c # cs" "c \<in> digit_char ` {..<10}" using decimal_first by blast
  then have "c \<noteq> CHR ''+''" using digit_char_code by force
  with c(1) parse_decimal[OF n] show ?thesis by (simp add: u64_from_str_def)
qed

end
