(* ===== verification/Node_Genesis.thy ===== *)
theory Node_Genesis
  imports Runtime_Config Chain_Info Node_Cli
begin

text \<open>
  The chain specifications the node generates, \<^verbatim>\<open>src/node/src/chain_spec.rs\<close>: the inflation
  configuration, the genesis of a test network, and the development and local specifications. The
  runtime blob and \<open>Perbill::from_percent\<close> are arguments; a missing blob is a panic (\<open>None\<close>). The
  last section relates the genesis to the stake pallet it configures.
\<close>

section \<open>Genesis configuration\<close>

definition moonbeam_inflation_config :: "perbill_ops \<Rightarrow> (u32 \<Rightarrow> perbill) \<Rightarrow> InflationInfo" where
  "moonbeam_inflation_config P from_percent =
     \<lparr>expect = \<lparr>r_min = 100000 * GLMR, r_ideal = 200000 * GLMR, r_max = 500000 * GLMR\<rparr>,
      round_rates = \<lparr>r_min = from_parts P (from_percent 4 div 8766),
                     r_ideal = from_parts P (from_percent 5 div 8766),
                     r_max = from_parts P (from_percent 5 div 8766)\<rparr>\<rparr>"

record genesis_config =
  gen_code :: "u8 list"
  gen_balances :: "(address20 \<times> balance) list"
  gen_sudo_key :: address20
  gen_parachain_id :: para_id
  gen_chain_id :: u64
  gen_evm_accounts :: "address20 list"
  gen_stakers :: "(address20 \<times> address20 option \<times> balance) list"
  gen_inflation :: InflationInfo

definition testnet_genesis ::
  "u8 list option \<Rightarrow> address20 \<Rightarrow> (address20 \<times> address20 option \<times> balance) list \<Rightarrow> InflationInfo
     \<Rightarrow> address20 list \<Rightarrow> para_id \<Rightarrow> u64 \<Rightarrow> genesis_config option" where
  "testnet_genesis WASM_BINARY root_key stakers inflation_config endowed_accounts para chain =
     (case WASM_BINARY of
        None \<Rightarrow> None
      | Some code \<Rightarrow>
          Some \<lparr>gen_code = code, gen_balances = map (\<lambda>k. (k, push_bit 80 1)) endowed_accounts,
                gen_sudo_key = root_key, gen_parachain_id = para, gen_chain_id = chain,
                gen_evm_accounts = [], gen_stakers = stakers, gen_inflation = inflation_config\<rparr>)"

section \<open>Specifications\<close>

datatype chain_type = Development | Local

record chain_spec =
  spec_name :: string
  spec_id :: string
  spec_chain_type :: chain_type
  spec_genesis :: "genesis_config option"
  spec_telemetry :: "string option"
  spec_token_decimals :: nat
  spec_extensions :: Extensions

definition development_chain_spec :: "u8 list option \<Rightarrow> perbill_ops \<Rightarrow> (u32 \<Rightarrow> perbill) \<Rightarrow> chain_spec" where
  "development_chain_spec WASM_BINARY P from_percent =
     \<lparr>spec_name = ''Moonbase Development Testnet'', spec_id = ''development'',
      spec_chain_type = Development,
      spec_genesis = testnet_genesis WASM_BINARY gerald [(gerald, None, 1000 * GLMR)]
                       (moonbeam_inflation_config P from_percent) [gerald] 0 1281,
      spec_telemetry = Some ''wss://telemetry.polkadot.io/submit/'',
      spec_token_decimals = 18,
      spec_extensions = \<lparr>relay_chain = ''dev-service'', ext_para_id = 0\<rparr>\<rparr>"

definition get_chain_spec :: "u8 list option \<Rightarrow> perbill_ops \<Rightarrow> (u32 \<Rightarrow> perbill) \<Rightarrow> para_id \<Rightarrow> chain_spec" where
  "get_chain_spec WASM_BINARY P from_percent para =
     \<lparr>spec_name = ''Moonbase Development Testnet'', spec_id = ''local_testnet'',
      spec_chain_type = Local,
      spec_genesis = testnet_genesis WASM_BINARY gerald [(gerald, None, 1000 * GLMR)]
                       (moonbeam_inflation_config P from_percent) [gerald] para 1280,
      spec_telemetry = None,
      spec_token_decimals = 18,
      spec_extensions = \<lparr>relay_chain = ''local_testnet'', ext_para_id = para\<rparr>\<rparr>"

section \<open>The genesis of the pallets\<close>

text \<open>The genesis builds of the pallets of this repository, on the ledger that the balances pallet
  builds from its configuration.\<close>

definition build_stake_genesis ::
  "('o, 'c, address20) config \<Rightarrow> ((address20 \<times> balance) list \<Rightarrow> 'c) \<Rightarrow> genesis_config \<Rightarrow> ('c, address20) storage option" where
  "build_stake_genesis T balances_build g =
     genesis_build T (gen_stakers g) (initial_storage (gen_inflation g) (balances_build (gen_balances g)))"

definition build_info_genesis :: "genesis_config \<Rightarrow> info_storage" where
  "build_info_genesis g =
     parachain_info_build (gen_parachain_id g)
       (chain_id_build (gen_chain_id g) \<lparr>ChainId = None, ParachainId = None\<rparr>)"

text \<open>What the balances pallet promises of its genesis: the endowments are free balances, nothing is
  reserved, and as nothing is locked an account can reserve what it owns.\<close>

definition balances_genesis_law :: "('c, address20) currency \<Rightarrow> ((address20 \<times> balance) list \<Rightarrow> 'c) \<Rightarrow> bool" where
  "balances_genesis_law C balances_build \<longleftrightarrow>
     (\<forall>bs a x. distinct (map fst bs) \<and> (a, x) \<in> set bs \<longrightarrow>
        free_balance C (balances_build bs) a = x \<and>
        (\<forall>v. v \<le> x \<longrightarrow> (\<exists>c. reserve C (balances_build bs) a v = Inr c))) \<and>
     (\<forall>bs a. reserved_balance C (balances_build bs) a = 0)"

lemma balances_genesisD:
  assumes "balances_genesis_law C balances_build" "distinct (map fst bs)" "(a, x) \<in> set bs"
  shows "free_balance C (balances_build bs) a = x"
    "v \<le> x \<Longrightarrow> \<exists>c. reserve C (balances_build bs) a v = Inr c"
  using assms unfolding balances_genesis_law_def by blast+

lemma sort_singleton: "sort_law T \<Longrightarrow> sort_unstable_by_amount T [b] = [b]"
  using sort_lawD(1)[of T "[b]"] by simp

lemma genesis_single_staker:
  assumes "sort_law T" "ensure_signed T (signed_origin T a) = Inr a" "MinValidatorStk T \<le> x"
    and "x \<le> free_balance (Currency T) c a" "reserve (Currency T) c a x = Inr c'" "0 < MaxValidators T"
  obtains s where "genesis_build T [(a, None, x)] (initial_storage info c) = Some s"
    "Validators s = [a]" "Candidates s = [a \<mapsto> new_validator a 0 x]" "Nominators s = Map.empty"
    "Total s = x" "Round s = 1" "AtStake s = [(1, a) \<mapsto> to_snapshot (new_validator a 0 x)]" "Ledger s = c'"
    "ExitQueue s = []"
proof -
  have n: "unat (MaxValidators T) \<noteq> 0" using assms(6) by (simp add: unat_eq_0 word_neq_0_conv)
  have "\<exists>s. genesis_build T [(a, None, x)] (initial_storage info c) = Some s \<and>
    Validators s = [a] \<and> Candidates s = [a \<mapsto> new_validator a 0 x] \<and> Nominators s = Map.empty \<and>
    Total s = x \<and> Round s = 1 \<and> AtStake s = [(1, a) \<mapsto> to_snapshot (new_validator a 0 x)] \<and> Ledger s = c' \<and>
    ExitQueue s = []"
    using assms n
    by (simp add: genesis_build_def initial_storage_def join_candidates_def is_candidate_def is_nominator_def
        set_insert_def binary_search_def binary_search_by_def best_candidates_become_validators_def
        top_candidates_def sort_singleton put_candidate_def deposit_event_def take_Cons')
  then show thesis using that by blast
qed

end
