(* ===== verification/Chain_Execution.thy ===== *)
theory Chain_Execution
  imports Runtime_Chain Node_Genesis
begin

text \<open>
  When a block of the runtime executes. Calls and hooks never panic on a chain of the runtime, so that a block
  with its inherents fails only by an ineligible author; the genesis builds of a chain specification are the start
  of a chain.
\<close>

section \<open>Executing a block\<close>

fun is_author_call :: "('o, 'c, 'a) extrinsic \<Rightarrow> bool" where
  "is_author_call (SetAuthorCall _ _) = True"
| "is_author_call _ = False"

lemma dispatch_call_total:
  assumes R: "runtime_ok R"
  obtains r s' where "dispatch_call (StakeConfig R) origin call s = Some (r, s')"
proof (cases call)
  case (SetInflation rates)
  have "\<exists>x. set_inflation (StakeConfig R) origin rates s = Some x"
    using runtime_okD(4)[OF R]
    by (auto simp: set_inflation_def set_annual_rate_def annual_to_round_def rounds_per_year_def checked_div_def
        blocks_per_year split: sum.split option.split)
  then show thesis using that SetInflation by auto
qed (use that in \<open>auto simp: prod_eq_iff\<close>)

lemma apply_extrinsic_total:
  assumes R: "runtime_ok R" and x: "\<not> is_author_call x"
  obtains as' rt' where "apply_extrinsic R x (as, rt) = Some (as', rt')" "as' = as"
  using that
proof (cases x)
  case (StakeCall origin call)
  moreover obtain r s' where "dispatch_call (StakeConfig R) origin call (StakeStorage rt) = Some (r, s')"
    using dispatch_call_total[OF R] by metis
  ultimately show ?thesis using that by simp
qed (use x in auto)

lemma apply_extrinsics_total:
  assumes R: "runtime_ok R"
  shows "\<forall>x\<in>set xs. \<not> is_author_call x \<Longrightarrow> \<exists>rt'. apply_extrinsics R xs (as, rt) = Some (as, rt')"
proof (induction xs arbitrary: rt)
  case (Cons x xs)
  obtain rt1 where "apply_extrinsic R x (as, rt) = Some (as, rt1)"
    using apply_extrinsic_total[OF R, of x as rt] Cons.prems by auto
  then show ?case using Cons by simp
qed simp

lemma finalize_block_total:
  assumes R: "runtime_ok R" and n: "Suc n < 2 ^ 32" and inv: "block_inv R (n div 600) (n mod 600) (as, rt)"
  shows "finalize_block R (of_nat (Suc n)) (as, rt) \<noteq> None \<longleftrightarrow> Author as \<noteq> None"
proof -
  obtain other where other: "stake_inv (StakeConfig R) other (StakeStorage rt)" using inv by (auto simp: stake_ok_def)
  have "BlocksPerRound (StakeConfig R) \<noteq> 0" using runtime_okD(4)[OF R] by simp
  from on_finalize_cases[OF runtime_okD(1,2)[OF R] this other]
  have "\<exists>s'. on_finalize (StakeConfig R) (of_nat (Suc n)) (StakeStorage rt) = Some s'" by metis
  then show ?thesis by (auto simp: finalize_block_commutes author_on_finalize_def split: option.split)
qed

lemma apply_extrinsics_append:
  "apply_extrinsics R (xs @ ys) st =
     (case apply_extrinsics R xs st of None \<Rightarrow> None | Some st' \<Rightarrow> apply_extrinsics R ys st')"
  by (induction xs arbitrary: st) (auto split: option.split)

lemma filter_check_total:
  assumes R: "runtime_ok R" and "unat (EligibleRatio (FilterStorage rt)) \<le> 100" "RelayHeight rt = Some h"
  shows "\<exists>b. filter_check (FilterConfig R) rt a = Some b"
  using filter_can_author_run[OF runtime_okD(7)[OF R] assms(2)] assms(3) by (metis filter_check_def)

lemma block_executes_iff:
  assumes "runtime_ok R" "chain_genesis R c0" "(chain_step R relay_init)\<^sup>*\<^sup>* c0 (n, as, rt)" "Suc n < 2 ^ 32"
    and "extrinsics_ok R (block_inherents R h a @ xs) (initialize_block relay_init (as, rt))"
    and "\<forall>x\<in>set xs. \<not> is_author_call x"
  shows "execute_block R relay_init (of_nat (Suc n)) (block_inherents R h a @ xs) (as, rt) \<noteq> None \<longleftrightarrow>
    filter_can_author (FilterConfig R) (EligibleRatio (FilterStorage rt)) (Some h) (Validators (StakeStorage rt)) a = Some True"
proof -
  let ?rt = "rt\<lparr>RelayHeight := Some h\<rparr>" and ?as = "author_on_initialize as" and ?n = "of_nat (Suc n) :: u32"
  note R = assms(1)
  have inv: "chain_inv R (n, as, rt)" using chain.reachable_inv[OF assms(2,3)] R by simp
  obtain b where b: "filter_check (FilterConfig R) ?rt a = Some b"
    using filter_check_total[OF R, of ?rt h a] inv by auto
  have check: "filter_check (FilterConfig R) ?rt a = filter_can_author (FilterConfig R) (EligibleRatio (FilterStorage rt))
      (Some h) (Validators (StakeStorage rt)) a" by (simp add: filter_check_def)
  define st1 where "st1 = (?as\<lparr>Author := Some a, DigestLogs := DigestLogs as @
      [Consensus ENGINE_ID (encode_account (AuthorConfig R) a)]\<rparr>, ?rt\<lparr>StakeStorage := note_author a (StakeStorage rt)\<rparr>)"
  have inh: "apply_extrinsics R (block_inherents R h a) (initialize_block relay_init (as, rt)) = (if b then Some st1 else None)"
    using b runtime_okD(8-10)[OF R]
    by (cases b) (auto simp: block_inherents_order initialize_block_def set_author_def st1_def author_on_initialize_def)
  show ?thesis
  proof (cases b)
    case True
    obtain rt2 where run: "apply_extrinsics R xs st1 = Some (fst st1, rt2)"
      using apply_extrinsics_total[OF R assms(6), of "fst st1" "snd st1"] by auto
    have run: "apply_extrinsics R (block_inherents R h a @ xs) (initialize_block relay_init (as, rt)) = Some (fst st1, rt2)"
      using inh run True by (simp add: apply_extrinsics_append)
    have "block_inv R (n div 600) (n mod 600) (fst st1, rt2)"
      by (rule apply_extrinsics_inv[OF R _ round_small(2)[OF assms(4)] initialize_block_inv[OF inv] assms(5) run]) simp
    from finalize_block_total[OF R assms(4) this] have "finalize_block R ?n (fst st1, rt2) \<noteq> None" by (simp add: st1_def)
    then show ?thesis using run b check True by (simp add: execute_block_def)
  next
    case False
    then show ?thesis using inh b check by (simp add: execute_block_def apply_extrinsics_append)
  qed
qed

section \<open>Chains that halt\<close>

text \<open>Without a validator no block executes at all.\<close>

lemma filter_nobody: "filter_can_author F p h [] a \<noteq> Some True"
  by (cases "mul_ceil F p 0") (auto simp: filter_can_author_def split: option.split)

lemma apply_extrinsic_nobody:
  assumes R: "runtime_ok R" and run: "apply_extrinsic R x (as, rt) = Some (as', rt')"
    and nobody: "Validators (StakeStorage rt) = []" "Author as = None"
  shows "Validators (StakeStorage rt') = [] \<and> Author as' = None"
proof (cases x)
  case (SetAuthorCall origin a)
  then obtain r where "set_author (AuthorConfig R) origin a (as, rt) = Some (Inr r, as', rt')"
    using run by (auto split: option.split_asm sum.split_asm)
  then have "filter_check (FilterConfig R) rt a = Some True"
    using runtime_okD(8)[OF R] by (cases rule: set_author_cases) auto
  then show ?thesis using filter_nobody nobody(1) by (metis filter_check_def)
next
  case (StakeCall origin call)
  then show ?thesis using run nobody dispatch_call_epoch by (fastforce simp: same_epoch_def)
qed (use run nobody in auto)

lemma apply_extrinsics_nobody:
  assumes R: "runtime_ok R"
  shows "apply_extrinsics R xs (as, rt) = Some (as', rt') \<Longrightarrow> Validators (StakeStorage rt) = [] \<Longrightarrow> Author as = None \<Longrightarrow>
    Author as' = None"
proof (induction xs arbitrary: as rt)
  case (Cons x xs)
  obtain as1 rt1 where x: "apply_extrinsic R x (as, rt) = Some (as1, rt1)"
    using Cons.prems(1) by (auto split: option.split_asm)
  from apply_extrinsic_nobody[OF R x Cons.prems(2,3)] Cons.IH[of as1 rt1] Cons.prems(1) x show ?case by simp
qed simp

lemma halted_chain:
  assumes "runtime_ok R" "Validators (StakeStorage rt) = []"
  shows "execute_block R relay_init n xs (as, rt) = None"
proof -
  have "finalize_block R n (as', rt') = None"
    if "apply_extrinsics R xs (initialize_block relay_init (as, rt)) = Some (as', rt')" for as' rt'
    using apply_extrinsics_nobody[OF assms(1), of xs "author_on_initialize as"] that assms(2)
    by (simp add: initialize_block_def author_on_initialize_def finalize_block_commutes author_on_finalize_def)
  then show ?thesis by (auto simp: execute_block_def split: option.split)
qed

text \<open>A round starts without a validator exactly if no candidate is active.\<close>

lemma elected_nonempty:
  assumes T: "config_ok T" "sort_law T" and inv: "stake_inv T other s" and run: "next_round T n s = Some s'"
    and max: "MaxValidators T \<noteq> 0"
  shows "Validators s' \<noteq> [] \<longleftrightarrow> electable s' \<noteq> {}"
proof -
  obtain s: "stake_inv T other s'" "Validators s' = sort_vec ord_cmp (top_candidates T s')"
    using next_round_run[OF T inv, of n] run by (metis option.inject)
  note L = stake_inv_linked[OF s(1)]
  have "set (Validators s') = set (top_candidates T s')"
    using sorted_validators(2)[OF top_candidates_electable(2)[OF T(2) L]] s(2) by simp
  then have "Validators s' = [] \<longleftrightarrow> top_candidates T s' = []" by (metis set_empty)
  also have "\<dots> \<longleftrightarrow> CandidatePool s' = []"
    using top_candidates_electable(3)[OF T(2) L] max by (metis length_0_conv min_0R min_def unat_eq_0 nat_le_linear le_zero_eq)
  also have "\<dots> \<longleftrightarrow> electable s' = {}" using pool_candidate(1)[OF L] by (metis image_is_empty set_empty)
  finally show ?thesis by simp
qed

lemma round_start_validators:
  assumes R: "runtime_ok R" and start: "chain_genesis R c0"
    and run: "(chain_step R relay_init)\<^sup>*\<^sup>* c0 (n, as, rt)" and n: "0 < n" "n mod 600 = 0"
  shows "Validators (StakeStorage rt) \<noteq> [] \<longleftrightarrow> electable (StakeStorage rt) \<noteq> {}"
proof -
  obtain c where c: "(chain_step R relay_init)\<^sup>*\<^sup>* c0 c" "chain_step R relay_init c (n, as, rt)"
    using run start n(1) by (cases rule: rtranclp.cases) (auto simp: chain_genesis_def)
  have "chain_inv R c" using chain.reachable_inv[OF start c(1)] R by simp
  from chain_stepE[OF R this c(2)] obtain m as1 rt1 where m: "n = Suc m" "Suc m < 2 ^ 32"
    "block_inv R (m div 600) (m mod 600) (as1, rt1)" "finalize_block R (of_nat (Suc m)) (as1, rt1) = Some (as, rt)"
    by (metis prod.inject)
  from R m(2-4) show ?thesis
  proof (cases rule: finalize_block_cases)
    case same
    then show ?thesis using n m(1) by simp
  next
    case (change other s')
    have "MaxValidators (StakeConfig R) \<noteq> 0" using R by (auto simp: runtime_ok_def runtime_stake_config_def)
    from elected_nonempty[OF runtime_okD(1,2)[OF R] change(4,6) this] change(2) show ?thesis by simp
  qed
qed

section \<open>The development chain\<close>

text \<open>The state of the chain after the genesis builds of the pallets.\<close>

definition genesis_state :: "('c, 'a) storage \<Rightarrow> ('c, 'a) runtime_state" where
  "genesis_state s = (\<lparr>Author = None, DigestLogs = []\<rparr>,
     \<lparr>StakeStorage = s, FilterStorage = \<lparr>EligibleRatio = Half, FilterEvents = []\<rparr>, RelayHeight = None\<rparr>)"

lemma build_stake_genesis_chain:
  assumes "build_stake_genesis (StakeConfig R) balances_build g = Some s"
    and "balances_genesis_law (Currency (StakeConfig R)) balances_build"
    and "issuance_bound (Currency (StakeConfig R)) (Ledger s)"
  shows "chain_genesis R (0, genesis_state s)"
proof -
  have "\<forall>a. unat (reserved_balance (Currency (StakeConfig R)) (balances_build (gen_balances g)) a) = 0"
    using assms(2) by (simp add: balances_genesis_law_def)
  then have "stake_genesis (StakeConfig R) (\<lambda>_. 0) s"
    using assms(1) unfolding stake_genesis_def build_stake_genesis_def by blast
  then show ?thesis using assms(3) by (simp add: chain_genesis_def genesis_state_def)
qed

lemma filter_accepts_single:
  assumes "mul_ceil_law F" "unat p \<le> 100" "p \<noteq> 0"
  shows "filter_can_author F p (Some h) [a] a = Some True"
  using filter_someone[OF assms(1,2), of h "[a]"] filter_subset[OF assms(1,2), of "Some h" "[a]"] assms(3) by auto

end
