(* ===== verification/Runtime_Api.thy ===== *)
theory Runtime_Api
  imports Runtime_Config Chain_Info
begin

text \<open>
  The Ethereum part of the runtime API, \<^verbatim>\<open>src/runtime/src/lib.rs\<close>, as far as the runtime does more
  than hand a call over: the arguments it gives to the EVM runner for \<open>call\<close> and \<open>create\<close>, the
  storage slot it reads, the chain identifier and the gas limit of a block. The EVM is a parameter.
\<close>

type_synonym H160 = "160 word"
type_synonym U256 = "256 word"

text \<open>The configuration of the EVM; only the flag \<open>estimate\<close> is changed here.\<close>

record evm_config =
  estimate_flag :: bool

record ('i, 'j) evm_runner =
  base_config :: evm_config
  runner_call :: "H160 \<Rightarrow> H160 \<Rightarrow> u8 list \<Rightarrow> U256 \<Rightarrow> u64 \<Rightarrow> U256 option \<Rightarrow> U256 option \<Rightarrow> evm_config \<Rightarrow> dispatch_error + 'i"
  runner_create :: "H160 \<Rightarrow> u8 list \<Rightarrow> U256 \<Rightarrow> u64 \<Rightarrow> U256 option \<Rightarrow> U256 option \<Rightarrow> evm_config \<Rightarrow> dispatch_error + 'j"
  account_storages :: "H160 \<Rightarrow> u8 list \<Rightarrow> u8 list"

definition runner_config :: "('i, 'j) evm_runner \<Rightarrow> bool \<Rightarrow> evm_config" where
  "runner_config R estimate =
     (let config = (if estimate then Some ((base_config R)\<lparr>estimate_flag := True\<rparr>) else None)
      in case config of None \<Rightarrow> base_config R | Some c \<Rightarrow> c)"

definition low_u64 :: "U256 \<Rightarrow> u64" where
  "low_u64 x = ucast x"

definition api_call ::
  "('i, 'j) evm_runner \<Rightarrow> H160 \<Rightarrow> H160 \<Rightarrow> u8 list \<Rightarrow> U256 \<Rightarrow> U256 \<Rightarrow> U256 option \<Rightarrow> U256 option \<Rightarrow> bool
     \<Rightarrow> dispatch_error + 'i" where
  "api_call R from_addr to data val gas_limit gas_price nonce estimate =
     runner_call R from_addr to data val (low_u64 gas_limit) gas_price nonce (runner_config R estimate)"

definition api_create ::
  "('i, 'j) evm_runner \<Rightarrow> H160 \<Rightarrow> u8 list \<Rightarrow> U256 \<Rightarrow> U256 \<Rightarrow> U256 option \<Rightarrow> U256 option \<Rightarrow> bool
     \<Rightarrow> dispatch_error + 'j" where
  "api_create R from_addr data val gas_limit gas_price nonce estimate =
     runner_create R from_addr data val (low_u64 gas_limit) gas_price nonce (runner_config R estimate)"

text \<open>\<open>to_big_endian\<close>: the 32 bytes of the index, most significant first.\<close>

definition to_big_endian :: "U256 \<Rightarrow> u8 list" where
  "to_big_endian index = map (\<lambda>i. ucast (drop_bit (8 * (31 - i)) index)) [0..<32]"

definition storage_at :: "('i, 'j) evm_runner \<Rightarrow> H160 \<Rightarrow> U256 \<Rightarrow> u8 list" where
  "storage_at R address index = account_storages R address (to_big_endian index)"

definition api_chain_id :: "info_storage \<Rightarrow> u64" where
  "api_chain_id s = chain_id s"

definition current_block_gas_limit :: "(perbill \<Rightarrow> u64 \<Rightarrow> u64) \<Rightarrow> u64 \<Rightarrow> U256 option" where
  "current_block_gas_limit ratio_mul weight_per_second =
     map_option ucast (BlockGasLimit ratio_mul weight_per_second)"

section \<open>Lemmas\<close>

lemma unat_low_u64: "unat (low_u64 x) = unat x mod 2 ^ 64"
  by (simp add: low_u64_def unsigned_ucast_eq take_bit_eq_mod)

lemma length_to_big_endian [simp]: "length (to_big_endian x) = 32"
  by (simp add: to_big_endian_def)

lemma nth_to_big_endian: "i < 32 \<Longrightarrow> to_big_endian x ! i = ucast (drop_bit (8 * (31 - i)) x)"
  by (simp add: to_big_endian_def)

text \<open>The bytes determine the index, so different slots are never read as one.\<close>

lemma to_big_endian_inj: "to_big_endian x = to_big_endian y \<Longrightarrow> x = y"
proof (rule bit_word_eqI)
  fix n assume eq: "to_big_endian x = to_big_endian y" and n: "n < LENGTH(256)"
  define i where "i = 31 - n div 8"
  have i: "i < 32" "31 - i = n div 8" using n by (simp_all add: i_def)
  have bit: "bit (to_big_endian z ! i) (n mod 8) = bit z n" for z
    using n i by (simp add: nth_to_big_endian bit_ucast_iff bit_drop_bit_eq)
  show "bit x n = bit y n" using bit[of x] bit[of y] eq by simp
qed

end
