(* ===== verification/Runtime_Pallets.thy ===== *)
theory Runtime_Pallets
  imports Runtime_Api
begin

text \<open>
  The configuration of the Substrate and Frontier pallets in \<^verbatim>\<open>src/runtime/src/lib.rs\<close>, the precompiles of
  \<^verbatim>\<open>src/runtime/precompiles/src/lib.rs\<close>, and the functions of the runtime API that hand a call over to a pallet
  or to the executive. The constructors of the block limits and the multiplication of a \<open>Perbill\<close> with a weight
  are arguments; an associated type that is \<open>()\<close> has the type \<open>unit\<close>. The lemmas relate constants that
  different parts of the program define on their own: the length of a block, the limits on weight and gas.
\<close>

section \<open>Versions\<close>

record 'p RuntimeVersion =
  spec_name :: string
  impl_name :: string
  authoring_version :: u32
  spec_version :: u32
  impl_version :: u32
  apis :: 'p
  transaction_version :: u32

definition VERSION :: "'p \<Rightarrow> 'p RuntimeVersion" where
  "VERSION runtime_api_versions =
     \<lparr>spec_name = ''moonbeam'', impl_name = ''moonbeam'', authoring_version = 3, spec_version = 22,
      impl_version = 1, apis = runtime_api_versions, transaction_version = 2\<rparr>"

record 'p NativeVersion =
  runtime_version :: "'p RuntimeVersion"
  can_author_with :: "u32 set"

definition native_version :: "'p \<Rightarrow> 'p NativeVersion" where
  "native_version runtime_api_versions = \<lparr>runtime_version = VERSION runtime_api_versions, can_author_with = {}\<rparr>"

section \<open>The Substrate pallets\<close>

definition NORMAL_DISPATCH_RATIO :: perbill where
  "NORMAL_DISPATCH_RATIO = 75 * 10000000"

record ('w, 'l) limits =
  with_sensible_defaults :: "u64 \<Rightarrow> perbill \<Rightarrow> 'w"
  max_block :: "'w \<Rightarrow> u64"
  max_with_normal_ratio :: "u32 \<Rightarrow> perbill \<Rightarrow> 'l"

record ('w, 'l, 'p) system_config =
  BlockHashCount :: u32
  BlockWeights :: 'w
  BlockLength :: 'l
  Version :: "'p RuntimeVersion"
  SS58Prefix :: u8
  OnNewAccount :: unit
  OnKilledAccount :: unit
  DbWeight :: unit
  BaseCallFilter :: unit
  SystemWeightInfo :: unit

definition runtime_system_config :: "('w, 'l) limits \<Rightarrow> u64 \<Rightarrow> 'p \<Rightarrow> ('w, 'l, 'p) system_config" where
  "runtime_system_config L weight_per_second runtime_api_versions =
     \<lparr>BlockHashCount = 250,
      BlockWeights = with_sensible_defaults L (weight_per_second div 2) NORMAL_DISPATCH_RATIO,
      BlockLength = max_with_normal_ratio L (5 * 1024 * 1024) NORMAL_DISPATCH_RATIO,
      Version = VERSION runtime_api_versions, SS58Prefix = 42,
      OnNewAccount = (), OnKilledAccount = (), DbWeight = (), BaseCallFilter = (), SystemWeightInfo = ()\<rparr>"

record timestamp_config =
  OnTimestampSet :: unit
  MinimumPeriod :: u64

definition runtime_timestamp_config :: timestamp_config where
  "runtime_timestamp_config = \<lparr>OnTimestampSet = (), MinimumPeriod = MINIMUM_PERIOD\<rparr>"

record balances_config =
  MaxLocks :: u32
  DustRemoval :: unit
  ExistentialDeposit :: balance

definition runtime_balances_config :: balances_config where
  "runtime_balances_config = \<lparr>MaxLocks = 50, DustRemoval = (), ExistentialDeposit = 0\<rparr>"

text \<open>\<open>IdentityFee\<close> is the identity of the weight, seen as a balance.\<close>

record payment_config =
  TransactionByteFee :: balance
  WeightToFee :: "u64 \<Rightarrow> balance"
  FeeMultiplierUpdate :: unit

definition runtime_payment_config :: payment_config where
  "runtime_payment_config = \<lparr>TransactionByteFee = 1, WeightToFee = ucast, FeeMultiplierUpdate = ()\<rparr>"

text \<open>Who may do what: the origins that the scheduler and the democracy pallet ask for.\<close>

datatype ensure_origin = EnsureRoot | EnsureNever | EnsureSigned

record scheduler_config =
  MaximumWeight :: u64
  ScheduleOrigin :: ensure_origin
  MaxScheduledPerBlock :: unit

definition MaximumSchedulerWeight :: "(perbill \<Rightarrow> u64 \<Rightarrow> u64) \<Rightarrow> ('w, 'l) limits \<Rightarrow> u64 \<Rightarrow> u64" where
  "MaximumSchedulerWeight ratio_mul L weight_per_second =
     ratio_mul (80 * 10000000) (max_block L (BlockWeights (runtime_system_config L weight_per_second ())))"

definition runtime_scheduler_config :: "(perbill \<Rightarrow> u64 \<Rightarrow> u64) \<Rightarrow> ('w, 'l) limits \<Rightarrow> u64 \<Rightarrow> scheduler_config" where
  "runtime_scheduler_config ratio_mul L weight_per_second =
     \<lparr>MaximumWeight = MaximumSchedulerWeight ratio_mul L weight_per_second, ScheduleOrigin = EnsureRoot,
      MaxScheduledPerBlock = ()\<rparr>"

record democracy_config = democracy_periods +
  ExternalOrigin :: ensure_origin
  ExternalMajorityOrigin :: ensure_origin
  ExternalDefaultOrigin :: ensure_origin
  FastTrackOrigin :: ensure_origin
  CancellationOrigin :: ensure_origin
  BlacklistOrigin :: ensure_origin
  CancelProposalOrigin :: ensure_origin
  VetoOrigin :: ensure_origin
  Slash :: unit
  InstantOrigin :: ensure_origin
  OperationalPreimageOrigin :: ensure_origin

definition runtime_democracy_config :: democracy_config where
  "runtime_democracy_config = democracy_periods.extend runtime_democracy
     \<lparr>ExternalOrigin = EnsureRoot, ExternalMajorityOrigin = EnsureRoot, ExternalDefaultOrigin = EnsureRoot,
      FastTrackOrigin = EnsureRoot, CancellationOrigin = EnsureRoot, BlacklistOrigin = EnsureRoot,
      CancelProposalOrigin = EnsureRoot, VetoOrigin = EnsureNever, Slash = (), InstantOrigin = EnsureRoot,
      OperationalPreimageOrigin = EnsureSigned\<rparr>"

section \<open>The EVM\<close>

text \<open>\<^verbatim>\<open>src/runtime/precompiles/src/lib.rs\<close>: the tuple of precompiles, in the order in which they get their
  addresses. The three of the BN curve are commented out there.\<close>

datatype precompile = ECRecover | Sha256 | Ripemd160 | Identity | Modexp | Dispatch

definition MoonbeamPrecompiles :: "precompile list" where
  "MoonbeamPrecompiles = [ECRecover, Sha256, Ripemd160, Identity, Modexp, Dispatch]"

datatype address_origin = EnsureAddressSame | EnsureAddressNever

record evm_pallet_config =
  FeeCalculator :: unit
  gas_weight_mapping :: "(u64 \<Rightarrow> u64) \<times> (u64 \<Rightarrow> u64 option)"
  CallOrigin :: address_origin
  WithdrawOrigin :: address_origin
  AddressMapping :: "H160 \<Rightarrow> H160"
  Precompiles :: "precompile list"
  ChainId :: "info_storage \<Rightarrow> u64"

definition runtime_evm_config :: "u64 \<Rightarrow> evm_pallet_config" where
  "runtime_evm_config weight_per_second =
     \<lparr>FeeCalculator = (), gas_weight_mapping = (gas_to_weight weight_per_second, weight_to_gas weight_per_second),
      CallOrigin = EnsureAddressSame, WithdrawOrigin = EnsureAddressNever, AddressMapping = (\<lambda>a. a),
      Precompiles = MoonbeamPrecompiles, ChainId = chain_id\<rparr>"

section \<open>The runtime API\<close>

text \<open>The transaction checks of the runtime, in the order in which they run.\<close>

datatype signed_extension =
    CheckSpecVersion | CheckTxVersion | CheckGenesis | CheckEra | CheckNonce | CheckWeight | ChargeTransactionPayment

definition SignedExtra :: "signed_extension list" where
  "SignedExtra =
     [CheckSpecVersion, CheckTxVersion, CheckGenesis, CheckEra, CheckNonce, CheckWeight, ChargeTransactionPayment]"

text \<open>What the executive of Substrate and the pallets offer, over the state \<open>'s\<close> of the chain.\<close>

record ('s, 'block, 'header, 'xt, 'ares, 'idata, 'ires, 'src, 'validity) executive =
  exec_execute_block :: "'block \<Rightarrow> 's \<Rightarrow> 's option"
  exec_initialize_block :: "'header \<Rightarrow> 's \<Rightarrow> 's"
  exec_apply_extrinsic :: "'xt \<Rightarrow> 's \<Rightarrow> 'ares \<times> 's"
  exec_finalize_block :: "'s \<Rightarrow> ('header \<times> 's) option"
  data_create_extrinsics :: "'idata \<Rightarrow> 's \<Rightarrow> 'xt list"
  data_check_extrinsics :: "'idata \<Rightarrow> 'block \<Rightarrow> 's \<Rightarrow> 'ires"
  exec_validate_transaction :: "'src \<Rightarrow> 'xt \<Rightarrow> 's \<Rightarrow> 'validity"
  exec_offchain_worker :: "'header \<Rightarrow> 's \<Rightarrow> unit"
  runtime_metadata :: "u8 list"
  flip_random_seed :: "'s \<Rightarrow> u8 list"

record ('s, 'block, 'header, 'xt, 'ares, 'idata, 'ires, 'src, 'validity, 'p) node_api =
  api_version :: "'p RuntimeVersion"
  api_execute_block :: "'block \<Rightarrow> 's \<Rightarrow> 's option"
  api_initialize_block :: "'header \<Rightarrow> 's \<Rightarrow> 's"
  api_apply_extrinsic :: "'xt \<Rightarrow> 's \<Rightarrow> 'ares \<times> 's"
  api_finalize_block :: "'s \<Rightarrow> ('header \<times> 's) option"
  api_inherent_extrinsics :: "'idata \<Rightarrow> 's \<Rightarrow> 'xt list"
  api_check_inherents :: "'block \<Rightarrow> 'idata \<Rightarrow> 's \<Rightarrow> 'ires"
  api_validate_transaction :: "'src \<Rightarrow> 'xt \<Rightarrow> 's \<Rightarrow> 'validity"
  api_offchain_worker :: "'header \<Rightarrow> 's \<Rightarrow> unit"
  api_metadata :: "u8 list"
  api_random_seed :: "'s \<Rightarrow> u8 list"

definition impl_node_api ::
  "('s, 'block, 'header, 'xt, 'ares, 'idata, 'ires, 'src, 'validity) executive \<Rightarrow> 'p
     \<Rightarrow> ('s, 'block, 'header, 'xt, 'ares, 'idata, 'ires, 'src, 'validity, 'p) node_api" where
  "impl_node_api E runtime_api_versions =
     \<lparr>api_version = VERSION runtime_api_versions,
      api_execute_block = exec_execute_block E,
      api_initialize_block = exec_initialize_block E,
      api_apply_extrinsic = exec_apply_extrinsic E,
      api_finalize_block = exec_finalize_block E,
      api_inherent_extrinsics = data_create_extrinsics E,
      api_check_inherents = (\<lambda>block data. data_check_extrinsics E data block),
      api_validate_transaction = exec_validate_transaction E,
      api_offchain_worker = exec_offchain_worker E,
      api_metadata = runtime_metadata E,
      api_random_seed = flip_random_seed E\<rparr>"

text \<open>Session keys, of which the runtime has none, the nonce of an account and the fees.\<close>

record ('s, 'a, 'xt, 'info, 'fee) substrate_queries =
  decode_into_raw_public_keys :: "u8 list \<Rightarrow> (u8 list \<times> u8 list) list option"
  keys_generate :: "u8 list option \<Rightarrow> u8 list"
  system_account_nonce :: "'s \<Rightarrow> 'a \<Rightarrow> u32"
  payment_query_info :: "'s \<Rightarrow> 'xt \<Rightarrow> u32 \<Rightarrow> 'info"
  payment_query_fee_details :: "'s \<Rightarrow> 'xt \<Rightarrow> u32 \<Rightarrow> 'fee"

definition decode_session_keys :: "('s, 'a, 'xt, 'info, 'fee) substrate_queries \<Rightarrow> u8 list \<Rightarrow> (u8 list \<times> u8 list) list option" where
  "decode_session_keys Q encoded = decode_into_raw_public_keys Q encoded"

definition generate_session_keys :: "('s, 'a, 'xt, 'info, 'fee) substrate_queries \<Rightarrow> u8 list option \<Rightarrow> u8 list" where
  "generate_session_keys Q seed = keys_generate Q seed"

definition account_nonce :: "('s, 'a, 'xt, 'info, 'fee) substrate_queries \<Rightarrow> 's \<Rightarrow> 'a \<Rightarrow> u32" where
  "account_nonce Q s account = system_account_nonce Q s account"

definition query_info :: "('s, 'a, 'xt, 'info, 'fee) substrate_queries \<Rightarrow> 's \<Rightarrow> 'xt \<Rightarrow> u32 \<Rightarrow> 'info" where
  "query_info Q s uxt len = payment_query_info Q s uxt len"

definition query_fee_details :: "('s, 'a, 'xt, 'info, 'fee) substrate_queries \<Rightarrow> 's \<Rightarrow> 'xt \<Rightarrow> u32 \<Rightarrow> 'fee" where
  "query_fee_details Q s uxt len = payment_query_fee_details Q s uxt len"

record ('s, 'acc, 'block, 'receipt, 'status) ethereum_state =
  evm_account_basic :: "'s \<Rightarrow> H160 \<Rightarrow> 'acc"
  min_gas_price :: "'s \<Rightarrow> U256"
  evm_account_codes :: "'s \<Rightarrow> H160 \<Rightarrow> u8 list"
  ethereum_find_author :: "'s \<Rightarrow> H160"
  ethereum_current_block :: "'s \<Rightarrow> 'block option"
  ethereum_current_receipts :: "'s \<Rightarrow> 'receipt list option"
  ethereum_transaction_statuses :: "'s \<Rightarrow> 'status list option"

definition account_basic :: "('s, 'acc, 'block, 'receipt, 'status) ethereum_state \<Rightarrow> 's \<Rightarrow> H160 \<Rightarrow> 'acc" where
  "account_basic E s address = evm_account_basic E s address"

definition gas_price :: "('s, 'acc, 'block, 'receipt, 'status) ethereum_state \<Rightarrow> 's \<Rightarrow> U256" where
  "gas_price E s = min_gas_price E s"

definition account_code_at :: "('s, 'acc, 'block, 'receipt, 'status) ethereum_state \<Rightarrow> 's \<Rightarrow> H160 \<Rightarrow> u8 list" where
  "account_code_at E s address = evm_account_codes E s address"

definition api_author :: "('s, 'acc, 'block, 'receipt, 'status) ethereum_state \<Rightarrow> 's \<Rightarrow> H160" where
  "api_author E s = ethereum_find_author E s"

definition current_all ::
  "('s, 'acc, 'block, 'receipt, 'status) ethereum_state \<Rightarrow> 's
     \<Rightarrow> 'block option \<times> 'receipt list option \<times> 'status list option" where
  "current_all E s = (ethereum_current_block E s, ethereum_current_receipts E s, ethereum_transaction_statuses E s)"

section \<open>Constants that have to agree\<close>

text \<open>\<open>Perbill\<close> times a weight is rounded to the nearest whole number, as for balances.\<close>

definition ratio_mul_law :: "(perbill \<Rightarrow> u64 \<Rightarrow> u64) \<Rightarrow> bool" where
  "ratio_mul_law mul \<longleftrightarrow>
     (\<forall>p x. unat p \<le> billion \<longrightarrow>
        2 * billion * unat (mul p x) \<le> 2 * (unat p * unat x) + billion \<and>
        2 * (unat p * unat x) \<le> 2 * billion * unat (mul p x) + billion)"

lemma ratio_mul_exact:
  assumes "ratio_mul_law mul" "unat p \<le> billion" "unat p * unat x = billion * n"
  shows "unat (mul p x) = n"
proof -
  have "2 * billion * unat (mul p x) \<le> 2 * (unat p * unat x) + billion"
    "2 * (unat p * unat x) \<le> 2 * billion * unat (mul p x) + billion"
    using assms(1,2) unfolding ratio_mul_law_def by blast+
  then show ?thesis unfolding assms(3) by linarith
qed

text \<open>With the weight of a second that Substrate documents, a block has room for 15 million gas, as the comment
  on \<open>GAS_PER_SECOND\<close> says, and exactly this gas fills the part of the block that is for transactions.\<close>

lemma block_gas_limit_value:
  assumes "ratio_mul_law mul"
  shows "BlockGasLimit mul 1000000000000 = Some 15000000"
    "unat (gas_to_weight 1000000000000 15000000) = unat (mul NORMAL_DISPATCH_RATIO (MAXIMUM_BLOCK_WEIGHT 1000000000000))"
proof -
  have "unat (mul 750000000 (500000000000 :: u64)) = 375000000000"
    by (rule ratio_mul_exact[OF assms]) simp_all
  then have mul: "mul 750000000 (500000000000 :: u64) = 375000000000" by (simp add: word_unat_eq_iff)
  show "BlockGasLimit mul 1000000000000 = Some 15000000"
    by (simp add: BlockGasLimit_def WEIGHT_PER_GAS_def GAS_PER_SECOND_def MAXIMUM_BLOCK_WEIGHT_def mul)
  show "unat (gas_to_weight 1000000000000 15000000) = unat (mul NORMAL_DISPATCH_RATIO (MAXIMUM_BLOCK_WEIGHT 1000000000000))"
    by (simp add: gas_to_weight_def saturating_mul_def WEIGHT_PER_GAS_def GAS_PER_SECOND_def MAXIMUM_BLOCK_WEIGHT_def
        NORMAL_DISPATCH_RATIO_def mul)
qed

text \<open>The slot of twice the minimal period, the block time of the inflation module and the blocks of a day agree,
  and a round of the stake pallet is an hour.\<close>

lemma block_time_agrees:
  "2 * unat (MinimumPeriod runtime_timestamp_config) = 1000 * unat SECONDS_PER_BLOCK"
  "unat BLOCKS_PER_DAY * unat SECONDS_PER_BLOCK = 24 * 60 * 60"
  "unat (BlocksPerRound (runtime_stake_config chk root mk cur P skey srt)) * unat SECONDS_PER_BLOCK = 60 * 60"
  "VotingPeriod runtime_democracy_config = 5 * BLOCKS_PER_DAY"
  by (simp_all add: runtime_timestamp_config_def MINIMUM_PERIOD_def SECONDS_PER_BLOCK_def BLOCKS_PER_DAY_def
      runtime_stake_config_def runtime_democracy_config_def runtime_democracy_def democracy_periods.defs)

end
