(* ===== verification/Runtime_Properties.thy ===== *)
theory Runtime_Properties
  imports Stake_Example Author_Filter Node_Genesis Runtime_Pallets
begin

text \<open>
  Properties of the runtime that span its pallets: the inflation schedule and the genesis of the
  generated chain specifications under the stake configuration of the runtime, authoring of blocks
  through the author inherent with the author filter and the stake pallet, and the conversion between
  gas and weight.
\<close>

section \<open>Configuration and genesis\<close>

text \<open>C32: the rates per round that the chain specification hard-codes are the conversion of annual rates
  of four, five and five percent for the length of a round that the runtime configures, and both ranges
  of the inflation configuration are valid.\<close>

theorem genesis_inflation_is_annual:
  assumes "from_parts_law P" "from_percent 4 = 40000000" "from_percent 5 = 50000000"
  shows "annual_to_round P (BlocksPerRound (runtime_stake_config chk root mk cur P skey srt))
      \<lparr>r_min = from_percent 4, r_ideal = from_percent 5, r_max = from_percent 5\<rparr>
    = Some (round_rates (moonbeam_inflation_config P from_percent)) \<and>
    is_valid (round_rates (moonbeam_inflation_config P from_percent)) \<and>
    is_valid (expect (moonbeam_inflation_config P from_percent))"
proof -
  have "from_parts P (40000000 div 8766) = 40000000 div 8766" "from_parts P (50000000 div 8766) = 50000000 div 8766"
    using assms(1) by (auto simp: from_parts_law_def)
  then show ?thesis
    by (simp add: assms(2,3) annual_to_round_def rounds_per_year_def checked_div_def blocks_per_year
        runtime_stake_config_def moonbeam_inflation_config_def is_valid_def GLMR_def)
qed

theorem genesis_inflation_is_annual_witness:
  "is_valid (round_rates (moonbeam_inflation_config mock_perbill (\<lambda>p. p * 10000000)))"
  by (rule genesis_inflation_is_annual[OF mock_perbill_laws(2), THEN conjunct2, THEN conjunct1]) simp_all

text \<open>The genesis of the development specification.\<close>

lemma development_genesis_build:
  assumes "T = runtime_stake_config chk root mk cur P skey srt" "chk (mk gerald) = Inr gerald" "sort_law T"
    and "balances_genesis_law cur balances_build"
    and "spec_genesis (development_chain_spec wasm P from_percent) = Some g"
  shows "\<exists>s. build_stake_genesis T balances_build g = Some s \<and> Validators s = [gerald] \<and> can_author s gerald \<and>
    Candidates s = [gerald \<mapsto> new_validator gerald 0 (1000 * GLMR)] \<and> Nominators s = Map.empty \<and>
    Total s = 1000 * GLMR \<and> Round s = 1 \<and>
    api_chain_id (build_info_genesis g) = 1281 \<and> parachain_id (build_info_genesis g) = 0"
proof -
  let ?bs = "[(gerald, push_bit 80 1 :: balance)]"
  have g: "gen_stakers g = [(gerald, None, 1000 * GLMR)]" "gen_balances g = ?bs" "gen_chain_id g = 1281"
    "gen_parachain_id g = 0"
    using assms(5) by (auto simp: development_chain_spec_def testnet_genesis_def split: option.splits)
  have le: "1000 * GLMR \<le> push_bit 80 1" by (simp add: GLMR_def push_bit_eq_mult)
  have free: "free_balance cur (balances_build ?bs) gerald = push_bit 80 1"
    by (rule balances_genesisD(1)[OF assms(4)]) simp_all
  have "\<exists>c. reserve cur (balances_build ?bs) gerald (1000 * GLMR) = Inr c"
    by (rule balances_genesisD(2)[OF assms(4) _ _ le]) simp_all
  then obtain c where c: "reserve cur (balances_build ?bs) gerald (1000 * GLMR) = Inr c" by blast
  have T: "ensure_signed T (signed_origin T gerald) = Inr gerald" "MinValidatorStk T \<le> 1000 * GLMR"
    "Currency T = cur" "0 < MaxValidators T"
    using assms(1,2) by (simp_all add: runtime_stake_config_def)
  obtain s where s: "genesis_build T [(gerald, None, 1000 * GLMR)] (initial_storage (gen_inflation g) (balances_build ?bs)) = Some s"
    "Validators s = [gerald]" "Candidates s = [gerald \<mapsto> new_validator gerald 0 (1000 * GLMR)]"
    "Nominators s = Map.empty" "Total s = 1000 * GLMR" "Round s = 1"
    using genesis_single_staker[OF assms(3) T(1,2) _ _ T(4), of "balances_build ?bs" c "gen_inflation g"] le free c
    by (auto simp: T(3))
  moreover have "can_author s gerald" using is_validator_iff[of s gerald] s(2) by (simp add: can_author_def)
  ultimately show ?thesis
    by (auto simp: build_stake_genesis_def g build_info_genesis_def api_chain_id_def chain_id_def chain_id_build_def
        parachain_id_def parachain_info_build_def)
qed

definition endow :: "(address20 \<times> balance) list \<Rightarrow> address20 ledger" where
  "endow bs = \<lparr>free_of = (\<lambda>a. case map_of bs a of None \<Rightarrow> 0 | Some x \<Rightarrow> x), reserved_of = (\<lambda>_. 0),
     issued = sum_list (map snd bs)\<rparr>"

lemma endow_law: "balances_genesis_law mock_currency endow"
  by (auto simp: balances_genesis_law_def mock_currency_def endow_def ledger_reserve_def)

section \<open>Authoring\<close>

text \<open>C13: a block whose author inherent executes under the configuration of the runtime has an author
  that is a validator of the round; the inherent also passes the check before execution, the author is
  credited with 20 points in the stake pallet and found by the Ethereum pallet, the end of the block
  finds an author, and a second inherent in the same block is refused.\<close>

theorem executed_author_is_validator:
  assumes "T = runtime_author_config none enc dec F" "checks_ready F rt"
    and "set_author T origin a (s, rt) = Some (Inr (), (s', rt'))"
  shows "a \<in> set (Validators (StakeStorage rt)) \<and> check_inherent T (SetAuthor a) rt = Some (Inr ()) \<and>
    awarded_pts (StakeStorage rt') (Round (StakeStorage rt)) a = awarded_pts (StakeStorage rt) (Round (StakeStorage rt)) a + 20 \<and>
    find_author s' = Some a \<and> author_on_finalize s' = Some s' \<and>
    set_author T origin b (s', rt') = Some (Inl (AuthorPallet AuthorAlreadySet), (s', rt'))"
proof -
  have T: "PreliminaryCanAuthor T = stake_check" "FinalCanAuthor T = filter_check F"
    "EventHandler T = (\<lambda>a rt. rt\<lparr>StakeStorage := note_author a (StakeStorage rt)\<rparr>)"
    by (simp_all add: assms(1) runtime_author_config_def)
  have check: "check_inherent T (SetAuthor a) rt = Some (Inr ())"
    by (rule runtime_checks.executed_inherent_checked[OF T(1,2) assms(2,3)])
  from assms(3) show ?thesis
  proof (cases rule: set_author_cases)
    case success
    have "stake_check rt a = Some True" using filter_stricter[OF assms(2)] success(4) T(2) by simp
    then have "a \<in> set (Validators (StakeStorage rt))" using stake_check_iff[OF assms(2)] by simp
    moreover have "rt' = rt\<lparr>StakeStorage := note_author a (StakeStorage rt)\<rparr>" using success(7) T(3) by simp
    ultimately show ?thesis
      using check success(2,5) note_author_points(1)[of a "StakeStorage rt"]
      by (simp add: find_author_def author_on_finalize_def set_author_def)
  qed simp
qed

definition demo_filter :: "(nat option, nat) filter_config" where
  "demo_filter = \<lparr>ensure_root = (\<lambda>_. Inr ()), random = (\<lambda>_. 0), to_low_u64_be = of_nat,
     mul_ceil = (\<lambda>p n. (unat p * n + 99) div 100)\<rparr>"

lemma demo_filter_law: "mul_ceil_law demo_filter"
  unfolding mul_ceil_law_def demo_filter_def by (auto; linarith)

definition demo_runtime :: "(nat ledger, nat) authoring_storage" where
  "demo_runtime = \<lparr>StakeStorage = demo, FilterStorage = \<lparr>EligibleRatio = 50, FilterEvents = []\<rparr>, RelayHeight = Some 7\<rparr>"

theorem executed_author_is_validator_witness:
  "\<exists>s' rt'. set_author (runtime_author_config (\<lambda>_ :: nat option. Inr ()) (\<lambda>_. []) (\<lambda>_. None) demo_filter) None 2
     (\<lparr>Author = None, DigestLogs = []\<rparr>, demo_runtime) = Some (Inr (), (s', rt')) \<and> awarded_pts (StakeStorage rt') 1 2 = 20"
proof -
  let ?T = "runtime_author_config (\<lambda>_ :: nat option. Inr ()) (\<lambda>_. []) (\<lambda>_. None) demo_filter"
  have ready: "checks_ready demo_filter demo_runtime"
    using demo_filter_law by (simp add: checks_ready_def demo_runtime_def demo_def)
  have "filter_check demo_filter demo_runtime 2 = Some True"
    by (simp add: filter_check_def demo_runtime_def demo_def filter_can_author_def demo_filter_def draw_index_def)
  then obtain s' rt' where run: "set_author ?T None 2 (\<lparr>Author = None, DigestLogs = []\<rparr>, demo_runtime) = Some (Inr (), (s', rt'))"
    by (simp add: set_author_def runtime_author_config_def)
  from executed_author_is_validator[OF refl ready run] run show ?thesis
    by (auto simp: demo_runtime_def demo_def awarded_pts_def)
qed

text \<open>C14: the author filter never panics once the validation data is set. At a given height it accepts
  exactly the members of a list drawn from the validators without repetition, as many as the eligible
  ratio of the validators rounded up; so someone can author whenever the ratio is not zero and there
  is a validator, and nobody can when the ratio is zero.\<close>

theorem filter_draws_eligible:
  assumes "mul_ceil_law F" "unat ratio \<le> 100"
  shows "\<exists>drawn. (\<forall>a. filter_can_author F ratio (Some h) staked a = Some (a \<in> set drawn)) \<and>
    length drawn = mul_ceil F ratio (length staked) \<and> mset drawn \<subseteq># mset staked \<and>
    (ratio \<noteq> 0 \<and> staked \<noteq> [] \<longrightarrow> drawn \<noteq> []) \<and> (ratio = 0 \<longrightarrow> drawn = [])"
proof -
  obtain drawn out where d: "\<And>a. filter_can_author F ratio (Some h) staked a = Some (a \<in> set drawn)"
    "length drawn = mul_ceil F ratio (length staked)" "mset drawn + mset out = mset staked"
    using filter_can_author_run[OF assms] by metis
  have ceil: "unat ratio * length staked \<le> 100 * length drawn" "100 * length drawn < unat ratio * length staked + 100"
    using assms d(2) by (simp_all add: mul_ceil_law_def)
  have "drawn \<noteq> []" if "ratio \<noteq> 0" "staked \<noteq> []"
    using ceil(1) that by (auto simp: unat_eq_0)
  moreover have "drawn = []" if "ratio = 0" using ceil(2) that by auto
  moreover have "mset drawn \<subseteq># mset staked" using d(3) mset_subset_eq_add_left by metis
  ultimately show ?thesis using d(1,2) by blast
qed

theorem filter_draws_eligible_witness:
  "\<exists>a. filter_can_author demo_filter 50 (Some 7) (Validators demo) a = Some True"
proof -
  obtain drawn where d: "\<forall>a. filter_can_author demo_filter 50 (Some 7) (Validators demo) a = Some (a \<in> set drawn)"
    "Validators demo \<noteq> [] \<longrightarrow> drawn \<noteq> []"
    using filter_draws_eligible[OF demo_filter_law, of 50 7 "Validators demo"] by auto
  have "Validators demo \<noteq> []" by (simp add: demo_def)
  with d(2) obtain a where "a \<in> set drawn" by (cases drawn) auto
  with d(1) show ?thesis by auto
qed

text \<open>The author that a node puts into the inherent data is the author in the inherent that the
  runtime creates from them, and the inherent is required in every block.\<close>

lemma author_inherent_roundtrip:
  assumes "inherent_data_law D" "decode_account T (encode_account T a) = Some a"
    and "provide_inherent_data D (encode_account T a) d = Inr d'"
  shows "create_inherent T D d' = Some (Some (SetAuthor a)) \<and> is_inherent_required d' \<noteq> None"
  using assms by (auto simp: provide_inherent_data_def inherent_data_law_def create_inherent_def is_inherent_required_def)

section \<open>Gas and weight\<close>

text \<open>C39: converting gas to weight and back gives the gas again unless the weight saturates, and never
  more than the gas; the weight is the product up to saturation.\<close>

theorem gas_weight_roundtrip:
  assumes "WEIGHT_PER_GAS wps \<noteq> 0"
  shows "\<exists>g. weight_to_gas wps (gas_to_weight wps gas) = Some g \<and> g \<le> gas \<and>
    (unat gas * unat (WEIGHT_PER_GAS wps) < 2 ^ 64 \<longrightarrow> g = gas) \<and>
    unat (gas_to_weight wps gas) = min (unat gas * unat (WEIGHT_PER_GAS wps)) (2 ^ 64 - 1)"
proof -
  let ?w = "unat (WEIGHT_PER_GAS wps)" and ?g = "gas_to_weight wps gas div WEIGHT_PER_GAS wps"
  have w: "0 < ?w" using assms by (simp add: unat_gt_0)
  have weight: "unat (gas_to_weight wps gas) = min (unat gas * ?w) (2 ^ 64 - 1)"
    by (simp add: gas_to_weight_def unat_saturating_mul)
  then have g: "unat ?g = min (unat gas * ?w) (2 ^ 64 - 1) div ?w" by (simp add: unat_div)
  also have "\<dots> \<le> unat gas * ?w div ?w" by (intro div_le_mono) simp
  finally have "?g \<le> gas" using w by (simp add: word_le_nat_alt)
  moreover have "?g = gas" if "unat gas * ?w < 2 ^ 64"
  proof -
    have "min (unat gas * ?w) (2 ^ 64 - 1) = unat gas * ?w" using that by simp
    with g w show ?thesis by (simp add: word_unat_eq_iff)
  qed
  ultimately show ?thesis using assms weight by (auto simp: weight_to_gas_def)
qed

theorem gas_weight_roundtrip_witness: "weight_to_gas 1000000000000 (gas_to_weight 1000000000000 21000) = Some 21000"
proof -
  have "WEIGHT_PER_GAS 1000000000000 = 25000" by (simp add: WEIGHT_PER_GAS_def GAS_PER_SECOND_def)
  with gas_weight_roundtrip[of 1000000000000 21000] show ?thesis by simp
qed

end
