(* ===== verification/Chain_Example.thy ===== *)
theory Chain_Example
  imports Chain_Execution Runtime_Properties
begin

text \<open>
  Concrete chains on which the properties of the chain are instantiated: one with a single validator that leaves in
  the first block, and the runtime on Ethereum accounts with the development genesis.
\<close>

section \<open>A concrete chain\<close>

definition solo_config :: "(nat option, nat ledger, nat) config" where
  "solo_config = runtime_stake_config (\<lambda>origin. case origin of None \<Rightarrow> Inl (OtherError ''BadOrigin'') | Some a \<Rightarrow> Inr a)
     (\<lambda>_. Inr ()) Some mock_currency mock_perbill (\<lambda>a. a) (sort_key amount)"

definition solo_runtime :: "(nat option, nat, nat ledger, nat) runtime" where
  "solo_runtime = \<lparr>StakeConfig = solo_config, FilterConfig = demo_filter,
     AuthorConfig = runtime_author_config (\<lambda>_. Inr ()) (\<lambda>_. []) (\<lambda>_. None) demo_filter, none_origin = None\<rparr>"

definition solo_ledger :: "nat ledger" where
  "solo_ledger = \<lparr>free_of = (\<lambda>_. 0)(2 := 5000 * GLMR), reserved_of = (\<lambda>_. 0), issued = 5000 * GLMR\<rparr>"

definition solo_genesis :: "(nat ledger, nat) storage" where
  "solo_genesis = the (genesis_build solo_config [(2, None, 1000 * GLMR)] (initial_storage mock_inflation solo_ledger))"

definition solo_start :: "nat \<times> (nat ledger, nat) runtime_state" where
  "solo_start = (0, \<lparr>Author = None, DigestLogs = []\<rparr>,
     \<lparr>StakeStorage = solo_genesis, FilterStorage = \<lparr>EligibleRatio = Half, FilterEvents = []\<rparr>, RelayHeight = None\<rparr>)"

lemma solo_ok: "runtime_ok solo_runtime"
  unfolding runtime_ok_def
proof (intro conjI exI)
  show "StakeConfig solo_runtime = runtime_stake_config
     (\<lambda>origin. case origin of None \<Rightarrow> Inl (OtherError ''BadOrigin'') | Some a \<Rightarrow> Inr a)
     (\<lambda>_. Inr ()) Some mock_currency mock_perbill (\<lambda>a. a) (sort_key amount)"
    by (simp add: solo_runtime_def solo_config_def)
  show "sort_law (StakeConfig solo_runtime)"
    by (simp add: sort_law_def solo_runtime_def solo_config_def runtime_stake_config_def)
  show "AuthorConfig solo_runtime = runtime_author_config (\<lambda>_. Inr ()) (\<lambda>_. []) (\<lambda>_. None) (FilterConfig solo_runtime)"
    by (simp add: solo_runtime_def)
qed (use mock_perbill_laws(1) demo_filter_law in
    \<open>simp_all add: mock_currency_laws solo_runtime_def runtime_author_config_def\<close>)

lemma solo_build:
  "genesis_build solo_config [(2, None, 1000 * GLMR)] (initial_storage mock_inflation solo_ledger) = Some solo_genesis"
  "Validators solo_genesis = [2]"
  "Ledger solo_genesis = solo_ledger\<lparr>free_of := (\<lambda>_. 0)(2 := 4000 * GLMR), reserved_of := (\<lambda>_. 0)(2 := 1000 * GLMR)\<rparr>"
  "Candidates solo_genesis = [2 \<mapsto> new_validator 2 0 (1000 * GLMR)]" "ExitQueue solo_genesis = []"
  "Round solo_genesis = 1"
proof -
  let ?l = "solo_ledger\<lparr>free_of := (\<lambda>_. 0)(2 := 4000 * GLMR), reserved_of := (\<lambda>_. 0)(2 := 1000 * GLMR)\<rparr>"
  have "reserve (Currency solo_config) solo_ledger 2 (1000 * GLMR) = Inr ?l"
    by (simp add: solo_config_def runtime_stake_config_def mock_currency_def ledger_reserve_def solo_ledger_def GLMR_def)
  moreover have "sort_law solo_config" "ensure_signed solo_config (signed_origin solo_config 2) = Inr 2"
    "MinValidatorStk solo_config \<le> 1000 * GLMR" "1000 * GLMR \<le> free_balance (Currency solo_config) solo_ledger 2"
    "0 < MaxValidators solo_config"
    by (simp_all add: sort_law_def solo_config_def runtime_stake_config_def mock_currency_def solo_ledger_def GLMR_def)
  ultimately obtain s where
    "genesis_build solo_config [(2, None, 1000 * GLMR)] (initial_storage mock_inflation solo_ledger) = Some s"
    "Validators s = [2]" "Ledger s = ?l" "Candidates s = [2 \<mapsto> new_validator 2 0 (1000 * GLMR)]"
    "ExitQueue s = []" "Round s = 1"
    by (metis genesis_single_staker)
  then show "genesis_build solo_config [(2, None, 1000 * GLMR)] (initial_storage mock_inflation solo_ledger) = Some solo_genesis"
    "Validators solo_genesis = [2]" "Ledger solo_genesis = ?l"
    "Candidates solo_genesis = [2 \<mapsto> new_validator 2 0 (1000 * GLMR)]" "ExitQueue solo_genesis = []"
    "Round solo_genesis = 1"
    by (simp_all add: solo_genesis_def)
qed

lemma issuance_bound_single:
  assumes "reserved_of l = (\<lambda>_. 0)(a := x)" "x \<le> issued l"
  shows "issuance_bound mock_currency l"
proof -
  have "(\<Sum>b\<in>A. unat (((\<lambda>_. 0)(a := x) :: _ \<Rightarrow> balance) b)) \<le> unat (issued l)" if "finite A" for A
  proof -
    have "(\<Sum>b\<in>A. unat (((\<lambda>_. 0)(a := x) :: _ \<Rightarrow> balance) b)) = (\<Sum>b\<in>A. if b = a then unat x else 0)"
      by (rule sum.cong) auto
    also have "\<dots> \<le> unat x" using that by simp
    also have "\<dots> \<le> unat (issued l)" using assms(2) by (simp add: word_le_nat_alt)
    finally show ?thesis .
  qed
  then show ?thesis by (simp add: issuance_bound_def mock_currency_def assms(1))
qed

lemma solo_bound: "Ledger s = Ledger solo_genesis \<Longrightarrow> issuance_bound (Currency solo_config) (Ledger s)"
  using issuance_bound_single[of "Ledger s" 2 "1000 * GLMR"]
  by (simp add: solo_build(3) solo_config_def runtime_stake_config_def solo_ledger_def GLMR_def)

lemma solo_chain: "chain_genesis solo_runtime solo_start"
proof -
  have "stake_genesis solo_config (\<lambda>_. 0) solo_genesis"
    unfolding stake_genesis_def
  proof (intro exI conjI allI)
    show "genesis_build solo_config [(2, None, 1000 * GLMR)] (initial_storage mock_inflation solo_ledger) = Some solo_genesis"
      by (rule solo_build(1))
  qed (simp add: solo_config_def runtime_stake_config_def mock_currency_def solo_ledger_def)
  then show ?thesis using solo_bound[of solo_genesis]
    by (simp add: chain_genesis_def solo_start_def solo_runtime_def)
qed

text \<open>The first block, in which the only validator leaves.\<close>

definition solo_block :: "(nat option, nat ledger, nat) extrinsic list" where
  "solo_block = block_inherents solo_runtime 7 2 @ [StakeCall (Some 2) LeaveCandidates]"

lemma solo_eligible: "filter_can_author demo_filter Half (Some h) (Validators solo_genesis) 2 = Some True"
  by (simp add: solo_build(2) filter_can_author_def demo_filter_def draw_index_def Half_def)

lemma solo_leave:
  obtains s' where "leave_candidates solo_config (Some 2) (note_author 2 solo_genesis) = ok s'"
    "Ledger s' = Ledger solo_genesis" "map_option v_state (Candidates s' 2) = Some (Leaving 3)"
proof -
  obtain removed pool where pool: "set_remove bond_cmp (from_owner 2) (CandidatePool solo_genesis) = (removed, pool)"
    by (rule prod.exhaust)
  show thesis
    using that pool solo_build(4-6)
    by (cases removed) (auto simp: leave_candidates_def note_author_def solo_config_def runtime_stake_config_def
        set_insert_def binary_search_def binary_search_by_def is_leaving_def new_validator_def set_leaving_def)
qed

lemma solo_first_block:
  obtains as rt where "execute_block solo_runtime (\<lambda>_. None) 1 solo_block (snd solo_start) = Some (as, rt)"
    "Ledger (StakeStorage rt) = Ledger solo_genesis"
    "map_option v_state (Candidates (StakeStorage rt) 2) = Some (Leaving 3)"
proof -
  obtain s' where s': "leave_candidates solo_config (Some 2) (note_author 2 solo_genesis) = ok s'"
    "Ledger s' = Ledger solo_genesis" "map_option v_state (Candidates s' 2) = Some (Leaving 3)"
    by (rule solo_leave)
  have "on_finalize solo_config 1 s' = Some s'"
    by (simp add: on_finalize_def solo_config_def runtime_stake_config_def)
  then show thesis
    using that s' solo_eligible[of 7]
    by (simp add: execute_block_def solo_block_def block_inherents_order solo_start_def initialize_block_def
        solo_runtime_def runtime_author_config_def set_author_def author_on_initialize_def filter_check_def
        finalize_block_def author_on_finalize_def)
qed

lemma solo_block_ok: "extrinsics_ok solo_runtime solo_block st"
  by (auto simp: solo_block_def block_inherents_order split: option.split)

lemma solo_step:
  obtains as rt where "(chain_step solo_runtime (\<lambda>_. None))\<^sup>*\<^sup>* solo_start (1, as, rt)"
    "map_option v_state (Candidates (StakeStorage rt) 2) = Some (Leaving 3)"
proof -
  obtain as rt where run: "execute_block solo_runtime (\<lambda>_. None) 1 solo_block (snd solo_start) = Some (as, rt)"
    "Ledger (StakeStorage rt) = Ledger solo_genesis" "map_option v_state (Candidates (StakeStorage rt) 2) = Some (Leaving 3)"
    by (rule solo_first_block)
  have "issuance_bound (Currency (StakeConfig solo_runtime)) (Ledger (StakeStorage rt))"
    using solo_bound[OF run(2)] by (simp add: solo_runtime_def)
  then have "chain_step solo_runtime (\<lambda>_. None) (0, snd solo_start) (Suc 0, as, rt)"
    using run(1) solo_block_ok by (intro block[where xs = solo_block]) simp_all
  moreover have "(0, snd solo_start) = solo_start" by (simp add: solo_start_def)
  ultimately show thesis using that run(3) by (metis One_nat_def r_into_rtranclp)
qed

section \<open>The development runtime\<close>

text \<open>The runtime on Ethereum accounts, for the development genesis.\<close>

definition dev_filter :: "(address20, nat) filter_config" where
  "dev_filter = \<lparr>ensure_root = (\<lambda>_. Inr ()), random = (\<lambda>_. 0), to_low_u64_be = of_nat,
     mul_ceil = (\<lambda>p n. (unat p * n + 99) div 100)\<rparr>"

definition dev_config :: "(address20, address20 ledger, address20) config" where
  "dev_config = runtime_stake_config Inr (\<lambda>_. Inr ()) (\<lambda>a. a) mock_currency mock_perbill (\<lambda>_. 0) (sort_key amount)"

definition dev_runtime :: "(address20, nat, address20 ledger, address20) runtime" where
  "dev_runtime = \<lparr>StakeConfig = dev_config, FilterConfig = dev_filter,
     AuthorConfig = runtime_author_config (\<lambda>_. Inr ()) (\<lambda>a. [ucast a]) (\<lambda>_. Some gerald) dev_filter, none_origin = 0\<rparr>"

lemma dev_ok: "runtime_ok dev_runtime"
proof -
  have "sort_law dev_config" by (simp add: sort_law_def dev_config_def runtime_stake_config_def)
  moreover have "mul_ceil_law dev_filter" unfolding mul_ceil_law_def dev_filter_def by (auto; linarith)
  moreover have "ensure_none (AuthorConfig dev_runtime) (none_origin dev_runtime) = Inr ()"
    by (simp add: dev_runtime_def runtime_author_config_def)
  ultimately show ?thesis
    using mock_currency_laws mock_perbill_laws(1) unfolding runtime_ok_def
    by (intro conjI exI[of _ "\<lambda>_. Inr ()"] exI) (auto simp: dev_runtime_def dev_config_def)
qed

lemma dev_bound:
  assumes "spec_genesis (development_chain_spec wasm P from_percent) = Some g"
    and "build_stake_genesis dev_config endow g = Some s"
  shows "issuance_bound mock_currency (Ledger s)"
proof -
  let ?c = "endow [(gerald, push_bit 80 1)]"
  let ?l = "?c\<lparr>free_of := (free_of ?c)(gerald := free_of ?c gerald - 1000 * GLMR),
      reserved_of := (reserved_of ?c)(gerald := reserved_of ?c gerald + 1000 * GLMR)\<rparr>"
  have g: "gen_stakers g = [(gerald, None, 1000 * GLMR)]" "gen_balances g = [(gerald, push_bit 80 1)]"
    using assms(1) by (auto simp: development_chain_spec_def testnet_genesis_def split: option.splits)
  have "sort_law dev_config" "reserve (Currency dev_config) ?c gerald (1000 * GLMR) = Inr ?l"
    "1000 * GLMR \<le> free_balance (Currency dev_config) ?c gerald"
    "ensure_signed dev_config (signed_origin dev_config gerald) = Inr gerald" "MinValidatorStk dev_config \<le> 1000 * GLMR"
    "0 < MaxValidators dev_config"
    by (simp_all add: dev_config_def runtime_stake_config_def sort_law_def mock_currency_def ledger_reserve_def endow_def
        GLMR_def push_bit_eq_mult)
  then have "Ledger s = ?l"
    using genesis_single_staker[of dev_config gerald "1000 * GLMR" ?c ?l "gen_inflation g"] assms(2)
    by (metis build_stake_genesis_def g option.inject)
  then show ?thesis using issuance_bound_single[of ?l gerald "1000 * GLMR"]
    by (simp add: endow_def GLMR_def push_bit_eq_mult)
qed

lemma dev_chain:
  obtains s where "chain_genesis dev_runtime (0, genesis_state s)" "Validators s = [gerald]"
proof -
  obtain g where g: "spec_genesis (development_chain_spec (Some []) mock_perbill (\<lambda>p. p * 10000000)) = Some g"
    by (simp add: development_chain_spec_def testnet_genesis_def)
  have dev: "StakeConfig dev_runtime = dev_config" "Currency dev_config = mock_currency" "sort_law dev_config"
    by (simp_all add: dev_runtime_def dev_config_def runtime_stake_config_def sort_law_def)
  obtain s where s: "build_stake_genesis dev_config endow g = Some s" "Validators s = [gerald]"
    using development_genesis_build[OF dev_config_def _ dev(3) endow_law g] by blast
  from build_stake_genesis_chain[of dev_runtime, unfolded dev, OF s(1) endow_law dev_bound[OF g s(1)]] s(2) that
  show thesis by blast
qed

end
