(* ===== verification/Chain_Properties.thy ===== *)
theory Chain_Properties
  imports Chain_Example
begin

text \<open>
  Properties of chains of blocks, from the genesis of the runtime on: when a block executes and a chain can go on,
  the start of the development chain, which points and rounds the storage holds at a given height, when candidates
  exit, how much a block mints and that no total wraps around.
\<close>

section \<open>Execution\<close>




section \<open>Books, exits and payouts\<close>

text \<open>C8: on every chain of the runtime the round is one more than the number of full periods of 600 blocks;
  the points of every finished round are 12000, 20 for every block, those of the current round 20 for each of its
  blocks so far, and later rounds have none; the points of the authors are those of the round, every author
  listed once, and those of rounds that have been paid are gone.\<close>

theorem chain_books:
  assumes "runtime_ok R" "chain_genesis R c0" "(chain_step R relay_init)\<^sup>*\<^sup>* c0 (n, as, rt)"
  shows "unat (Round (StakeStorage rt)) = n div 600 + 1 \<and>
    (\<forall>r. unat (Points (StakeStorage rt) r) =
      (if r = 0 \<or> n div 600 + 1 < unat r then 0 else if unat r \<le> n div 600 then 12000 else 20 * (n mod 600))) \<and>
    (\<forall>r. if unat r < n div 600 \<or> n div 600 + 1 < unat r \<or> r = 0 then AwardedPts (StakeStorage rt) r = []
      else distinct (map fst (AwardedPts (StakeStorage rt) r)) \<and>
        sum_list (map (unat \<circ> snd) (AwardedPts (StakeStorage rt) r)) = unat (Points (StakeStorage rt) r))"
proof -
  let ?T = "StakeConfig R" and ?q = "n div 600"
  have b: "books ?T ?q (n mod 600) (StakeStorage rt)" using chain.reachable_inv[OF assms(2,3)] assms(1) by simp
  have paid: "unat r + unat (BondDuration ?T) \<le> Suc ?q \<longleftrightarrow> unat r < ?q" for r
    using runtime_okD(5)[OF assms(1)] by auto
  have awards: "if unat r < ?q \<or> ?q + 1 < unat r \<or> r = 0 then AwardedPts (StakeStorage rt) r = []
      else distinct (map fst (AwardedPts (StakeStorage rt) r)) \<and>
        sum_list (map (unat \<circ> snd) (AwardedPts (StakeStorage rt) r)) = unat (Points (StakeStorage rt) r)" for r
    using booksD(3)[OF b, of r] by (auto simp: awards_ok_def paid split: if_split_asm)
  have "unat (Points (StakeStorage rt) r) =
      (if r = 0 \<or> ?q + 1 < unat r then 0 else if unat r \<le> ?q then 12000 else 20 * (n mod 600))" for r
    using booksD(2)[OF b, of r] runtime_okD(4)[OF assms(1)] by (simp add: round_points_def)
  with awards show ?thesis using booksD(1)[OF b] by (intro conjI allI) simp_all
qed




section \<open>Instances\<close>


theorem chain_books_witness:
  "\<exists>as rt. (chain_step solo_runtime (\<lambda>_. None))\<^sup>*\<^sup>* solo_start (1, as, rt) \<and>
     unat (Points (StakeStorage rt) 1) = 20 \<and> unat (Round (StakeStorage rt)) = 1"
proof -
  obtain as rt where run: "(chain_step solo_runtime (\<lambda>_. None))\<^sup>*\<^sup>* solo_start (1, as, rt)" by (rule solo_step)
  from chain_books[OF solo_ok solo_chain this]
  have "unat (Round (StakeStorage rt)) = 1" "unat (Points (StakeStorage rt) 1) = 20"
    by (auto dest: spec[where x = "1 :: round_index"])
  with run show ?thesis by blast
qed






end
