(* ===== verification/Node_Inherents.thy ===== *)
theory Node_Inherents
  imports Runtime_Config Author_Inherent Node_Cli
begin

text \<open>
  The inherent data providers of the node, \<^verbatim>\<open>src/node/src/inherents.rs\<close>: which providers a node
  registers, and the two mocks the development service uses. The registry of \<open>sp_inherents\<close>, the
  codec and the builder of the mocked relay state are arguments.
\<close>

section \<open>The registered providers\<close>

datatype provider =
    AuthorProvider bytes
  | MockTimestamp u64
  | MockValidationData
  | RealTimestamp

text \<open>\<open>InherentDataProviders\<close>: an empty registry, registration (which may fail) and the providers it
  asks, in the order of their registration.\<close>

record 'p providers_ops =
  new_providers :: 'p
  register_provider :: "provider \<Rightarrow> 'p \<Rightarrow> string + 'p"
  registered :: "'p \<Rightarrow> provider list"

definition providers_law :: "'p providers_ops \<Rightarrow> bool" where
  "providers_law R \<longleftrightarrow> registered R (new_providers R) = [] \<and>
     (\<forall>x p p'. register_provider R x p = Inr p' \<longrightarrow> registered R p' = registered R p @ [x])"

definition build_inherent_data_providers ::
  "'p providers_ops \<Rightarrow> (address20 \<Rightarrow> bytes) \<Rightarrow> address20 option \<Rightarrow> bool \<Rightarrow> string + 'p" where
  "build_inherent_data_providers R encode author mock =
     (let providers = new_providers R
      in case (case author of
                 Some account \<Rightarrow> register_provider R (AuthorProvider (encode account)) providers
               | None \<Rightarrow> Inr providers) of
           Inl e \<Rightarrow> Inl e
         | Inr providers1 \<Rightarrow>
             if mock
             then (case register_provider R (MockTimestamp (MINIMUM_PERIOD * 2)) providers1 of
                     Inl e \<Rightarrow> Inl e
                   | Inr providers2 \<Rightarrow> register_provider R MockValidationData providers2)
             else register_provider R RealTimestamp providers1)"

lemma register_Inr: "providers_law R \<Longrightarrow> register_provider R x p = Inr p' \<Longrightarrow> registered R p' = registered R p @ [x]"
  by (simp add: providers_law_def)

lemma built_providers:
  assumes "providers_law R" "build_inherent_data_providers R encode author mock = Inr p"
  shows "registered R p =
           (case author of None \<Rightarrow> [] | Some a \<Rightarrow> [AuthorProvider (encode a)]) @
           (if mock then [MockTimestamp 6000, MockValidationData] else [RealTimestamp])"
proof -
  have new: "registered R (new_providers R) = []" using assms(1) by (simp add: providers_law_def)
  note reg = register_Inr[OF assms(1)]
  show ?thesis using assms(2) new
    by (cases author; cases mock)
       (auto simp: build_inherent_data_providers_def MINIMUM_PERIOD_def split: sum.splits dest!: reg)
qed

section \<open>The mocked timestamp\<close>

text \<open>\<open>TIMESTAMP_IDENTIFIER\<close> and \<open>SYSTEM_INHERENT_IDENTIFIER\<close> are constants of \<open>sp_timestamp\<close> and
  \<open>cumulus_primitives\<close>. The thread-local counter is the state \<open>x\<close>; the addition wraps around.\<close>

definition mock_timestamp_provide ::
  "'d inherent_data_ops \<Rightarrow> (u64 \<Rightarrow> bytes) \<Rightarrow> bytes \<Rightarrow> u64 \<Rightarrow> u64 \<Rightarrow> 'd \<Rightarrow> (string + 'd) \<times> u64" where
  "mock_timestamp_provide D encode TIMESTAMP_IDENTIFIER duration x data =
     (let x' = x + duration in (put_data D TIMESTAMP_IDENTIFIER (encode x') data, x'))"

fun mock_timestamps :: "u64 \<Rightarrow> u64 \<Rightarrow> nat \<Rightarrow> u64" where
  "mock_timestamps duration x 0 = x"
| "mock_timestamps duration x (Suc n) = mock_timestamps duration (x + duration) n"

lemma mock_timestamps_eq: "mock_timestamps duration x n = x + of_nat n * duration"
  by (induction n arbitrary: x) (simp_all add: algebra_simps)

lemma mock_timestamps_exact:
  assumes "unat x + n * unat d < 2 ^ 64"
  shows "unat (mock_timestamps d x n) = unat x + n * unat d"
proof -
  have "of_nat (unat x + n * unat d) = mock_timestamps d x n" by (simp add: mock_timestamps_eq)
  then show ?thesis using assms by (intro of_nat_inverse) simp_all
qed

section \<open>The mocked validation data\<close>

record 'root PersistedValidationData =
  parent_head :: bytes
  block_number :: u32
  relay_storage_root :: 'root
  hrmp_mqc_heads :: "(u32 \<times> bytes) list"
  dmq_mqc_head :: bytes
  max_pov_size :: u32

record ('root, 'proof) SystemInherentData =
  validation_data :: "'root PersistedValidationData"
  downward_messages :: "bytes list"
  horizontal_messages :: "(u32 \<times> bytes list) list"
  relay_chain_state :: 'proof

text \<open>The default of the hash at the head of the downward queue is the argument \<open>zero_hash\<close>.\<close>

definition mock_validation_data :: "bytes \<Rightarrow> 'root \<times> 'proof \<Rightarrow> ('root, 'proof) SystemInherentData" where
  "mock_validation_data zero_hash sproof =
     (let (root, proof) = sproof
      in \<lparr>validation_data = \<lparr>parent_head = [], block_number = 0, relay_storage_root = root,
            hrmp_mqc_heads = [], dmq_mqc_head = zero_hash, max_pov_size = 0\<rparr>,
          downward_messages = [], horizontal_messages = [], relay_chain_state = proof\<rparr>)"

definition mock_validation_provide ::
  "'d inherent_data_ops \<Rightarrow> (('root, 'proof) SystemInherentData \<Rightarrow> bytes) \<Rightarrow> bytes \<Rightarrow> bytes
     \<Rightarrow> 'root \<times> 'proof \<Rightarrow> 'd \<Rightarrow> string + 'd" where
  "mock_validation_provide D encode SYSTEM_INHERENT_IDENTIFIER zero_hash sproof data =
     put_data D SYSTEM_INHERENT_IDENTIFIER (encode (mock_validation_data zero_hash sproof)) data"

section \<open>Errors of the mocks\<close>

text \<open>Both mocks decode an error with the \<open>InherentError\<close> of \<open>sp_timestamp\<close>, the argument \<open>try_from\<close>.\<close>

definition mock_timestamp_error_to_string ::
  "(bytes \<Rightarrow> bytes \<Rightarrow> 'e option) \<Rightarrow> ('e \<Rightarrow> string) \<Rightarrow> bytes \<Rightarrow> bytes \<Rightarrow> string option" where
  "mock_timestamp_error_to_string try_from debug_format TIMESTAMP_IDENTIFIER error =
     map_option debug_format (try_from TIMESTAMP_IDENTIFIER error)"

definition mock_validation_error_to_string ::
  "(bytes \<Rightarrow> bytes \<Rightarrow> 'e option) \<Rightarrow> ('e \<Rightarrow> string) \<Rightarrow> bytes \<Rightarrow> bytes \<Rightarrow> string option" where
  "mock_validation_error_to_string try_from debug_format SYSTEM_INHERENT_IDENTIFIER error =
     map_option debug_format (try_from SYSTEM_INHERENT_IDENTIFIER error)"

text \<open>As that decoder only accepts the identifier of the timestamp, the errors of the validation data are never
  shown.\<close>

lemma mock_validation_error_hidden:
  assumes "\<And>ident error. ident \<noteq> TIMESTAMP_IDENTIFIER \<Longrightarrow> try_from ident error = None"
    and "SYSTEM_INHERENT_IDENTIFIER \<noteq> TIMESTAMP_IDENTIFIER"
  shows "mock_validation_error_to_string try_from debug_format SYSTEM_INHERENT_IDENTIFIER error = None"
  using assms by (simp add: mock_validation_error_to_string_def)

end
