(* ===== verification/Node_Service.thy ===== *)
theory Node_Service
  imports Node_Inherents "HOL-Library.AList"
begin

text \<open>
  The services of \<^verbatim>\<open>src/node/src/service.rs\<close>: what the parachain node and the development service
  put together, the commands the development service seals blocks by, and the two maintenance tasks
  of the Ethereum RPC that run at every imported block. The steps of Substrate, Cumulus and Polkadot
  that may fail are fields of \<open>service_env\<close>. The two locked maps are association lists with distinct
  keys.
\<close>

type_synonym H256 = "256 word"
type_synonym U256 = "256 word"

section \<open>Filter pool maintenance\<close>

record 'f FilterPoolItem =
  filter_body :: 'f
  filter_at_block :: u64

type_synonym 'f FilterPool = "(U256 \<times> 'f FilterPoolItem) list"

definition FILTER_RETAIN_THRESHOLD :: u64 where "FILTER_RETAIN_THRESHOLD = 100"

definition filter_step :: "u64 \<Rightarrow> U256 \<times> 'f FilterPoolItem \<Rightarrow> 'f FilterPool \<Rightarrow> 'f FilterPool" where
  "filter_step imported_number kv locked =
     (let (k, v) = kv;
          lifespan_limit = filter_at_block v + FILTER_RETAIN_THRESHOLD
      in if lifespan_limit \<le> imported_number then AList.delete k locked else locked)"

definition maintain_filter_pool :: "u32 \<Rightarrow> 'f FilterPool \<Rightarrow> 'f FilterPool" where
  "maintain_filter_pool header_number locked =
     (let imported_number = ucast header_number in fold (filter_step imported_number) locked locked)"

section \<open>Pending transaction maintenance\<close>

record 't PendingTransaction =
  pending_tx :: 't
  pending_at_block :: u64

type_synonym 't PendingTransactions = "(H256 \<times> 't PendingTransaction) list"

definition TRANSACTION_RETAIN_THRESHOLD :: u64 where "TRANSACTION_RETAIN_THRESHOLD = 5"

text \<open>The loop over the logs in reverse order stops at the first one that \<open>try_to\<close> decodes.\<close>

fun find_log :: "('log \<Rightarrow> 'c option) \<Rightarrow> 'log list \<Rightarrow> 'c option" where
  "find_log try_to [] = None"
| "find_log try_to (log # logs) = (case try_to log of Some l \<Rightarrow> Some l | None \<Rightarrow> find_log try_to logs)"

definition frontier_log :: "('log \<Rightarrow> 'c option) \<Rightarrow> 'log list \<Rightarrow> 'c option" where
  "frontier_log try_to logs = find_log try_to (rev logs)"

text \<open>\<open>end_block\<close> yields the transaction hashes of a consensus log that is an \<open>EndBlock\<close>.\<close>

definition maintain_pending_transactions ::
  "('log \<Rightarrow> 'c option) \<Rightarrow> ('c \<Rightarrow> H256 list option) \<Rightarrow> u32 \<Rightarrow> 'log list \<Rightarrow> 't PendingTransactions
     \<Rightarrow> 't PendingTransactions" where
  "maintain_pending_transactions try_to end_block header_number logs locked =
     (let imported_number = ucast header_number;
          locked1 = (case Option.bind (frontier_log try_to logs) end_block of
                       Some transaction_hashes \<Rightarrow> filter (\<lambda>(k, _). k \<notin> set transaction_hashes) locked
                     | None \<Rightarrow> locked)
      in filter (\<lambda>(_, v). let lifespan_limit = pending_at_block v + TRANSACTION_RETAIN_THRESHOLD
                          in imported_number < lifespan_limit) locked1)"

section \<open>Sealing in the development service\<close>

record engine_command =
  create_empty :: bool
  finalize :: bool
  parent_hash :: "H256 option"
  has_sender :: bool

text \<open>What the streams of the development service deliver: a transaction that entered the pool, a
  tick of the timer (the period in milliseconds), and a command from the RPC.\<close>

datatype seal_event = PoolImport | TimerTick u64 | RpcCommand engine_command

definition seal_block :: "bool \<Rightarrow> engine_command" where
  "seal_block allow_empty = \<lparr>create_empty = allow_empty, finalize = False, parent_hash = None, has_sender = False\<rparr>"

definition commands_stream :: "Sealing \<Rightarrow> seal_event list \<Rightarrow> engine_command list" where
  "commands_stream mode events =
     (case mode of
        Instant \<Rightarrow> List.map_filter (\<lambda>e. case e of PoolImport \<Rightarrow> Some (seal_block False) | _ \<Rightarrow> None) events
      | Manual \<Rightarrow> List.map_filter (\<lambda>e. case e of RpcCommand c \<Rightarrow> Some c | _ \<Rightarrow> None) events
      | Interval millis \<Rightarrow>
          List.map_filter
            (\<lambda>e. case e of TimerTick m \<Rightarrow> if m = millis then Some (seal_block True) else None | _ \<Rightarrow> None) events)"

section \<open>RPC extensions\<close>

text \<open>\<^verbatim>\<open>src/node/src/rpc.rs\<close>: the interfaces \<open>create_full\<close> registers, with the arguments that depend on
  the node. The handlers behind them are code of Substrate and Frontier, \<open>TxPoolApi\<close> excepted.\<close>

datatype rpc_api =
    SystemApi
  | TransactionPaymentApi
  | EthApi bool
  | EthFilterApi nat
  | NetApi
  | Web3Api
  | EthPubSubApi
  | TxPoolApi
  | ManualSealApi

record FullDeps =
  is_authority :: bool
  deps_filter_pool :: bool
  command_sink :: bool

definition create_full :: "FullDeps \<Rightarrow> rpc_api list" where
  "create_full deps =
     (let io = [SystemApi, TransactionPaymentApi, EthApi (is_authority deps)];
          io = io @ (if deps_filter_pool deps then [EthFilterApi 500] else []);
          io = io @ [NetApi, Web3Api, EthPubSubApi, TxPoolApi]
      in io @ (if command_sink deps then [ManualSealApi] else []))"

section \<open>Services\<close>

datatype Role = Light | Full | Authority

text \<open>The steps outside this repository that can fail, each with its error.\<close>

record 'p service_env =
  provider_registry :: "'p providers_ops"
  encode_address :: "address20 \<Rightarrow> bytes"
  full_parts_error :: "string option"
  import_queue_error :: "string option"
  polkadot_error :: "string option"
  network_error :: "string option"
  spawn_error :: "string option"
  consensus_error :: "string option"

record ('p, 't, 'f) PartialComponents =
  inherent_data_providers :: 'p
  pending_transactions :: "'t PendingTransactions option"
  filter_pool :: "'f FilterPool option"

definition fails_with :: "string option \<Rightarrow> string + unit" where
  "fails_with e = (case e of None \<Rightarrow> Inr () | Some msg \<Rightarrow> Inl msg)"

definition new_partial ::
  "'p service_env \<Rightarrow> address20 option \<Rightarrow> bool \<Rightarrow> string + ('p, 't, 'f) PartialComponents" where
  "new_partial E author mock_inherents =
     (case build_inherent_data_providers (provider_registry E) (encode_address E) author mock_inherents of
        Inl e \<Rightarrow> Inl e
      | Inr providers \<Rightarrow>
          (case fails_with (full_parts_error E) of
             Inl e \<Rightarrow> Inl e
           | Inr _ \<Rightarrow>
               (case fails_with (import_queue_error E) of
                  Inl e \<Rightarrow> Inl e
                | Inr _ \<Rightarrow>
                    Inr \<lparr>inherent_data_providers = providers, pending_transactions = Some [],
                         filter_pool = Some []\<rparr>)))"

datatype authoring = NoAuthoring | ManualSeal Sealing | CollatorTask u32 | FullNodeTask u32

record ('p, 't, 'f) running_service =
  components :: "('p, 't, 'f) PartialComponents"
  rpc_extensions :: "rpc_api list"
  authoring_task :: authoring
  filter_pool_task :: bool
  pending_transactions_task :: bool

text \<open>The last step of \<open>start_node_impl\<close>: a collator or a full node of the parachain; both can fail.\<close>

definition start_consensus :: "'p service_env \<Rightarrow> bool \<Rightarrow> u32 \<Rightarrow> string + authoring" where
  "start_consensus E collator para_id =
     (case fails_with (consensus_error E) of
        Inl e \<Rightarrow> Inl e
      | Inr _ \<Rightarrow> Inr (if collator then CollatorTask para_id else FullNodeTask para_id))"

definition start_node_impl ::
  "'p service_env \<Rightarrow> Role \<Rightarrow> address20 option \<Rightarrow> u32 \<Rightarrow> bool \<Rightarrow> string + ('p, 't, 'f) running_service" where
  "start_node_impl E role author para_id collator =
     (if role = Light then Inl ''Light client not supported!''
      else (case fails_with (polkadot_error E) of
         Inl e \<Rightarrow> Inl e
       | Inr _ \<Rightarrow>
           (case new_partial E author False of
              Inl e \<Rightarrow> Inl e
            | Inr params \<Rightarrow>
                (case fails_with (network_error E) of
                   Inl e \<Rightarrow> Inl e
                 | Inr _ \<Rightarrow>
                     (case fails_with (spawn_error E) of
                        Inl e \<Rightarrow> Inl e
                      | Inr _ \<Rightarrow>
                          (case start_consensus E collator para_id of
                             Inl e \<Rightarrow> Inl e
                           | Inr task \<Rightarrow>
                               Inr \<lparr>components = params,
                                    rpc_extensions = create_full \<lparr>is_authority = collator,
                                      deps_filter_pool = filter_pool params \<noteq> None, command_sink = False\<rparr>,
                                    authoring_task = task,
                                    filter_pool_task = filter_pool params \<noteq> None,
                                    pending_transactions_task = pending_transactions params \<noteq> None\<rparr>))))))"

definition start_node ::
  "'p service_env \<Rightarrow> Role \<Rightarrow> address20 option \<Rightarrow> u32 \<Rightarrow> bool \<Rightarrow> string + ('p, 't, 'f) running_service" where
  "start_node E role author para_id collator = start_node_impl E role author para_id collator"

definition new_dev ::
  "'p service_env \<Rightarrow> Sealing \<Rightarrow> address20 option \<Rightarrow> bool \<Rightarrow> string + ('p, 't, 'f) running_service" where
  "new_dev E mode author collator =
     (case new_partial E author True of
        Inl e \<Rightarrow> Inl e
      | Inr params \<Rightarrow>
          (case fails_with (network_error E) of
             Inl e \<Rightarrow> Inl e
           | Inr _ \<Rightarrow>
               (let sink = (collator \<and> mode = Manual)
                in case fails_with (spawn_error E) of
                     Inl e \<Rightarrow> Inl e
                   | Inr _ \<Rightarrow>
                       Inr \<lparr>components = params,
                            rpc_extensions = create_full \<lparr>is_authority = collator,
                              deps_filter_pool = filter_pool params \<noteq> None, command_sink = sink\<rparr>,
                            authoring_task = (if collator then ManualSeal mode else NoAuthoring),
                            filter_pool_task = filter_pool params \<noteq> None,
                            pending_transactions_task = pending_transactions params \<noteq> None\<rparr>)))"

section \<open>The maintenance tasks\<close>

lemma unat_block_number [simp]: "unat (ucast (h :: u32) :: u64) = unat h"
proof -
  have "unat h < 2 ^ 64" using unsigned_less[of h, where 'a = nat] by simp
  then show ?thesis by (simp add: unsigned_ucast_eq take_bit_nat_eq_self)
qed

lemma fold_delete_filter:
  "fold (\<lambda>(k, v) m. if P v then AList.delete k m else m) xs m =
     filter (\<lambda>(k, _). k \<notin> fst ` set (filter (\<lambda>(_, v). P v) xs)) m"
proof (induction xs arbitrary: m)
  case (Cons x xs)
  then show ?case
    by (cases x) (auto simp: AList.delete_eq intro!: filter_cong[OF refl])
qed simp

lemma filter_by_key_eq_by_value:
  assumes "distinct (map fst m)"
  shows "filter (\<lambda>(k, _). k \<notin> fst ` set (filter (\<lambda>(_, v). P v) m)) m = filter (\<lambda>(_, v). \<not> P v) m"
  using assms by (intro filter_cong) (force dest: map_of_is_SomeI eq_key_imp_eq_value)+

text \<open>Removing from the map while walking over a copy of it is one filter over the items.\<close>

lemma maintain_filter_pool_eq_filter:
  fixes pool :: "'f FilterPool"
  assumes "distinct (map fst pool)"
  shows "maintain_filter_pool h pool =
    filter (\<lambda>(_, v). ucast h < filter_at_block v + FILTER_RETAIN_THRESHOLD) pool"
proof -
  have "(filter_step (ucast h) :: _ \<Rightarrow> 'f FilterPool \<Rightarrow> _) =
      (\<lambda>(k, v) m. if filter_at_block v + FILTER_RETAIN_THRESHOLD \<le> ucast h then AList.delete k m else m)"
    by (auto simp: filter_step_def fun_eq_iff)
  then show ?thesis
    by (simp only: maintain_filter_pool_def Let_def fold_delete_filter filter_by_key_eq_by_value[OF assms] not_le)
qed

lemma find_log_append:
  "try_to log = Some l \<Longrightarrow> \<forall>x\<in>set xs. try_to x = None \<Longrightarrow> find_log try_to (xs @ log # ys) = Some l"
  by (induction xs) auto

lemma frontier_log_last:
  "try_to log = Some l \<Longrightarrow> \<forall>x\<in>set ys. try_to x = None \<Longrightarrow> frontier_log try_to (xs @ log # ys) = Some l"
  by (simp add: frontier_log_def find_log_append)

lemma frontier_log_none: "frontier_log try_to logs = None \<longleftrightarrow> (\<forall>x\<in>set logs. try_to x = None)"
proof -
  have "find_log try_to ls = None \<longleftrightarrow> (\<forall>x\<in>set ls. try_to x = None)" for ls
    by (induction ls) (auto split: option.splits)
  then show ?thesis by (simp add: frontier_log_def)
qed

end
