(* ===== verification/Node_Command.thy ===== *)
theory Node_Command
  imports Node_Service
begin

text \<open>
  \<open>run\<close> of \<^verbatim>\<open>src/node/src/command.rs\<close>: the dispatch of the command line to the services. What
  Substrate and Cumulus contribute (building a configuration, the genesis block, the storage of a
  specification, formatting) is in \<open>run_env\<close>; writing to a file or to the standard output is the
  value \<open>WriteOutput\<close>.
\<close>

record 'p run_env =
  create_runner_error :: "string option"
  executable_name :: string
  config_role :: Role
  config_base_path :: "string option"
  config_extension :: "Extensions option"
  genesis_header :: "chain_source \<Rightarrow> string + u8 list"
  own_genesis_error :: "string option"
  relay_config_error :: "RelayChainCli \<Rightarrow> string option"
  spec_storage :: "chain_source \<Rightarrow> string + (string \<rightharpoonup> u8 list)"
  hex_display :: "u8 list \<Rightarrow> u8 list"
  services :: "'p service_env"

datatype ('p, 't, 'f) node_action =
    SubstrateCommand Subcommand "('p, 't, 'f) PartialComponents option"
  | WriteOutput "string option" "u8 list"
  | RunNode "('p, 't, 'f) running_service"

section \<open>Exports\<close>

definition export_bytes :: "(u8 list \<Rightarrow> u8 list) \<Rightarrow> bool \<Rightarrow> u8 list \<Rightarrow> u8 list" where
  "export_bytes hex_of raw blob = (if raw then blob else [48, 120] @ hex_of blob)"

definition extract_genesis_wasm :: "string + (string \<rightharpoonup> u8 list) \<Rightarrow> string + u8 list" where
  "extract_genesis_wasm built =
     (case built of
        Inl e \<Rightarrow> Inl e
      | Inr top_storage \<Rightarrow>
          (case top_storage '':code'' of
             None \<Rightarrow> Inl ''Could not find wasm file in genesis state!''
           | Some code \<Rightarrow> Inr code))"

definition or_default :: "string option \<Rightarrow> string" where
  "or_default x = (case x of None \<Rightarrow> '''' | Some s \<Rightarrow> s)"

definition export_genesis_state ::
  "'p run_env \<Rightarrow> ExportGenesisStateCommand \<Rightarrow> string + ('p, 't, 'f) node_action" where
  "export_genesis_state E params =
     (case load_spec (or_default (gs_chain params)) (gs_parachain_id params) of
        Inl e \<Rightarrow> Inl e
      | Inr spec \<Rightarrow>
          (case genesis_header E spec of
             Inl e \<Rightarrow> Inl e
           | Inr header \<Rightarrow>
               Inr (WriteOutput (gs_output params) (export_bytes (hex_display E) (gs_raw params) header))))"

definition export_genesis_wasm ::
  "'p run_env \<Rightarrow> Cli \<Rightarrow> ExportGenesisWasmCommand \<Rightarrow> string + ('p, 't, 'f) node_action" where
  "export_genesis_wasm E cli params =
     (case cli_load_spec cli (or_default (gw_chain params)) of
        Inl e \<Rightarrow> Inl e
      | Inr spec \<Rightarrow>
          (case extract_genesis_wasm (spec_storage E spec) of
             Inl e \<Rightarrow> Inl e
           | Inr code \<Rightarrow>
               Inr (WriteOutput (gw_output params) (export_bytes (hex_display E) (gw_raw params) code))))"

section \<open>Chain commands\<close>

text \<open>The commands that Substrate runs; all but two of them on a partial service without an author and
  with the real inherents.\<close>

fun needs_client :: "Subcommand \<Rightarrow> bool" where
  "needs_client BuildSpec = False"
| "needs_client PurgeChain = False"
| "needs_client _ = True"

definition substrate_command :: "'p run_env \<Rightarrow> Subcommand \<Rightarrow> string + ('p, 't, 'f) node_action" where
  "substrate_command E cmd =
     (case fails_with (create_runner_error E) of
        Inl e \<Rightarrow> Inl e
      | Inr _ \<Rightarrow>
          if needs_client cmd
          then (case new_partial (services E) None False of
                  Inl e \<Rightarrow> Inl e
                | Inr parts \<Rightarrow> Inr (SubstrateCommand cmd (Some parts)))
          else Inr (SubstrateCommand cmd None))"

section \<open>Running a node\<close>

definition is_collator :: "Cli \<Rightarrow> bool" where
  "is_collator cli \<longleftrightarrow> base_validator (run_cmd cli) \<or> collator_flag cli"

definition wants_dev_service :: "'p run_env \<Rightarrow> Cli \<Rightarrow> bool" where
  "wants_dev_service E cli \<longleftrightarrow>
     dev_service (run_cmd cli) \<or> map_option relay_chain (config_extension E) = Some ''dev-service''"

text \<open>The identifier of the parachain: the argument, else the extension of the specification, else 1000.\<close>

definition parachain_of :: "u32 option \<Rightarrow> u32 option \<Rightarrow> u32" where
  "parachain_of arg extension =
     (case arg of Some p \<Rightarrow> p | None \<Rightarrow> (case extension of Some p \<Rightarrow> p | None \<Rightarrow> 1000))"

text \<open>\<open>path.join("polkadot")\<close> is the path with one more component.\<close>

definition run_node :: "'p run_env \<Rightarrow> Cli \<Rightarrow> string + ('p, 't, 'f) node_action" where
  "run_node E cli =
     (case fails_with (create_runner_error E) of
        Inl e \<Rightarrow> Inl e
      | Inr _ \<Rightarrow>
         (let collator = is_collator cli; author = author_id (run_cmd cli)
          in if collator \<and> author = None then Inl ''Collator nodes must specify an author account id''
             else if wants_dev_service E cli
             then (let collator' = collator \<or> base_dev (run_cmd cli);
                       author' = (case author of Some a \<Rightarrow> Some a | None \<Rightarrow> Some gerald)
                   in case new_dev (services E) (sealing (run_cmd cli)) author' collator' of
                        Inl e \<Rightarrow> Inl e
                      | Inr node \<Rightarrow> Inr (RunNode node))
             else (let relay_chain_id = map_option relay_chain (config_extension E);
                       para = map_option ext_para_id (config_extension E);
                       polkadot_cli = new_relay_chain_cli
                         (map_option (\<lambda>p. p @ ''/polkadot'') (config_base_path E)) relay_chain_id
                         (executable_name E # relaychain_args cli);
                       ident = parachain_of (run_parachain_id (run_cmd cli)) para
                   in case fails_with (own_genesis_error E) of
                        Inl e \<Rightarrow> Inl e
                      | Inr _ \<Rightarrow>
                          (case relay_config_error E polkadot_cli of
                             Some e \<Rightarrow> Inl (''Relay chain argument error: '' @ e)
                           | None \<Rightarrow>
                               (case start_node (services E) (config_role E) author ident collator of
                                  Inl e \<Rightarrow> Inl e
                                | Inr node \<Rightarrow> Inr (RunNode node))))))"

definition run :: "'p run_env \<Rightarrow> Cli \<Rightarrow> string + ('p, 't, 'f) node_action" where
  "run E cli =
     (case subcommand cli of
        None \<Rightarrow> run_node E cli
      | Some (ExportGenesisState params) \<Rightarrow> export_genesis_state E params
      | Some (ExportGenesisWasm params) \<Rightarrow> export_genesis_wasm E cli params
      | Some cmd \<Rightarrow> substrate_command E cmd)"

section \<open>What a started node has\<close>

lemma fails_with_Inr [simp]: "fails_with e = Inr u \<longleftrightarrow> e = None"
  by (cases e) (auto simp: fails_with_def)

lemma new_partial_components:
  assumes "new_partial E author mock = Inr c"
  shows "build_inherent_data_providers (provider_registry E) (encode_address E) author mock = Inr (inherent_data_providers c)"
    "pending_transactions c = Some []" "filter_pool c = Some []"
  using assms by (auto simp: new_partial_def split: sum.split_asm)

lemma new_dev_service:
  assumes "new_dev E mode author collator = Inr n"
  shows "new_partial E author True = Inr (components n)"
    "authoring_task n = (if collator then ManualSeal mode else NoAuthoring)"
    "ManualSealApi \<in> set (rpc_extensions n) \<longleftrightarrow> collator \<and> mode = Manual"
    "filter_pool_task n" "pending_transactions_task n"
  using assms by (auto simp: new_dev_def create_full_def dest: new_partial_components split: sum.split_asm)

lemma start_node_service:
  assumes "start_node E role author para collator = Inr n"
  shows "new_partial E author False = Inr (components n)" "role \<noteq> Light"
    "authoring_task n = (if collator then CollatorTask para else FullNodeTask para)"
    "ManualSealApi \<notin> set (rpc_extensions n)"
    "filter_pool_task n" "pending_transactions_task n"
  using assms
  by (auto simp: start_node_def start_node_impl_def start_consensus_def create_full_def dest: new_partial_components split: sum.split_asm if_split_asm)

text \<open>The node that \<open>run\<close> starts when the development service is asked for.\<close>

lemma run_dev_node:
  assumes law: "providers_law (provider_registry (services E))" and cli: "subcommand cli = None" "wants_dev_service E cli"
    and run: "run E cli = Inr act"
  obtains node where "act = RunNode node"
    "registered (provider_registry (services E)) (inherent_data_providers (components node)) =
       [AuthorProvider (encode_address (services E) (case author_id (run_cmd cli) of None \<Rightarrow> gerald | Some a \<Rightarrow> a)),
        MockTimestamp 6000, MockValidationData]"
    "new_dev (services E) (sealing (run_cmd cli)) (Some (case author_id (run_cmd cli) of None \<Rightarrow> gerald | Some a \<Rightarrow> a))
       (is_collator cli \<or> base_dev (run_cmd cli)) = Inr node"
proof -
  let ?r = "run_cmd cli"
  let ?a = "case author_id ?r of Some a \<Rightarrow> Some a | None \<Rightarrow> Some gerald"
  obtain node where node: "act = RunNode node" "new_dev (services E) (sealing ?r) ?a (is_collator cli \<or> base_dev ?r) = Inr node"
    using run cli by (auto simp: run_def run_node_def split: sum.split_asm if_split_asm)
  have a: "?a = Some (case author_id ?r of None \<Rightarrow> gerald | Some a \<Rightarrow> a)" by (simp split: option.split)
  from that[OF node(1) _ node(2)[unfolded a]] built_providers[OF law new_partial_components(1)[OF new_dev_service(1)[OF node(2)]]]
  show thesis by (simp add: a)
qed

end
