(* ===== verification/Node_Relay.thy ===== *)
theory Node_Relay
  imports Node_Cli
begin

text \<open>
  How \<^verbatim>\<open>src/node/src/command.rs\<close> presents the two command lines of the node to Substrate: the program
  information of \<open>SubstrateCli\<close> for the parachain and for the relay chain, and the configuration of the relay
  chain node, which is that of the Polkadot command line except for the base path and the chain. The Polkadot
  command line is the argument \<open>base\<close>; the values of the build environment are arguments as well.
\<close>

section \<open>Program information\<close>

record substrate_cli =
  impl_name :: string
  cli_impl_version :: string
  description :: string
  cli_author :: string
  support_url :: string
  copyright_start_year :: int

abbreviation line_break :: string where
  "line_break \<equiv> [CHR 0x0A]"

definition usage_text :: string where
  "usage_text = ''The command-line arguments provided first will be passed to the parachain node, '' @
     ''while the arguments provided after -- will be passed to the relaychain node.''"

definition cli_info :: "string \<Rightarrow> string \<Rightarrow> string \<Rightarrow> substrate_cli" where
  "cli_info version_env authors_env executable =
     \<lparr>impl_name = ''Moonbase Parachain Collator'', cli_impl_version = version_env,
      description = ''Moonbase Parachain Collator'' @ line_break @ line_break @ usage_text @ line_break @ line_break @
        executable @ '' [parachain-args] -- [relaychain-args]'',
      cli_author = authors_env, support_url = ''support.anonymous.an'', copyright_start_year = 2017\<rparr>"

definition relay_cli_info :: "string \<Rightarrow> string \<Rightarrow> substrate_cli" where
  "relay_cli_info version_env authors_env =
     \<lparr>impl_name = ''Moonbeam Parachain Collator'', cli_impl_version = version_env,
      description = ''Moonbeam Parachain Collator'' @ line_break @ line_break @ usage_text @ line_break @ line_break @
        ''parachain-collator [parachain-args] -- [relaychain-args]'',
      cli_author = authors_env, support_url = ''support.anonymous.an'', copyright_start_year = 2017\<rparr>"

section \<open>The configuration of the relay chain node\<close>

text \<open>The methods of \<open>CliConfiguration\<close>, except for \<open>init\<close>, which is marked as unreachable; the types of Substrate
  that are handed on are type variables.\<close>

record ('sp, 'ip, 'np, 'kp, 'addr, 'prom, 'role, 'pool, 'rpc, 'ext) cli_configuration =
  shared_params :: 'sp
  import_params :: "'ip option"
  network_params :: "'np option"
  keystore_params :: "'kp option"
  base_path :: "string + string option"
  rpc_http :: "u16 \<Rightarrow> string + 'addr option"
  rpc_ipc :: "string + string option"
  rpc_ws :: "u16 \<Rightarrow> string + 'addr option"
  prometheus_config :: "u16 \<Rightarrow> string + 'prom option"
  conf_chain_id :: "bool \<Rightarrow> string + string"
  role :: "bool \<Rightarrow> string + 'role"
  transaction_pool :: "string + 'pool"
  state_cache_child_ratio :: "string + nat option"
  rpc_methods :: "string + 'rpc"
  rpc_ws_max_connections :: "string + nat option"
  rpc_cors :: "bool \<Rightarrow> string + string list option"
  telemetry_external_transport :: "string + 'ext option"
  default_heap_pages :: "string + u64 option"
  force_authoring :: "string + bool"
  disable_grandpa :: "string + bool"
  max_runtime_instances :: "string + nat option"
  announce_block :: "string + bool"

definition relay_configuration ::
  "('sp \<Rightarrow> string option) \<Rightarrow> (string list \<Rightarrow> ('sp, 'ip, 'np, 'kp, 'addr, 'prom, 'role, 'pool, 'rpc, 'ext) cli_configuration)
     \<Rightarrow> RelayChainCli \<Rightarrow> ('sp, 'ip, 'np, 'kp, 'addr, 'prom, 'role, 'pool, 'rpc, 'ext) cli_configuration" where
  "relay_configuration shared_base_path base r =
     (base (relay_base r))
       \<lparr>base_path := Inr (relay_base_path_of (\<lambda>args. shared_base_path (shared_params (base args))) r),
        conf_chain_id := relay_chain_id_of (\<lambda>args. conf_chain_id (base args)) r\<rparr>"

text \<open>Arguments after the separator win; without them the relay chain node keeps its data below the base path
  of the parachain node and joins the relay chain that the parachain specification names.\<close>

lemma relay_configuration_own:
  assumes "shared_base_path (shared_params (base args)) = Some p" "conf_chain_id (base args) is_dev = Inr c" "c \<noteq> ''''"
  shows "base_path (relay_configuration shared_base_path base (new_relay_chain_cli path ident args)) = Inr (Some p)"
    "conf_chain_id (relay_configuration shared_base_path base (new_relay_chain_cli path ident args)) is_dev = Inr c"
  using assms
  by (simp_all add: relay_configuration_def relay_base_path_of_def relay_chain_id_of_def new_relay_chain_cli_def)

lemma relay_configuration_inherited:
  assumes "shared_base_path (shared_params (base args)) = None" "conf_chain_id (base args) is_dev = Inr ''''"
  shows "base_path (relay_configuration shared_base_path base (new_relay_chain_cli path (Some chain) args)) = Inr path"
    "conf_chain_id (relay_configuration shared_base_path base (new_relay_chain_cli path (Some chain) args)) is_dev = Inr chain"
  using assms
  by (simp_all add: relay_configuration_def relay_base_path_of_def relay_chain_id_of_def new_relay_chain_cli_def)

text \<open>Everything else is what the Polkadot command line says, with its errors.\<close>

lemma relay_configuration_forwards:
  "relay_configuration shared_base_path base r
     \<lparr>base_path := base_path (base (relay_base r)), conf_chain_id := conf_chain_id (base (relay_base r))\<rparr> = base (relay_base r)"
  by (simp add: relay_configuration_def)

end
