(* ===== verification/Node_Tasks.thy ===== *)
theory Node_Tasks
  imports Node_Service
begin

text \<open>
  The two maintenance tasks of \<^verbatim>\<open>src/node/src/service.rs\<close> over time. Both services spawn them on the stream
  of imported blocks, while the Ethereum RPC puts entries into the same locked map and takes them out. A task
  skips a block when the lock is poisoned. The locale \<open>expiring_pool\<close> states what the step of a task promises,
  that it drops exactly certain entries, and shows how long an entry lives; it is interpreted for both tasks.
\<close>

section \<open>Tasks on a stream of blocks\<close>

record 'log import_notification =
  header_number :: u32
  digest_logs :: "'log list"

text \<open>What happens to a pool: a block is imported (with the result of locking the map), the RPC enters an
  entry or removes one.\<close>

datatype ('b, 'k, 'v) pool_event = Imported 'b bool | Entered 'k 'v | Removed 'k

fun pool_step :: "('b \<Rightarrow> ('k \<times> 'v) list \<Rightarrow> ('k \<times> 'v) list) \<Rightarrow> ('b, 'k, 'v) pool_event \<Rightarrow> ('k \<times> 'v) list \<Rightarrow> ('k \<times> 'v) list" where
  "pool_step maintain (Imported b locked) pool = (if locked then maintain b pool else pool)"
| "pool_step maintain (Entered k v) pool = AList.update k v pool"
| "pool_step maintain (Removed k) pool = AList.delete k pool"

definition run_pool ::
  "('b \<Rightarrow> ('k \<times> 'v) list \<Rightarrow> ('k \<times> 'v) list) \<Rightarrow> ('b, 'k, 'v) pool_event list \<Rightarrow> ('k \<times> 'v) list \<Rightarrow> ('k \<times> 'v) list" where
  "run_pool maintain events pool = fold (pool_step maintain) events pool"

definition filter_pool_block :: "'log import_notification \<Rightarrow> 'f FilterPool \<Rightarrow> 'f FilterPool" where
  "filter_pool_block notification locked = maintain_filter_pool (header_number notification) locked"

definition pending_transactions_block ::
  "('log \<Rightarrow> 'c option) \<Rightarrow> ('c \<Rightarrow> H256 list option) \<Rightarrow> 'log import_notification \<Rightarrow> 't PendingTransactions
     \<Rightarrow> 't PendingTransactions" where
  "pending_transactions_block try_to end_block notification locked =
     maintain_pending_transactions try_to end_block (header_number notification) (digest_logs notification) locked"

section \<open>How long an entry lives\<close>

fun touches :: "'k \<Rightarrow> ('b, 'k, 'v) pool_event \<Rightarrow> bool" where
  "touches k (Imported _ _) = False"
| "touches k (Entered k' _) = (k' = k)"
| "touches k (Removed k') = (k' = k)"

lemma map_of_filter_distinct:
  assumes "distinct (map fst xs)"
  shows "map_of (filter (\<lambda>(k, v). P k v) xs) k =
    (case map_of xs k of None \<Rightarrow> None | Some v \<Rightarrow> if P k v then Some v else None)"
  using assms
proof (induction xs)
  case (Cons x xs)
  have "map_of (filter (\<lambda>(k, v). P k v) xs) (fst x) = None"
    using Cons.prems by (auto simp: map_of_eq_None_iff)
  with Cons show ?case by (cases x) auto
qed simp

locale expiring_pool =
  fixes maintain :: "'b \<Rightarrow> ('k \<times> 'v) list \<Rightarrow> ('k \<times> 'v) list"
    and drops :: "'b \<Rightarrow> 'k \<Rightarrow> 'v \<Rightarrow> bool"
  assumes maintain_filter: "distinct (map fst pool) \<Longrightarrow> maintain b pool = filter (\<lambda>(k, v). \<not> drops b k v) pool"
begin

lemma pool_step_distinct: "distinct (map fst pool) \<Longrightarrow> distinct (map fst (pool_step maintain e pool))"
  by (cases e) (auto simp: maintain_filter distinct_map_filter distinct_update distinct_delete)

lemma pool_step_lookup:
  assumes "distinct (map fst pool)" "\<not> touches k e"
  shows "map_of (pool_step maintain e pool) k =
    (case map_of pool k of
       None \<Rightarrow> None
     | Some v \<Rightarrow> if \<exists>b. e = Imported b True \<and> drops b k v then None else Some v)"
  using assms
  by (cases e) (auto simp: maintain_filter map_of_filter_distinct update_conv' delete_conv' split: option.split)

lemma run_pool_absent:
  "distinct (map fst pool) \<Longrightarrow> \<not> list_ex (touches k) events \<Longrightarrow> map_of pool k = None \<Longrightarrow>
     map_of (run_pool maintain events pool) k = None"
proof (induction events arbitrary: pool)
  case (Cons e events)
  then have "map_of (pool_step maintain e pool) k = None" using pool_step_lookup[of pool k e] by simp
  with Cons pool_step_distinct show ?case by (simp add: run_pool_def)
qed (simp add: run_pool_def)

lemma run_pool_lifetime:
  "distinct (map fst pool) \<Longrightarrow> \<not> list_ex (touches k) events \<Longrightarrow> map_of pool k = Some v \<Longrightarrow>
     map_of (run_pool maintain events pool) k =
       (if \<exists>b. Imported b True \<in> set events \<and> drops b k v then None else Some v)"
proof (induction events arbitrary: pool)
  case (Cons e events)
  let ?pool = "pool_step maintain e pool"
  have d: "distinct (map fst ?pool)" by (rule pool_step_distinct[OF Cons.prems(1)])
  have run: "run_pool maintain (e # events) pool = run_pool maintain events ?pool" by (simp add: run_pool_def)
  show ?case
  proof (cases "\<exists>b. e = Imported b True \<and> drops b k v")
    case True
    then have "map_of ?pool k = None" using Cons.prems pool_step_lookup[of pool k e] by auto
    then show ?thesis using True run run_pool_absent[OF d] Cons.prems(2) by auto
  next
    case False
    then have "map_of ?pool k = Some v" using Cons.prems pool_step_lookup[of pool k e] by auto
    then show ?thesis using False run Cons.IH[OF d] Cons.prems(2) by auto
  qed
qed (simp add: run_pool_def)

end

text \<open>The hashes that a block reports as processed: those of its last Frontier log, if this ends a block.\<close>

definition processed :: "('log \<Rightarrow> 'c option) \<Rightarrow> ('c \<Rightarrow> H256 list option) \<Rightarrow> 'log list \<Rightarrow> H256 set" where
  "processed try_to end_block logs =
     (case Option.bind (frontier_log try_to logs) end_block of None \<Rightarrow> {} | Some hashes \<Rightarrow> set hashes)"

lemma processed_last_log:
  "try_to log = Some l \<Longrightarrow> end_block l = Some hashes \<Longrightarrow> \<forall>x\<in>set later. try_to x = None \<Longrightarrow>
     processed try_to end_block (earlier @ log # later) = set hashes"
  by (simp add: processed_def frontier_log_last)

interpretation filters: expiring_pool filter_pool_block
  "\<lambda>b k v. filter_at_block v + FILTER_RETAIN_THRESHOLD \<le> ucast (header_number b)"
  by unfold_locales (simp add: filter_pool_block_def maintain_filter_pool_eq_filter not_le)

interpretation pending_txs: expiring_pool "pending_transactions_block try_to end_block"
  "\<lambda>b k v. k \<in> processed try_to end_block (digest_logs b) \<or>
     pending_at_block v + TRANSACTION_RETAIN_THRESHOLD \<le> ucast (header_number b)"
  by unfold_locales
    (auto simp: pending_transactions_block_def maintain_pending_transactions_def processed_def not_le
      split: option.split intro!: filter_cong)

end
