(* ===== verification/Tx_Pool.thy ===== *)
theory Tx_Pool
  imports Runtime_Config
begin

text \<open>
  The transaction pool RPC: \<^verbatim>\<open>src/client/rpc/txpool/src/lib.rs\<close> and its result types in
  \<^verbatim>\<open>src/client/rpc-core/txpool/src/types\<close>. The ready transactions of the pool, the runtime API
  call, hashing and the recovery of the public key are arguments.
\<close>

type_synonym H160 = "160 word"
type_synonym H256 = "256 word"
type_synonym U256 = "256 word"

datatype TransactionAction = Call H160 | Create

record eth_transaction =
  nonce :: U256
  gas_price :: U256
  gas_limit :: U256
  action :: TransactionAction
  value_wei :: U256
  input :: "u8 list"
  sig_r :: "u8 list"
  sig_s :: "u8 list"
  sig_standard_v :: u8

section \<open>Result types\<close>

record Transaction =
  tx_hash :: H256
  tx_nonce :: U256
  tx_block_hash :: "H256 option"
  tx_block_number :: "U256 option"
  tx_from :: H160
  tx_to :: "H160 option"
  tx_value :: U256
  tx_gas_price :: U256
  tx_gas :: U256
  tx_input :: "u8 list"

definition get_transaction :: "H256 \<Rightarrow> H160 \<Rightarrow> eth_transaction \<Rightarrow> Transaction" where
  "get_transaction hash from_address txn =
     \<lparr>tx_hash = hash, tx_nonce = nonce txn, tx_block_hash = None, tx_block_number = None,
      tx_from = from_address,
      tx_to = (case action txn of Call to \<Rightarrow> Some to | _ \<Rightarrow> None),
      tx_value = value_wei txn, tx_gas_price = gas_price txn, tx_gas = gas_limit txn,
      tx_input = input txn\<rparr>"

record Summary =
  sum_to :: "H160 option"
  sum_value :: U256
  sum_gas :: U256
  sum_gas_price :: U256

definition get_summary :: "H256 \<Rightarrow> H160 \<Rightarrow> eth_transaction \<Rightarrow> Summary" where
  "get_summary hash from_address txn =
     \<lparr>sum_to = (case action txn of Call to \<Rightarrow> Some to | _ \<Rightarrow> None),
      sum_value = value_wei txn, sum_gas = gas_limit txn, sum_gas_price = gas_price txn\<rparr>"

text \<open>An optional hash is serialized as the hash, or as the zero hash when it is absent.\<close>

definition hash_serialized :: "'n::len word option \<Rightarrow> 'n word" where
  "hash_serialized h = (case h of None \<Rightarrow> 0 | Some x \<Rightarrow> x)"

text \<open>A summary is serialized as one line; the formatting of an address and of a number are arguments.\<close>

definition summary_serialized :: "(H160 \<Rightarrow> string) \<Rightarrow> (U256 \<Rightarrow> string) \<Rightarrow> Summary \<Rightarrow> string" where
  "summary_serialized hex dec s =
     ''0x'' @ hex (hash_serialized (sum_to s)) @ '': '' @ dec (sum_value s) @ '' wei + '' @
     dec (sum_gas s) @ '' gas x '' @ dec (sum_gas_price s) @ '' wei''"

type_synonym 't TransactionMap = "H160 \<rightharpoonup> (U256 \<rightharpoonup> 't)"

record 't TxPoolResult =
  pending :: 't
  queued :: 't

section \<open>The pool\<close>

text \<open>What the service reads from the node: the ready extrinsics, the runtime API at the best
  block, hashing, and key recovery.\<close>

record 'x txpool_env =
  ready :: "'x list"
  status_ready :: nat
  status_future :: nat
  runtime_filter :: "'x list \<Rightarrow> string + eth_transaction list"
  message_hash :: "eth_transaction \<Rightarrow> H256"
  hash_bytes :: "H256 \<Rightarrow> u8 list"
  ecdsa_recover :: "u8 list \<Rightarrow> u8 list \<Rightarrow> string + u8 list"
  keccak_256 :: "u8 list \<Rightarrow> H256"
  address_from :: "H256 \<Rightarrow> H160"

definition public_key :: "'x txpool_env \<Rightarrow> eth_transaction \<Rightarrow> H256 \<Rightarrow> string + u8 list" where
  "public_key E transaction hash =
     (let sig = sig_r transaction @ sig_s transaction @ [sig_standard_v transaction];
          msg = hash_bytes E hash
      in ecdsa_recover E sig msg)"

text \<open>The digest of the recovered key is converted to an address; an address that cannot be recovered is
  the default one.\<close>

definition sender_of :: "'x txpool_env \<Rightarrow> eth_transaction \<Rightarrow> H160" where
  "sender_of E txn =
     (case public_key E txn (message_hash E txn) of
        Inr pk \<Rightarrow> address_from E (keccak_256 E pk)
      | Inl _ \<Rightarrow> 0)"

definition insert_tx ::
  "'x txpool_env \<Rightarrow> (H256 \<Rightarrow> H160 \<Rightarrow> eth_transaction \<Rightarrow> 't) \<Rightarrow> eth_transaction \<Rightarrow> 't TransactionMap \<Rightarrow> 't TransactionMap" where
  "insert_tx E get txn out =
     (let hash = message_hash E txn;
          from_address = sender_of E txn;
          entry = (case out from_address of None \<Rightarrow> Map.empty | Some inner \<Rightarrow> inner)
      in out(from_address \<mapsto> entry(nonce txn \<mapsto> get hash from_address txn)))"

definition map_build ::
  "'x txpool_env \<Rightarrow> (H256 \<Rightarrow> H160 \<Rightarrow> eth_transaction \<Rightarrow> 't) \<Rightarrow> string + 't TransactionMap" where
  "map_build E get =
     (case runtime_filter E (ready E) of
        Inl msg \<Rightarrow> Inl (''fetch runtime extrinsic filter failed: '' @ msg)
      | Inr ethereum_txns \<Rightarrow> Inr (fold (insert_tx E get) ethereum_txns Map.empty))"

definition content :: "'x txpool_env \<Rightarrow> string + Transaction TransactionMap TxPoolResult" where
  "content E =
     (case map_build E get_transaction of
        Inl e \<Rightarrow> Inl e
      | Inr p \<Rightarrow> Inr \<lparr>pending = p, queued = Map.empty\<rparr>)"

definition inspect :: "'x txpool_env \<Rightarrow> string + Summary TransactionMap TxPoolResult" where
  "inspect E =
     (case map_build E get_summary of
        Inl e \<Rightarrow> Inl e
      | Inr p \<Rightarrow> Inr \<lparr>pending = p, queued = Map.empty\<rparr>)"

definition pool_status :: "'x txpool_env \<Rightarrow> U256 TxPoolResult" where
  "pool_status E = \<lparr>pending = of_nat (status_ready E), queued = of_nat (status_future E)\<rparr>"

section \<open>What the map holds\<close>

definition lookup_tx :: "'t TransactionMap \<Rightarrow> H160 \<Rightarrow> U256 \<Rightarrow> 't option" where
  "lookup_tx out a n = Option.bind (out a) (\<lambda>inner. inner n)"

lemma lookup_insert_tx:
  "lookup_tx (insert_tx E get txn out) a n =
     (if a = sender_of E txn \<and> n = nonce txn then Some (get (message_hash E txn) a txn) else lookup_tx out a n)"
  by (auto simp: lookup_tx_def insert_tx_def split: option.splits)

definition last_matching :: "'x txpool_env \<Rightarrow> H160 \<Rightarrow> U256 \<Rightarrow> eth_transaction list \<Rightarrow> eth_transaction option" where
  "last_matching E a n txns = find (\<lambda>t. sender_of E t = a \<and> nonce t = n) (rev txns)"

lemma find_append: "find P (xs @ ys) = (case find P xs of None \<Rightarrow> find P ys | Some x \<Rightarrow> Some x)"
  by (induction xs) auto

lemma lookup_fold_insert_tx:
  "lookup_tx (fold (insert_tx E get) txns out) a n =
     (case last_matching E a n txns of
        None \<Rightarrow> lookup_tx out a n
      | Some t \<Rightarrow> Some (get (message_hash E t) a t))"
  by (induction txns arbitrary: out)
     (auto simp: last_matching_def find_append lookup_insert_tx split: option.splits)

end
