(* ===== verification/Node_Properties.thy ===== *)
theory Node_Properties
  imports Node_Command Node_Relay Node_Tasks Node_Genesis Tx_Pool
begin

text \<open>
  Properties of the node: the two maintenance tasks of the Ethereum RPC, the content of the transaction
  pool RPC, the sealing argument of the command line, and the development node that \<open>run\<close> starts.
\<close>

section \<open>Maintenance tasks\<close>

lemma lifespan_over:
  assumes "unat at_block + unat (n :: u64) < 2 ^ 64"
  shows "at_block + n \<le> (ucast (h :: u32) :: u64) \<longleftrightarrow> unat at_block + unat n \<le> unat h"
  using unat_plus_exact[of at_block n] assms by (simp add: word_le_nat_alt)

text \<open>C37: a filter stays in the pool, unchanged, through any sequence of imported blocks and any changes of
  other filters, until a block at least 100 blocks after its creation is imported while the pool can be locked,
  and is gone from then on. This is what the loop over a copy of the map, which removes from the locked map,
  amounts to.\<close>

theorem filters_live_100_blocks:
  assumes "distinct (map fst pool)" "map_of pool k = Some v" "unat (filter_at_block v) + 100 < 2 ^ 64"
    and "\<not> list_ex (touches k) events"
  shows "map_of (run_pool filter_pool_block events pool) k =
    (if \<exists>b. Imported b True \<in> set events \<and> unat (filter_at_block v) + 100 \<le> unat (header_number b)
     then None else Some v)"
  using filters.run_pool_lifetime[OF assms(1,4,2)] lifespan_over[of "filter_at_block v" FILTER_RETAIN_THRESHOLD] assms(3)
  by (simp add: FILTER_RETAIN_THRESHOLD_def)

theorem filters_live_100_blocks_witness:
  "map_of (run_pool filter_pool_block
       [Imported \<lparr>header_number = 149, digest_logs = [()]\<rparr> True, Entered 2 \<lparr>filter_body = (), filter_at_block = 149\<rparr>,
        Imported \<lparr>header_number = 150, digest_logs = []\<rparr> True]
       [(1, \<lparr>filter_body = (), filter_at_block = 50\<rparr>)]) 1 = None"
  by (subst filters_live_100_blocks[where v = "\<lparr>filter_body = (), filter_at_block = 50\<rparr>"]) auto

text \<open>C36: a pending transaction stays, unchanged, through any sequence of imported blocks and any changes
  of others, until a block that reports it as processed (in the last Frontier log of its header) or a block at
  least five blocks after its submission is imported while the map can be locked, and is gone from then on.\<close>

theorem pending_transactions_lifetime:
  assumes "distinct (map fst pool)" "map_of pool k = Some v" "unat (pending_at_block v) + 5 < 2 ^ 64"
    and "\<not> list_ex (touches k) events"
  shows "map_of (run_pool (pending_transactions_block try_to end_block) events pool) k =
    (if \<exists>b. Imported b True \<in> set events \<and>
          (k \<in> processed try_to end_block (digest_logs b) \<or> unat (pending_at_block v) + 5 \<le> unat (header_number b))
     then None else Some v)"
  using pending_txs.run_pool_lifetime[OF assms(1,4,2), of try_to end_block] lifespan_over[of "pending_at_block v" TRANSACTION_RETAIN_THRESHOLD] assms(3)
  by (simp add: TRANSACTION_RETAIN_THRESHOLD_def)

theorem pending_transactions_lifetime_witness:
  "map_of (run_pool (pending_transactions_block Some Some)
       [Imported \<lparr>header_number = 8, digest_logs = [[3], [4 :: H256]]\<rparr> True, Imported \<lparr>header_number = 12, digest_logs = []\<rparr> False]
       [(3, \<lparr>pending_tx = (), pending_at_block = 7\<rparr>), (4, \<lparr>pending_tx = (), pending_at_block = 7\<rparr>)]) 3 =
     Some \<lparr>pending_tx = (), pending_at_block = 7\<rparr>"
  by (subst pending_transactions_lifetime[where v = "\<lparr>pending_tx = (), pending_at_block = 7\<rparr>"])
    (auto simp: processed_def frontier_log_def)

section \<open>The transaction pool\<close>


definition demo_tx :: "U256 \<Rightarrow> eth_transaction" where
  "demo_tx k = \<lparr>nonce = k, gas_price = 1, gas_limit = 21000, action = Create, value_wei = 0, input = [],
     sig_r = [], sig_s = [], sig_standard_v = 27\<rparr>"

definition demo_pool :: "eth_transaction runtime_call txpool_env" where
  "demo_pool = \<lparr>ready = [EthereumTransact (demo_tx 4), OtherCall], status_ready = 2, status_future = 0,
     runtime_filter = (\<lambda>xs. Inr (extrinsic_filter xs)), message_hash = (\<lambda>_. 1), hash_bytes = (\<lambda>_. []),
     ecdsa_recover = (\<lambda>_ _. Inr []), keccak_256 = (\<lambda>_. 5), address_from = (\<lambda>_. 6)\<rparr>"


section \<open>The command line\<close>

text \<open>The sealing argument accepts the two names and the decimal form of every 64-bit number of
  milliseconds, and reads them as what they say.\<close>

lemma sealing_accepts_decimal:
  "sealing_from_str (decimal (unat millis)) = Inr (Interval millis) \<and>
   sealing_from_str ''instant'' = Inr Instant \<and> sealing_from_str ''manual'' = Inr Manual"
proof -
  obtain c cs where c: "decimal (unat millis) = c # cs" "c \<in> digit_char ` {..<10}" using decimal_first by blast
  then obtain d where d: "d < 10" "c = digit_char d" by auto
  have "(of_char c :: nat) \<le> 57" using d digit_char_code[of d] by simp
  then have "c \<noteq> CHR ''i''" "c \<noteq> CHR ''m''" by auto
  with c(1) have "decimal (unat millis) \<noteq> ''instant''" "decimal (unat millis) \<noteq> ''manual''" by auto
  moreover have "u64_from_str (decimal (unat millis)) = Some millis"
    using u64_from_decimal[of "unat millis"] unsigned_less[of millis, where 'a = nat] by simp
  ultimately show ?thesis by (simp add: sealing_from_str_def)
qed

text \<open>C35: without a subcommand \<open>run\<close> starts a node, and never a collator without an author. If the
  development service is asked for, by the flag or by the chain specification, the node mocks time and
  validation data, authors as the given account or as Gerald, seals blocks in the given mode when it is
  a collator or a development chain, and offers manual sealing exactly in manual mode. Otherwise it uses
  the real clock, is a collator or a full node of the parachain of the argument, of the specification or 1000,
  in this order, and offers no manual sealing.
  The maintenance tasks of the Ethereum RPC always run.\<close>

theorem run_starts_node:
  assumes "providers_law (provider_registry (services E))" "subcommand cli = None" "run E cli = Inr act"
  shows "\<exists>node. act = RunNode node \<and> (is_collator cli \<longrightarrow> author_id (run_cmd cli) \<noteq> None) \<and>
    filter_pool_task node \<and> pending_transactions_task node \<and>
    (if wants_dev_service E cli
     then registered (provider_registry (services E)) (inherent_data_providers (components node)) =
            [AuthorProvider (encode_address (services E) (case author_id (run_cmd cli) of None \<Rightarrow> gerald | Some a \<Rightarrow> a)),
             MockTimestamp 6000, MockValidationData] \<and>
          authoring_task node = (if is_collator cli \<or> base_dev (run_cmd cli) then ManualSeal (sealing (run_cmd cli)) else NoAuthoring) \<and>
          (ManualSealApi \<in> set (rpc_extensions node) \<longleftrightarrow>
             (is_collator cli \<or> base_dev (run_cmd cli)) \<and> sealing (run_cmd cli) = Manual)
     else registered (provider_registry (services E)) (inherent_data_providers (components node)) =
            (case author_id (run_cmd cli) of None \<Rightarrow> [] | Some a \<Rightarrow> [AuthorProvider (encode_address (services E) a)]) @ [RealTimestamp] \<and>
          authoring_task node =
            (if is_collator cli then CollatorTask else FullNodeTask)
              (parachain_of (run_parachain_id (run_cmd cli)) (map_option ext_para_id (config_extension E))) \<and>
          ManualSealApi \<notin> set (rpc_extensions node))"
proof -
  let ?S = "services E" and ?r = "run_cmd cli"
  have run: "run_node E cli = Inr act" using assms(2,3) by (simp add: run_def)
  then have collator: "is_collator cli \<longrightarrow> author_id ?r \<noteq> None"
    by (auto simp: run_node_def split: sum.split_asm if_split_asm)
  show ?thesis
  proof (cases "wants_dev_service E cli")
    case True
    from run_dev_node[OF assms(1,2) this assms(3)] obtain node where node: "act = RunNode node"
      "registered (provider_registry ?S) (inherent_data_providers (components node)) =
        [AuthorProvider (encode_address ?S (case author_id ?r of None \<Rightarrow> gerald | Some a \<Rightarrow> a)), MockTimestamp 6000, MockValidationData]"
      "new_dev ?S (sealing ?r) (Some (case author_id ?r of None \<Rightarrow> gerald | Some a \<Rightarrow> a)) (is_collator cli \<or> base_dev ?r) = Inr node"
      by blast
    with new_dev_service[OF node(3)] True collator show ?thesis by auto
  next
    case False
    let ?p = "parachain_of (run_parachain_id ?r) (map_option ext_para_id (config_extension E))"
    obtain node where node: "act = RunNode node"
      "start_node ?S (config_role E) (author_id ?r) ?p (is_collator cli) = Inr node"
      using run False by (auto simp: run_node_def split: sum.split_asm if_split_asm option.split_asm)
    note nd = start_node_service[OF node(2)]
    note reg = built_providers[OF assms(1) new_partial_components(1)[OF nd(1)]]
    show ?thesis using nd reg False node(1) collator by auto
  qed
qed

definition list_registry :: "provider list providers_ops" where
  "list_registry = \<lparr>new_providers = [], register_provider = (\<lambda>x ps. if x \<in> set ps then Inl ''exists'' else Inr (ps @ [x])),
     registered = (\<lambda>ps. ps)\<rparr>"

definition dev_env :: "provider list run_env" where
  "dev_env = \<lparr>create_runner_error = None, executable_name = ''moonbase-parachain'', config_role = Full, config_base_path = None,
     config_extension = Some (spec_extensions (development_chain_spec None
       \<lparr>from_parts = (\<lambda>p. p), from_rational_u32 = (\<lambda>_ _. 0), from_rational_u128 = (\<lambda>_ _. 0), perbill_mul = (\<lambda>_ x. x)\<rparr> (\<lambda>p. p))),
     genesis_header = (\<lambda>_. Inr []), own_genesis_error = None, relay_config_error = (\<lambda>_. None),
     spec_storage = (\<lambda>_. Inr Map.empty), hex_display = (\<lambda>bs. bs),
     services = \<lparr>provider_registry = list_registry, encode_address = (\<lambda>a. [ucast a]), full_parts_error = None,
       import_queue_error = None, polkadot_error = None, network_error = None, spawn_error = None, consensus_error = None\<rparr>\<rparr>"

definition dev_cli :: Cli where
  "dev_cli = \<lparr>subcommand = None, run_cmd = \<lparr>base_validator = False, base_dev = True, run_parachain_id = None,
     dev_service = False, sealing = Manual, author_id = None\<rparr>, collator_flag = False, relaychain_args = []\<rparr>"

theorem run_starts_node_witness:
  "\<exists>node :: (provider list, unit, unit) running_service. run dev_env dev_cli = Inr (RunNode node) \<and>
     authoring_task node = ManualSeal Manual \<and> ManualSealApi \<in> set (rpc_extensions node)"
proof -
  have law: "providers_law (provider_registry (services dev_env))"
    by (auto simp: dev_env_def providers_law_def list_registry_def split: if_splits)
  have dev: "subcommand dev_cli = None" "wants_dev_service dev_env dev_cli"
    by (simp_all add: dev_cli_def dev_env_def wants_dev_service_def development_chain_spec_def)
  obtain act :: "(provider list, unit, unit) node_action" where run: "run dev_env dev_cli = Inr act"
    using dev(2) by (simp add: run_def run_node_def dev_cli_def dev_env_def is_collator_def new_dev_def new_partial_def
        build_inherent_data_providers_def list_registry_def fails_with_def)
  from run_starts_node[OF law dev(1) run] dev(2) run show ?thesis by (auto simp: dev_cli_def)
qed

end
