(* ===== verification/Node_Blocks.thy ===== *)
theory Node_Blocks
  imports Node_Command Chain_Execution
begin

text \<open>
  From the node to the runtime: the inherent data that the registered providers of a node create, and the
  inherents that the runtime makes of them when the node builds a block. \<open>InherentData\<close>, the codecs and the inherent
  of the parachain system pallet are code of Substrate and Cumulus and the fields of \<open>inherent_env\<close>; 
  \<open>inherent_env_law\<close> states what they promise. The timestamp is created as well, but its inherent is a call of a Substrate pallet and not part of the blocks here.
\<close>

section \<open>Creating the inherent data\<close>

record ('d, 'root, 'proof) inherent_env =
  data_ops :: "'d inherent_data_ops"
  empty_data :: 'd
  TIMESTAMP_IDENTIFIER :: bytes
  SYSTEM_INHERENT_IDENTIFIER :: bytes
  encode_moment :: "u64 \<Rightarrow> bytes"
  real_timestamp :: "'d \<Rightarrow> string + 'd"
  encode_system :: "('root, 'proof) SystemInherentData \<Rightarrow> bytes"
  default_hash :: bytes
  sproof :: "'root \<times> 'proof"
  parachain_inherent :: "'d \<Rightarrow> u32 option option"

text \<open>One provider; the state is the clock of the mocked timestamp and the data so far.\<close>

fun provide :: "('d, 'root, 'proof) inherent_env \<Rightarrow> provider \<Rightarrow> u64 \<times> 'd \<Rightarrow> string + u64 \<times> 'd" where
  "provide I (AuthorProvider author) (clock, d) =
     map_sum id (Pair clock) (provide_inherent_data (data_ops I) author d)"
| "provide I (MockTimestamp duration) (clock, d) =
     (let (result, clock') = mock_timestamp_provide (data_ops I) (encode_moment I) (TIMESTAMP_IDENTIFIER I) duration clock d
      in map_sum id (Pair clock') result)"
| "provide I MockValidationData (clock, d) =
     map_sum id (Pair clock)
       (mock_validation_provide (data_ops I) (encode_system I) (SYSTEM_INHERENT_IDENTIFIER I) (default_hash I) (sproof I) d)"
| "provide I RealTimestamp (clock, d) =
     map_sum id (Pair clock) (real_timestamp I d)"

fun provide_all :: "('d, 'root, 'proof) inherent_env \<Rightarrow> provider list \<Rightarrow> u64 \<times> 'd \<Rightarrow> string + u64 \<times> 'd" where
  "provide_all I [] st = Inr st"
| "provide_all I (p # ps) st = (case provide I p st of Inl e \<Rightarrow> Inl e | Inr st' \<Rightarrow> provide_all I ps st')"

definition create_inherent_data ::
  "('d, 'root, 'proof) inherent_env \<Rightarrow> provider list \<Rightarrow> u64 \<Rightarrow> string + u64 \<times> 'd" where
  "create_inherent_data I ps clock = provide_all I ps (clock, empty_data I)"

section \<open>The inherents of a block\<close>

text \<open>The inherent of one pallet: none, or a panic when the data cannot be read.\<close>

definition pallet_inherent ::
  "('d, 'root, 'proof) inherent_env \<Rightarrow> ('o, 'h, 'c, 'a) runtime \<Rightarrow> 'd \<Rightarrow> pallet \<Rightarrow> ('o, 'c, 'a) extrinsic list option" where
  "pallet_inherent I R d p =
     (if p = ParachainSystem
      then map_option (\<lambda>h. case h of None \<Rightarrow> [] | Some h \<Rightarrow> [SetValidationData h]) (parachain_inherent I d)
      else if p = AuthorInherent
      then map_option (\<lambda>c. case c of None \<Rightarrow> [] | Some (SetAuthor a) \<Rightarrow> [SetAuthorCall (none_origin R) a])
             (create_inherent (AuthorConfig R) (data_ops I) d)
      else Some [])"

fun pallet_inherents ::
  "('d, 'root, 'proof) inherent_env \<Rightarrow> ('o, 'h, 'c, 'a) runtime \<Rightarrow> 'd \<Rightarrow> pallet list \<Rightarrow> ('o, 'c, 'a) extrinsic list option" where
  "pallet_inherents I R d [] = Some []"
| "pallet_inherents I R d (p # ps) =
     (case pallet_inherent I R d p of
        None \<Rightarrow> None
      | Some xs \<Rightarrow> map_option (\<lambda>ys. xs @ ys) (pallet_inherents I R d ps))"

definition inherent_extrinsics ::
  "('d, 'root, 'proof) inherent_env \<Rightarrow> ('o, 'h, 'c, 'a) runtime \<Rightarrow> 'd \<Rightarrow> ('o, 'c, 'a) extrinsic list option" where
  "inherent_extrinsics I R d = pallet_inherents I R d inherent_order"

section \<open>What the data hold\<close>

text \<open>\<open>InherentData\<close> is a map from identifiers to values that refuses to overwrite one; the inherent of the
  parachain system pallet hands on the block number of the validation data.\<close>

definition inherent_env_law :: "('d, 'root, 'proof) inherent_env \<Rightarrow> bool" where
  "inherent_env_law I \<longleftrightarrow>
     (\<forall>k. get_data (data_ops I) k (empty_data I) = Inr None) \<and>
     (\<forall>k x d. get_data (data_ops I) k d = Inr None \<longrightarrow> (\<exists>d'. put_data (data_ops I) k x d = Inr d')) \<and>
     (\<forall>k x d d' k'. put_data (data_ops I) k x d = Inr d' \<longrightarrow>
        get_data (data_ops I) k' d' = (if k' = k then Inr (Some x) else get_data (data_ops I) k' d)) \<and>
     distinct [INHERENT_IDENTIFIER, TIMESTAMP_IDENTIFIER I, SYSTEM_INHERENT_IDENTIFIER I] \<and>
     (\<forall>d S. get_data (data_ops I) (SYSTEM_INHERENT_IDENTIFIER I) d = Inr (Some (encode_system I S)) \<longrightarrow>
        parachain_inherent I d = Some (Some (block_number (validation_data S))))"

lemma put_step:
  assumes "inherent_env_law I" "get_data (data_ops I) k d = Inr None"
  obtains d' where "put_data (data_ops I) k x d = Inr d'"
    "\<And>k'. get_data (data_ops I) k' d' = (if k' = k then Inr (Some x) else get_data (data_ops I) k' d)"
  using assms unfolding inherent_env_law_def by metis

text \<open>The providers of the development service create complete data.\<close>

lemma dev_data:
  assumes law: "inherent_env_law I"
  obtains d where "create_inherent_data I [AuthorProvider bs, MockTimestamp duration, MockValidationData] clock = Inr (clock + duration, d)"
    "get_data (data_ops I) INHERENT_IDENTIFIER d = Inr (Some bs)"
    "get_data (data_ops I) (TIMESTAMP_IDENTIFIER I) d = Inr (Some (encode_moment I (clock + duration)))"
    "get_data (data_ops I) (SYSTEM_INHERENT_IDENTIFIER I) d =
       Inr (Some (encode_system I (mock_validation_data (default_hash I) (sproof I))))"
proof -
  have ids: "INHERENT_IDENTIFIER \<noteq> TIMESTAMP_IDENTIFIER I" "INHERENT_IDENTIFIER \<noteq> SYSTEM_INHERENT_IDENTIFIER I"
    "TIMESTAMP_IDENTIFIER I \<noteq> SYSTEM_INHERENT_IDENTIFIER I"
    and empty: "\<And>k. get_data (data_ops I) k (empty_data I) = Inr None"
    using law by (auto simp: inherent_env_law_def)
  note step = put_step[OF law]
  from step[OF empty, of INHERENT_IDENTIFIER bs]
  obtain d1 where d1: "put_data (data_ops I) INHERENT_IDENTIFIER bs (empty_data I) = Inr d1"
    "\<And>k'. get_data (data_ops I) k' d1 = (if k' = INHERENT_IDENTIFIER then Inr (Some bs) else get_data (data_ops I) k' (empty_data I))"
    by blast
  have "get_data (data_ops I) (TIMESTAMP_IDENTIFIER I) d1 = Inr None" using d1(2) ids empty by auto
  from step[OF this, of "encode_moment I (clock + duration)"]
  obtain d2 where d2: "put_data (data_ops I) (TIMESTAMP_IDENTIFIER I) (encode_moment I (clock + duration)) d1 = Inr d2"
    "\<And>k'. get_data (data_ops I) k' d2 = (if k' = TIMESTAMP_IDENTIFIER I then Inr (Some (encode_moment I (clock + duration)))
        else get_data (data_ops I) k' d1)" by blast
  have "get_data (data_ops I) (SYSTEM_INHERENT_IDENTIFIER I) d2 = Inr None" using d1(2) d2(2) ids empty by auto
  from step[OF this, of "encode_system I (mock_validation_data (default_hash I) (sproof I))"]
  obtain d3 where d3: "put_data (data_ops I) (SYSTEM_INHERENT_IDENTIFIER I)
        (encode_system I (mock_validation_data (default_hash I) (sproof I))) d2 = Inr d3"
    "\<And>k'. get_data (data_ops I) k' d3 = (if k' = SYSTEM_INHERENT_IDENTIFIER I
        then Inr (Some (encode_system I (mock_validation_data (default_hash I) (sproof I)))) else get_data (data_ops I) k' d2)"
    by blast
  show thesis
    by (rule that[of d3])
      (use d1 d2 d3 ids in \<open>auto simp: create_inherent_data_def provide_inherent_data_def mock_timestamp_provide_def
        mock_validation_provide_def\<close>)
qed

text \<open>The runtime makes the inherents of the author out of them, at the relay height zero of the mock.\<close>

lemma dev_inherents:
  assumes law: "inherent_env_law I" and "decode_account (AuthorConfig R) bs = Some a"
  obtains d where "create_inherent_data I [AuthorProvider bs, MockTimestamp duration, MockValidationData] clock = Inr (clock + duration, d)"
    "inherent_extrinsics I R d = Some (block_inherents R 0 a)"
    "get_data (data_ops I) (TIMESTAMP_IDENTIFIER I) d = Inr (Some (encode_moment I (clock + duration)))"
proof (rule dev_data[OF law, of bs duration clock])
  fix d assume d: "create_inherent_data I [AuthorProvider bs, MockTimestamp duration, MockValidationData] clock = Inr (clock + duration, d)"
    "get_data (data_ops I) INHERENT_IDENTIFIER d = Inr (Some bs)"
    "get_data (data_ops I) (TIMESTAMP_IDENTIFIER I) d = Inr (Some (encode_moment I (clock + duration)))"
    "get_data (data_ops I) (SYSTEM_INHERENT_IDENTIFIER I) d =
       Inr (Some (encode_system I (mock_validation_data (default_hash I) (sproof I))))"
  have "parachain_inherent I d = Some (Some 0)"
    using law d(4) by (cases "sproof I") (auto simp: inherent_env_law_def mock_validation_data_def)
  then have "inherent_extrinsics I R d = Some (block_inherents R 0 a)"
    using d(2) assms(2)
    by (simp add: inherent_extrinsics_def inherent_order_def construct_runtime_def pallet_inherent_def
        create_inherent_def block_inherents_order)
  with d that show thesis by blast
qed

section \<open>An instance\<close>

text \<open>Inherent data as a map; the validation data are encoded by the length of a list.\<close>

definition map_data :: "(bytes \<rightharpoonup> bytes, unit, unit) inherent_env" where
  "map_data = \<lparr>data_ops = \<lparr>put_data = (\<lambda>k x d. if d k = None then Inr (d(k \<mapsto> x)) else Inl ''exists''), get_data = (\<lambda>k d. Inr (d k))\<rparr>,
     empty_data = Map.empty, TIMESTAMP_IDENTIFIER = [1], SYSTEM_INHERENT_IDENTIFIER = [2], encode_moment = (\<lambda>m. [ucast m]),
     real_timestamp = Inr, encode_system = (\<lambda>S. replicate (unat (block_number (validation_data S))) 0), default_hash = [],
     sproof = ((), ()), parachain_inherent = (\<lambda>d. Some (map_option (\<lambda>bs. of_nat (length bs)) (d [2])))\<rparr>"

lemma map_data_law: "inherent_env_law map_data"
  by (auto simp: inherent_env_law_def map_data_def INHERENT_IDENTIFIER_def split: if_splits)

end
