(* ===== verification/Token_Dealer.thy ===== *)
theory Token_Dealer
  imports Substrate
begin

text \<open>
  \<^verbatim>\<open>src/pallets/token-dealer/src/lib.rs\<close>: transfers of tokens between this chain, the relay chain
  and other parachains. The currency, the message senders and the conversions between the two
  account and balance types are the fields of \<open>dealer_config\<close>. \<open>None\<close> is a panic (\<open>expect\<close>).
\<close>

datatype ('a, 'b) XCMPMessage = TransferToken 'a 'b

datatype ('r, 'b) UpwardMessage = BalancesTransfer 'r 'b

datatype ('r, 'b) DownwardMessage = TransferInto 'r 'b | OtherDownward

datatype ('r, 'a) DealerEvent =
    TransferredTokensToRelayChain 'r balance
  | TransferredTokensFromRelayChain 'a balance
  | TransferredTokensViaXCMP u32 'a balance "dispatch_error + unit"

record ('o, 'c, 'a, 'r, 'b, 'u, 'x) dealer_config =
  dealer_signed :: "'o \<Rightarrow> dispatch_error + 'a"
  withdraw :: "'c \<Rightarrow> 'a \<Rightarrow> balance \<Rightarrow> dispatch_error + 'c"
  deposit_creating :: "'c \<Rightarrow> 'a \<Rightarrow> balance \<Rightarrow> 'c"
  transfer :: "'c \<Rightarrow> 'a \<Rightarrow> 'a \<Rightarrow> balance \<Rightarrow> dispatch_error + 'c"
  send_upward_message :: "'u \<Rightarrow> ('r, balance) UpwardMessage \<Rightarrow> 'u option"
  send_xcmp_message :: "'x \<Rightarrow> u32 \<Rightarrow> ('a, balance) XCMPMessage \<Rightarrow> 'x option"
  into_account :: "u32 \<Rightarrow> 'a"
  convert_account :: "'r \<Rightarrow> 'a option"
  convert_balance :: "'b \<Rightarrow> balance option"

record ('c, 'a, 'r, 'u, 'x) dealer_storage =
  Tokens :: 'c
  UpwardQueue :: 'u
  XcmpQueue :: 'x
  DealerEvents :: "('r, 'a) DealerEvent list"

definition dealer_event ::
  "('r, 'a) DealerEvent \<Rightarrow> ('c, 'a, 'r, 'u, 'x) dealer_storage \<Rightarrow> ('c, 'a, 'r, 'u, 'x) dealer_storage" where
  "dealer_event e s = s\<lparr>DealerEvents := DealerEvents s @ [e]\<rparr>"

section \<open>Calls\<close>

definition transfer_tokens_to_relay_chain ::
  "('o, 'c, 'a, 'r, 'b, 'u, 'x) dealer_config \<Rightarrow> 'o \<Rightarrow> 'r \<Rightarrow> balance \<Rightarrow> ('c, 'a, 'r, 'u, 'x) dealer_storage
     \<Rightarrow> ((dispatch_error + unit) \<times> ('c, 'a, 'r, 'u, 'x) dealer_storage) option" where
  "transfer_tokens_to_relay_chain T origin dest amt s =
     (case dealer_signed T origin of
        Inl e \<Rightarrow> Some (Inl e, s)
      | Inr who \<Rightarrow>
          (case withdraw T (Tokens s) who amt of
             Inl e \<Rightarrow> Some (Inl e, s)
           | Inr c \<Rightarrow>
               (let s1 = s\<lparr>Tokens := c\<rparr>;
                    msg = BalancesTransfer dest amt
                in case send_upward_message T (UpwardQueue s1) msg of
                     None \<Rightarrow> None
                   | Some u \<Rightarrow>
                       (let s2 = s1\<lparr>UpwardQueue := u\<rparr>
                        in Some (Inr (), dealer_event (TransferredTokensToRelayChain dest amt) s2)))))"

definition transfer_tokens_to_parachain_chain ::
  "('o, 'c, 'a, 'r, 'b, 'u, 'x) dealer_config \<Rightarrow> 'o \<Rightarrow> u32 \<Rightarrow> 'a \<Rightarrow> balance \<Rightarrow> ('c, 'a, 'r, 'u, 'x) dealer_storage
     \<Rightarrow> ((dispatch_error + unit) \<times> ('c, 'a, 'r, 'u, 'x) dealer_storage) option" where
  "transfer_tokens_to_parachain_chain T origin para_id dest amt s =
     (case dealer_signed T origin of
        Inl e \<Rightarrow> Some (Inl e, s)
      | Inr who \<Rightarrow>
          (case withdraw T (Tokens s) who amt of
             Inl e \<Rightarrow> Some (Inl e, s)
           | Inr c \<Rightarrow>
               (let s1 = s\<lparr>Tokens := c\<rparr>
                in case send_xcmp_message T (XcmpQueue s1) para_id (TransferToken dest amt) of
                     None \<Rightarrow> None
                   | Some x \<Rightarrow> Some (Inr (), s1\<lparr>XcmpQueue := x\<rparr>))))"

section \<open>Incoming messages\<close>

definition handle_downward_message ::
  "('o, 'c, 'a, 'r, 'b, 'u, 'x) dealer_config \<Rightarrow> ('r, 'b) DownwardMessage \<Rightarrow> ('c, 'a, 'r, 'u, 'x) dealer_storage
     \<Rightarrow> ('c, 'a, 'r, 'u, 'x) dealer_storage option" where
  "handle_downward_message T msg s =
     (case msg of
        TransferInto relay_dest relay_amount \<Rightarrow>
          (case convert_account T relay_dest of
             None \<Rightarrow> None
           | Some dest \<Rightarrow>
               (case convert_balance T relay_amount of
                  None \<Rightarrow> None
                | Some amt \<Rightarrow>
                    (let s1 = s\<lparr>Tokens := deposit_creating T (Tokens s) dest amt\<rparr>
                     in Some (dealer_event (TransferredTokensFromRelayChain dest amt) s1))))
      | OtherDownward \<Rightarrow> Some s)"

definition handle_xcmp_message ::
  "('o, 'c, 'a, 'r, 'b, 'u, 'x) dealer_config \<Rightarrow> u32 \<Rightarrow> ('a, balance) XCMPMessage \<Rightarrow> ('c, 'a, 'r, 'u, 'x) dealer_storage
     \<Rightarrow> ('c, 'a, 'r, 'u, 'x) dealer_storage" where
  "handle_xcmp_message T src msg s =
     (case msg of TransferToken dest amt \<Rightarrow>
        (let para_account = into_account T src
         in case transfer T (Tokens s) para_account dest amt of
              Inl e \<Rightarrow> dealer_event (TransferredTokensViaXCMP src dest amt (Inl e)) s
            | Inr c \<Rightarrow> dealer_event (TransferredTokensViaXCMP src dest amt (Inr ())) (s\<lparr>Tokens := c\<rparr>)))"

section \<open>What the transfers do\<close>

text \<open>A transfer that returns an error has changed nothing; one that succeeds has withdrawn the amount
  and handed exactly one message over. A message that cannot be sent is a panic, never an error that
  keeps the withdrawal.\<close>

lemma transfer_to_relay_cases:
  assumes call: "transfer_tokens_to_relay_chain T origin dest amt s = Some (r, s')"
  obtains (fail) e where "r = Inl e" "s' = s"
  | (success) who c u where "r = Inr ()" "dealer_signed T origin = Inr who" "withdraw T (Tokens s) who amt = Inr c"
      "send_upward_message T (UpwardQueue s) (BalancesTransfer dest amt) = Some u"
      "Tokens s' = c" "UpwardQueue s' = u" "XcmpQueue s' = XcmpQueue s"
      "DealerEvents s' = DealerEvents s @ [TransferredTokensToRelayChain dest amt]"
proof -
  show thesis
    using call unfolding transfer_tokens_to_relay_chain_def dealer_event_def
    by (auto split: sum.split_asm option.split_asm intro: fail success)
qed

lemma transfer_to_parachain_cases:
  assumes call: "transfer_tokens_to_parachain_chain T origin para dest amt s = Some (r, s')"
  obtains (fail) e where "r = Inl e" "s' = s"
  | (success) who c x where "r = Inr ()" "dealer_signed T origin = Inr who" "withdraw T (Tokens s) who amt = Inr c"
      "send_xcmp_message T (XcmpQueue s) para (TransferToken dest amt) = Some x"
      "Tokens s' = c" "XcmpQueue s' = x" "UpwardQueue s' = UpwardQueue s" "DealerEvents s' = DealerEvents s"
proof -
  show thesis
    using call unfolding transfer_tokens_to_parachain_chain_def
    by (auto split: sum.split_asm option.split_asm intro: fail success)
qed

text \<open>An incoming transfer from another parachain that fails leaves the balances alone and reports the
  error in its event.\<close>

lemma handle_xcmp_failed:
  assumes "transfer T (Tokens s) (into_account T src) dest amt = Inl e"
  shows "Tokens (handle_xcmp_message T src (TransferToken dest amt) s) = Tokens s"
    "DealerEvents (handle_xcmp_message T src (TransferToken dest amt) s)
       = DealerEvents s @ [TransferredTokensViaXCMP src dest amt (Inl e)]"
  using assms by (simp_all add: handle_xcmp_message_def dealer_event_def)

end
