(* ===== verification/Ethereum_Account.thy ===== *)
theory Ethereum_Account
  imports Prelude
begin

text \<open>
  \<^verbatim>\<open>src/runtime/account/src/lib.rs\<close>: Ethereum-style signatures and signers. Hashing, key recovery
  and the conversion of a 32-byte digest to a 20-byte address are the fields of \<open>crypto\<close>.
\<close>

type_synonym byte_vec = "u8 list"

datatype EcdsaVerifyError = BadRS | BadV | BadSignature

record crypto =
  keccak256 :: "byte_vec \<Rightarrow> byte_vec"
  secp256k1_ecdsa_recover :: "byte_vec \<Rightarrow> byte_vec \<Rightarrow> EcdsaVerifyError + byte_vec"
  h160_from_h256 :: "byte_vec \<Rightarrow> byte_vec"

datatype EthereumSignature = EthereumSignature (ecdsa_signature: byte_vec)

datatype EthereumSigner = EthereumSigner (signer_bytes: byte_vec)

definition signature_from :: "byte_vec \<Rightarrow> EthereumSignature" where
  "signature_from x = EthereumSignature x"

definition verify :: "crypto \<Rightarrow> EthereumSignature \<Rightarrow> byte_vec \<Rightarrow> byte_vec \<Rightarrow> bool" where
  "verify C sig msg signer =
     (let m = keccak256 C msg
      in case secp256k1_ecdsa_recover C (ecdsa_signature sig) m of
           Inr pubkey \<Rightarrow> h160_from_h256 C (keccak256 C pubkey) = signer
         | Inl BadRS \<Rightarrow> False
         | Inl BadV \<Rightarrow> False
         | Inl BadSignature \<Rightarrow> False)"

definition signer_into_account :: "EthereumSigner \<Rightarrow> byte_vec" where
  "signer_into_account s = signer_bytes s"

definition signer_from_bytes :: "byte_vec \<Rightarrow> EthereumSigner" where
  "signer_from_bytes x = EthereumSigner x"

text \<open>The bytes 13 to 32 of a compressed public key of 33 bytes; the slice panics on a shorter one.\<close>

definition signer_from_public :: "byte_vec \<Rightarrow> EthereumSigner option" where
  "signer_from_public x =
     (if length x < 33 then None else Some (EthereumSigner (take 20 (drop 13 x))))"

lemma signer_from_public_length:
  "signer_from_public x = Some s \<Longrightarrow> length (signer_into_account s) = 20"
  by (auto simp: signer_from_public_def signer_into_account_def split: if_splits)

end
